(* ===== verification/Prelude.thy ===== *)
theory Prelude
  imports Main "HOL-Library.Word"
begin

text \<open>
  Shared vocabulary of the development: the machine integers of the C sources, the
  collections of facts that the component theories extend, and the generic lemmas on
  lists, options and reflexive-transitive closures that several components use.
\<close>

section \<open>Machine integers and addresses\<close>

text \<open>
  The samples use \<open>int\<close>, \<open>atomic_int\<close>, \<open>bool\<close> and \<open>uint16_t\<close>/\<open>uint32_t\<close> objects. All of them
  are kept as 32-bit words: addition and subtraction wrap (C11 7.17.7.5 makes the atomic
  read-modify-write operations wrap silently), and a signed comparison reads the word as
  two's complement.
\<close>

type_synonym c_int = "32 word"

definition signed_less :: "c_int \<Rightarrow> c_int \<Rightarrow> bool" where
  "signed_less a b \<longleftrightarrow> sint a < sint b"

definition signed_le :: "c_int \<Rightarrow> c_int \<Rightarrow> bool" where
  "signed_le a b \<longleftrightarrow> sint a \<le> sint b"

text \<open>
  A shared object is addressed by its C designator, e.g. \<open>''flag''\<close>. Samples with arrays or
  linked nodes use an address datatype of their own; the machine is polymorphic in it.
\<close>

type_synonym loc = string

lemma signed_less_irrefl [simp]: "\<not> signed_less a a"
  by (simp add: signed_less_def)

lemma signed_less_antisym: "signed_less a b \<Longrightarrow> \<not> signed_less b a"
  by (simp add: signed_less_def)

lemma signed_le_iff: "signed_le a b \<longleftrightarrow> \<not> signed_less b a"
  by (auto simp: signed_le_def signed_less_def)

section \<open>Collections of facts\<close>

text \<open>
  \<open>model_defs\<close> holds the definitions of the thread functions, so that a proof about one sample
  unfolds what it needs; \<open>machine_simps\<close> holds the one-step equations of the machine.
\<close>

named_theorems model_defs \<open>definitions of the sample programs\<close>
named_theorems machine_simps \<open>equations that evaluate one step of the machine\<close>

section \<open>Lists\<close>

lemma list_update_nth_eq [simp]: "i < length xs \<Longrightarrow> xs[i := x] ! i = x"
  by simp

lemma nth_list_update_within: "j < length xs \<Longrightarrow> xs[i := x] ! j = (if i = j then x else xs ! j)"
  by (cases "i < length xs") (auto simp: nth_list_update)

lemma ex_nth_list_update:
  "i < length xs \<Longrightarrow>
   (\<exists>j<length xs. P (xs[i := x] ! j)) \<longleftrightarrow> P x \<or> (\<exists>j<length xs. j \<noteq> i \<and> P (xs ! j))"
  by (auto simp: nth_list_update)

lemma all_nth_list_update:
  "i < length xs \<Longrightarrow>
   (\<forall>j<length xs. P (xs[i := x] ! j)) \<longleftrightarrow> P x \<and> (\<forall>j<length xs. j \<noteq> i \<longrightarrow> P (xs ! j))"
  by (auto simp: nth_list_update)

lemma nth_append_last: "(xs @ [x]) ! i = (if i < length xs then xs ! i else [x] ! (i - length xs))"
  by (simp add: nth_append)

section \<open>Closures\<close>

lemma rtranclp_invariant:
  assumes "step\<^sup>*\<^sup>* c c'" and "I c" and "\<And>a b. I a \<Longrightarrow> step a b \<Longrightarrow> I b"
  shows "I c'"
  using assms(1,2) by (induction rule: rtranclp_induct) (auto intro: assms(3))

text \<open>A run of named steps, given as a list, is an execution.\<close>

lemma foldl_reach:
  assumes "\<And>s x. x \<in> set xs \<Longrightarrow> step\<^sup>*\<^sup>* s (f s x)"
  shows "step\<^sup>*\<^sup>* s (foldl f s xs)"
  using assms
proof (induction xs arbitrary: s)
  case (Cons x xs)
  have "step\<^sup>*\<^sup>* s (f s x)" by (rule Cons.prems) simp
  also have "step\<^sup>*\<^sup>* (f s x) (foldl f (f s x) xs)" by (rule Cons.IH) (rule Cons.prems, simp)
  finally show ?case by simp
qed simp

end
