(* ===== verification/Transition_Systems.thy ===== *)
theory Transition_Systems
  imports Prelude
begin

text \<open>
  Reachability and the two interfaces that every proof about a sample goes through: a step
  relation whose successors can be enumerated (so that a finite state space can be explored
  inside the logic), and a simulation between two step relations (so that a safety result
  moves from one memory model to another).
\<close>

section \<open>Safety and invariants\<close>

definition always :: "('c \<Rightarrow> 'c \<Rightarrow> bool) \<Rightarrow> 'c \<Rightarrow> ('c \<Rightarrow> bool) \<Rightarrow> bool" where
  "always step c P \<longleftrightarrow> (\<forall>c'. step\<^sup>*\<^sup>* c c' \<longrightarrow> P c')"

lemma alwaysI: "(\<And>c'. step\<^sup>*\<^sup>* c c' \<Longrightarrow> P c') \<Longrightarrow> always step c P"
  by (simp add: always_def)

lemma alwaysD: "always step c P \<Longrightarrow> step\<^sup>*\<^sup>* c c' \<Longrightarrow> P c'"
  by (simp add: always_def)

lemma always_invariant:
  assumes "I c" and "\<And>a b. I a \<Longrightarrow> step a b \<Longrightarrow> I b" and "\<And>a. I a \<Longrightarrow> P a"
  shows "always step c P"
proof (rule alwaysI)
  fix c' assume "step\<^sup>*\<^sup>* c c'"
  then have "I c'" using assms(1,2) by (rule rtranclp_invariant)
  then show "P c'" by (rule assms(3))
qed

lemma always_mono: "always step c P \<Longrightarrow> (\<And>a. P a \<Longrightarrow> Q a) \<Longrightarrow> always step c Q"
  by (simp add: always_def)

lemma always_conj: "always step c (\<lambda>a. P a \<and> Q a) \<longleftrightarrow> always step c P \<and> always step c Q"
  by (auto simp: always_def)

lemma always_step_mono:
  assumes "always step' c P" and "\<And>a b. step a b \<Longrightarrow> step' a b"
  shows "always step c P"
proof -
  have "step\<^sup>*\<^sup>* \<le> step'\<^sup>*\<^sup>*"
    by (rule rtranclp_mono) (use assms(2) in blast)
  then show ?thesis using assms(1) by (auto simp: always_def)
qed

section \<open>Exhaustive exploration\<close>

text \<open>
  \<open>explore succs ok fin n c\<close> unfolds the tree of executions from \<open>c\<close> to depth \<open>n\<close>: every state
  must satisfy \<open>ok\<close>, every state with no successor must satisfy \<open>fin\<close>, and every branch must
  stop within the depth (the fuel is part of what is checked, so \<open>True\<close> is a proof about all
  executions, not only about those shorter than \<open>n\<close>).
\<close>

fun explore ::
  "('c \<Rightarrow> 'c list) \<Rightarrow> ('c \<Rightarrow> bool) \<Rightarrow> ('c \<Rightarrow> bool) \<Rightarrow> nat \<Rightarrow> 'c \<Rightarrow> bool" where
  "explore succs ok fin 0 c = False"
| "explore succs ok fin (Suc n) c =
     (ok c \<and> (case succs c of [] \<Rightarrow> fin c | cs \<Rightarrow> list_all (explore succs ok fin n) cs))"

text \<open>The interface: a step relation and the function that enumerates its successors.\<close>

locale finitely_branching =
  fixes step :: "'c \<Rightarrow> 'c \<Rightarrow> bool"
    and succs :: "'c \<Rightarrow> 'c list"
  assumes succs_iff: "step c c' \<longleftrightarrow> c' \<in> set (succs c)"
begin

lemma explore_step:
  assumes "explore succs ok fin (Suc n) c" and "step c c'"
  shows "explore succs ok fin n c'"
  using assms by (auto simp: succs_iff list_all_iff split: list.splits)

lemma explore_reach:
  assumes "step\<^sup>*\<^sup>* c c'" and "explore succs ok fin n c"
  shows "\<exists>m\<le>n. explore succs ok fin m c'"
  using assms
proof (induction rule: rtranclp_induct)
  case (step y z)
  then obtain m where m: "m \<le> n" "explore succs ok fin m y" by blast
  then obtain m' where "m = Suc m'" by (cases m) auto
  with m step.hyps(2) have "explore succs ok fin m' z" by (auto intro: explore_step)
  with m \<open>m = Suc m'\<close> show ?case by (intro exI [of _ m']) simp
qed blast

lemma explore_now:
  assumes "explore succs ok fin n c"
  shows "ok c" and "\<not> (\<exists>c'. step c c') \<Longrightarrow> fin c"
  using assms by (cases n; auto simp: succs_iff split: list.splits)+

theorem explore_always:
  assumes "explore succs ok fin n c"
  shows "always step c (\<lambda>c'. ok c' \<and> ((\<exists>c''. step c' c'') \<or> fin c'))"
proof (rule alwaysI)
  fix c' assume "step\<^sup>*\<^sup>* c c'"
  from explore_reach [OF this assms] obtain m where "explore succs ok fin m c'" by blast
  then show "ok c' \<and> ((\<exists>c''. step c' c'') \<or> fin c')" using explore_now by blast
qed

theorem explore_terminates:
  assumes "explore succs ok fin n c" and "(step ^^ k) c c'"
  shows "k < n"
  using assms
proof (induction k arbitrary: n c)
  case 0
  then show ?case by (cases n) auto
next
  case (Suc k)
  then obtain c1 where c1: "step c c1" "(step ^^ k) c1 c'" by (meson relpowp_Suc_D2)
  from Suc.prems(1) obtain n' where n: "n = Suc n'" by (cases n) auto
  with Suc.prems(1) c1(1) have "explore succs ok fin n' c1" by (auto intro: explore_step)
  with Suc.IH c1(2) n show ?case by auto
qed

theorem explore_complete:
  assumes "\<And>k c'. (step ^^ k) c c' \<Longrightarrow> k < n"
    and "always step c (\<lambda>c'. ok c' \<and> ((\<exists>c''. step c' c'') \<or> fin c'))"
  shows "explore succs ok fin n c"
  using assms
proof (induction n arbitrary: c)
  case 0
  from "0.prems"(1) [of 0 c] show ?case by simp
next
  case (Suc n)
  have now: "ok c \<and> ((\<exists>c''. step c c'') \<or> fin c)"
    using Suc.prems(2) by (simp add: always_def)
  have sub: "explore succs ok fin n c1" if "step c c1" for c1
  proof (rule Suc.IH)
    show "k < n" if "(step ^^ k) c1 c'" for k c'
    proof -
      from \<open>step c c1\<close> that have "(step ^^ Suc k) c c'" by (rule relpowp_Suc_I2)
      then have "Suc k < Suc n" by (rule Suc.prems(1))
      then show ?thesis by simp
    qed
    show "always step c1 (\<lambda>c'. ok c' \<and> ((\<exists>c''. step c' c'') \<or> fin c'))"
    proof (rule alwaysI)
      fix c' assume "step\<^sup>*\<^sup>* c1 c'"
      with \<open>step c c1\<close> have "step\<^sup>*\<^sup>* c c'" by (rule converse_rtranclp_into_rtranclp)
      with Suc.prems(2) show "ok c' \<and> ((\<exists>c''. step c' c'') \<or> fin c')" by (rule alwaysD)
    qed
  qed
  show ?case
  proof (cases "succs c")
    case Nil
    with now show ?thesis by (simp add: succs_iff)
  next
    case (Cons d ds)
    then show ?thesis using now sub by (simp add: succs_iff list_all_iff)
  qed
qed

end

section \<open>Simulation\<close>

text \<open>
  Every concrete step from a related pair is matched by zero or more abstract steps. What the
  abstract system always satisfies, the concrete one then satisfies up to the relation.
\<close>

locale simulation =
  fixes concrete :: "'c \<Rightarrow> 'c \<Rightarrow> bool"
    and abstract :: "'a \<Rightarrow> 'a \<Rightarrow> bool"
    and rel :: "'c \<Rightarrow> 'a \<Rightarrow> bool"
  assumes match: "rel c a \<Longrightarrow> concrete c c' \<Longrightarrow> \<exists>a'. abstract\<^sup>*\<^sup>* a a' \<and> rel c' a'"
begin

lemma reach_match:
  assumes "concrete\<^sup>*\<^sup>* c c'" and "rel c a"
  shows "\<exists>a'. abstract\<^sup>*\<^sup>* a a' \<and> rel c' a'"
  using assms
proof (induction rule: rtranclp_induct)
  case (step y z)
  then obtain b where b: "abstract\<^sup>*\<^sup>* a b" "rel y b" by blast
  from match [OF b(2) step.hyps(2)] obtain b' where "abstract\<^sup>*\<^sup>* b b'" "rel z b'" by blast
  with b show ?case by (meson rtranclp_trans)
qed blast

theorem always_transfer:
  assumes "always abstract a P" and "rel c a" and "\<And>x y. rel x y \<Longrightarrow> P y \<Longrightarrow> Q x"
  shows "always concrete c Q"
proof (rule alwaysI)
  fix c' assume "concrete\<^sup>*\<^sup>* c c'"
  from reach_match [OF this assms(2)] obtain a' where "abstract\<^sup>*\<^sup>* a a'" "rel c' a'" by blast
  with assms(1,3) show "Q c'" by (auto dest: alwaysD)
qed

end

end
