(* ===== verification/C11_Programs.thy ===== *)
theory C11_Programs
  imports Prelude
begin

text \<open>
  The body of a C function as the sequence of its accesses to shared memory. Local
  variables are HOL variables bound by the continuation of the access that reads them, and
  the control flow of the source is HOL's \<open>if\<close>; so a thread function of a sample is written
  as the source writes it. The type is coinductive because the samples spin
  (\<open>while (!start);\<close>).
\<close>

section \<open>Memory orders\<close>

text \<open>
  The orders of \<open><stdatomic.h>\<close>; \<open>non_atomic\<close> is an access to an ordinary object (\<open>x = 1\<close>).
\<close>

datatype memory_order =
  non_atomic
| memory_order_relaxed
| memory_order_acquire
| memory_order_release
| memory_order_acq_rel
| memory_order_seq_cst

definition releases :: "memory_order \<Rightarrow> bool" where
  "releases mo \<longleftrightarrow> mo \<in> {memory_order_release, memory_order_acq_rel, memory_order_seq_cst}"

lemma releases_simps [simp]:
  "\<not> releases non_atomic" "\<not> releases memory_order_relaxed" "\<not> releases memory_order_acquire"
  "releases memory_order_release" "releases memory_order_acq_rel" "releases memory_order_seq_cst"
  by (simp_all add: releases_def)

section \<open>Programs\<close>

text \<open>
  \<open>Return n\<close> ends the function with \<open>n\<close> (\<open>return NULL\<close> is \<open>Return 0\<close>); \<open>Abort\<close> is a failed
  \<open>assert\<close>; \<open>Blocked\<close> is a failed \<open>__CPROVER_assume\<close>, after which the thread takes no step;
  \<open>Rmw mo l f k\<close> replaces the value \<open>v\<close> of \<open>l\<close> by \<open>f v\<close> in one indivisible step and continues
  with \<open>k v\<close>; \<open>Choose\<close> is a choice the hardware makes (a spurious failure of a weak
  compare-and-swap); \<open>Create\<close> and \<open>Join\<close> are \<open>pthread_create\<close> and \<open>pthread_join\<close>, the new
  thread's number being passed to the continuation.
\<close>

codatatype ('l, 'v) prog =
  Return int
| Abort
| Blocked
| Load memory_order 'l "'v \<Rightarrow> ('l, 'v) prog"
| Store memory_order 'l 'v "('l, 'v) prog"
| Rmw memory_order 'l "'v \<Rightarrow> 'v" "'v \<Rightarrow> ('l, 'v) prog"
| Fence memory_order "('l, 'v) prog"
| Choose "('l, 'v) prog" "('l, 'v) prog"
| Create "('l, 'v) prog" "nat \<Rightarrow> ('l, 'v) prog"
| Join nat "('l, 'v) prog"

text \<open>A sample over \<open>atomic_int\<close> and \<open>int\<close> objects addressed by name.\<close>

type_synonym int_prog = "(loc, c_int) prog"

section \<open>The C operations the samples call\<close>

abbreviation atomic_load_explicit where
  "atomic_load_explicit l mo k \<equiv> Load mo l k"

abbreviation atomic_store_explicit where
  "atomic_store_explicit l v mo p \<equiv> Store mo l v p"

abbreviation atomic_exchange_explicit where
  "atomic_exchange_explicit l v mo k \<equiv> Rmw mo l (\<lambda>_. v) k"

abbreviation atomic_fetch_add_explicit where
  "atomic_fetch_add_explicit l n mo k \<equiv> Rmw mo l (\<lambda>old. old + n) k"

abbreviation atomic_fetch_sub_explicit where
  "atomic_fetch_sub_explicit l n mo k \<equiv> Rmw mo l (\<lambda>old. old - n) k"

text \<open>
  A compare-and-swap that finds \<open>e\<close> stores \<open>d\<close>, otherwise it leaves the object alone; the
  continuation receives whether it succeeded. The weak form may also fail spuriously, with
  the failure order.
\<close>

abbreviation compare_exchange where
  "compare_exchange l e d mo k \<equiv> Rmw mo l (\<lambda>old. if old = e then d else old) (\<lambda>old. k (old = e))"

abbreviation atomic_compare_exchange_weak_explicit where
  "atomic_compare_exchange_weak_explicit l e d mo_success mo_failure k \<equiv>
     Choose (compare_exchange l e d mo_success k) (Load mo_failure l (\<lambda>_. k False))"

text \<open>Accesses to ordinary objects and the GCC builtins of the CBMC versions.\<close>

abbreviation fetch where
  "fetch l k \<equiv> Load non_atomic l k"

abbreviation assign where
  "assign l v p \<equiv> Store non_atomic l v p"

abbreviation sync_synchronize where
  "sync_synchronize p \<equiv> Fence memory_order_seq_cst p"

abbreviation sync_lock_test_and_set where
  "sync_lock_test_and_set l v k \<equiv> Rmw memory_order_acquire l (\<lambda>_. v) k"

abbreviation sync_bool_compare_and_swap where
  "sync_bool_compare_and_swap l e d k \<equiv> compare_exchange l e d memory_order_seq_cst k"

abbreviation c_assert where
  "c_assert b p \<equiv> (if b then p else Abort)"

abbreviation CPROVER_assume where
  "CPROVER_assume b p \<equiv> (if b then p else Blocked)"

abbreviation return_NULL where
  "return_NULL \<equiv> Return 0"

abbreviation pthread_create where
  "pthread_create p k \<equiv> Create p k"

abbreviation pthread_join where
  "pthread_join t p \<equiv> Join t p"

text \<open>
  Most samples' \<open>main\<close> creates the two threads, joins them in the order of creation and then
  runs its final check.
\<close>

definition run_two :: "('l, 'v) prog \<Rightarrow> ('l, 'v) prog \<Rightarrow> ('l, 'v) prog \<Rightarrow> ('l, 'v) prog" where
  "run_two f g fin =
     pthread_create f (\<lambda>t1. pthread_create g (\<lambda>t2. pthread_join t1 (pthread_join t2 fin)))"

text \<open>
  Some samples' \<open>main\<close> returns without joining. Its threads are still explored to their end,
  as the model checkers do: an execution in which \<open>main\<close> is slow is not cut short.
\<close>

definition run_detached :: "('l, 'v) prog \<Rightarrow> ('l, 'v) prog \<Rightarrow> ('l, 'v) prog" where
  "run_detached f g = pthread_create f (\<lambda>t1. pthread_create g (\<lambda>t2. Return 0))"

text \<open>\<open>while (!P(load(l)));\<close>: load until the test holds, then go on.\<close>

primcorec spin_until :: "'l \<Rightarrow> memory_order \<Rightarrow> ('v \<Rightarrow> bool) \<Rightarrow> ('l, 'v) prog \<Rightarrow> ('l, 'v) prog" where
  "spin_until l mo P p = Load mo l (\<lambda>v. if P v then p else spin_until l mo P p)"

text \<open>\<open>for (i = 0; i < n; i++) body\<close> where the body does not use \<open>i\<close>.\<close>

primrec for_times :: "nat \<Rightarrow> (('l, 'v) prog \<Rightarrow> ('l, 'v) prog) \<Rightarrow> ('l, 'v) prog \<Rightarrow> ('l, 'v) prog" where
  "for_times 0 body k = k"
| "for_times (Suc n) body k = body (for_times n body k)"

section \<open>Finished and failed threads\<close>

definition returned :: "('l, 'v) prog \<Rightarrow> bool" where
  "returned p = (case p of Return _ \<Rightarrow> True | _ \<Rightarrow> False)"

definition aborted :: "('l, 'v) prog \<Rightarrow> bool" where
  "aborted p = (case p of Abort \<Rightarrow> True | _ \<Rightarrow> False)"

lemma returned_simps [simp]:
  "returned (Return n)" "\<not> returned Abort" "\<not> returned Blocked" "\<not> returned (Load mo l k)"
  "\<not> returned (Store mo l v p)" "\<not> returned (Rmw mo l f k)" "\<not> returned (Fence mo p)"
  "\<not> returned (Choose p q)" "\<not> returned (Create p c)" "\<not> returned (Join t p)"
  by (simp_all add: returned_def)

lemma aborted_simps [simp]:
  "\<not> aborted (Return n)" "aborted Abort" "\<not> aborted Blocked" "\<not> aborted (Load mo l k)"
  "\<not> aborted (Store mo l v p)" "\<not> aborted (Rmw mo l f k)" "\<not> aborted (Fence mo p)"
  "\<not> aborted (Choose p q)" "\<not> aborted (Create p c)" "\<not> aborted (Join t p)"
  by (simp_all add: aborted_def)

lemma returned_iff: "returned p \<longleftrightarrow> (\<exists>n. p = Return n)"
  by (cases p) simp_all

lemma aborted_iff: "aborted p \<longleftrightarrow> p = Abort"
  by (cases p) simp_all

end
