(* ===== verification/Store_Buffer.thy ===== *)
theory Store_Buffer
  imports C11_Programs
begin

text \<open>
  The store buffer of a thread: the stores it has issued and that are not yet in shared
  memory, oldest first, with the barriers its release stores and release fences leave between
  them. A memory model is a choice of which entry may leave the buffer next. The interface
  \<open>drain_policy\<close> states what the machine relies on, and is interpreted by the two policies of
  the model checkers' \<open>tso\<close> and \<open>pso\<close> models.
\<close>

section \<open>Buffers\<close>

datatype ('l, 'v) entry = Pending memory_order 'l 'v | Barrier

type_synonym ('l, 'v) buffer = "('l, 'v) entry list"

fun apply_entry :: "('l, 'v) entry \<Rightarrow> ('l \<Rightarrow> 'v) \<Rightarrow> ('l \<Rightarrow> 'v)" where
  "apply_entry (Pending mo l v) m = m(l := v)"
| "apply_entry Barrier m = m"

text \<open>
  What a thread with this buffer reads: shared memory overwritten by its own pending stores,
  the newest last (store forwarding).
\<close>

definition view :: "('l \<Rightarrow> 'v) \<Rightarrow> ('l, 'v) buffer \<Rightarrow> 'l \<Rightarrow> 'v" where
  "view m b = fold apply_entry b m"

fun writes_to :: "'l \<Rightarrow> ('l, 'v) entry \<Rightarrow> bool" where
  "writes_to l (Pending mo l' v) = (l' = l)"
| "writes_to l Barrier = False"

text \<open>An entry that may be overtaken by a store to \<open>l\<close>: a store to another object.\<close>

fun passable :: "'l \<Rightarrow> ('l, 'v) entry \<Rightarrow> bool" where
  "passable l (Pending mo l' v) = (l' \<noteq> l)"
| "passable l Barrier = False"

lemma view_Nil [simp]: "view m [] = m"
  by (simp add: view_def)

lemma view_Cons [simp]: "view m (e # b) = view (apply_entry e m) b"
  by (simp add: view_def)

lemma view_append [simp]: "view m (b @ b') = view (view m b) b'"
  by (simp add: view_def)

lemma view_other: "\<not> (\<exists>e\<in>set b. writes_to l e) \<Longrightarrow> view m b l = m l"
proof (induction b arbitrary: m)
  case (Cons e b)
  then show ?case by (cases e) auto
qed simp

lemma view_newest: "view m (b @ [Pending mo l v]) l = v"
  by simp

lemma view_upd_other:
  assumes "list_all (passable l) b"
  shows "view (m(l := v)) b = (view m b)(l := v)"
  using assms
proof (induction b arbitrary: m)
  case (Cons e b)
  show ?case
  proof (cases e)
    case (Pending mo l' v')
    with Cons.prems have "l \<noteq> l'" and "list_all (passable l) b" by auto
    have "view (m(l := v)) (e # b) = view ((m(l' := v'))(l := v)) b"
      by (simp only: Pending view_Cons apply_entry.simps fun_upd_twist [OF \<open>l \<noteq> l'\<close>])
    also have "\<dots> = (view (m(l' := v')) b)(l := v)"
      using Cons.IH \<open>list_all (passable l) b\<close> by blast
    finally show ?thesis by (simp only: Pending view_Cons apply_entry.simps)
  qed (use Cons.prems in simp)
qed simp

section \<open>Drain policies\<close>

text \<open>TSO: first in, first out.\<close>

fun tso_commits :: "('l, 'v) buffer \<Rightarrow> (('l, 'v) entry \<times> ('l, 'v) buffer) list" where
  "tso_commits [] = []"
| "tso_commits (e # b) = [(e, b)]"

text \<open>
  PSO: the oldest entry, or a store that no older entry blocks: an older store to the same
  object keeps its place (coherence), and nothing passes a barrier.
\<close>

fun pso_commits :: "('l, 'v) buffer \<Rightarrow> (('l, 'v) entry \<times> ('l, 'v) buffer) list" where
  "pso_commits [] = []"
| "pso_commits (Barrier # b) = [(Barrier, b)]"
| "pso_commits (Pending mo l v # b) =
     (Pending mo l v, b) #
     map (\<lambda>(e, b'). (e, Pending mo l v # b'))
       (filter (\<lambda>(e, b'). (case e of Pending mo' l' v' \<Rightarrow> l' \<noteq> l | Barrier \<Rightarrow> False)) (pso_commits b))"

lemma pso_commitsE:
  assumes "(e, b') \<in> set (pso_commits (Pending mo l v # b))"
  obtains (head) "e = Pending mo l v" "b' = b"
  | (later) mo' l' v' b'' where "e = Pending mo' l' v'" "l' \<noteq> l" "b' = Pending mo l v # b''"
      "(e, b'') \<in> set (pso_commits b)"
  using assms by (auto split: entry.splits)

text \<open>
  The interface. \<open>commits b\<close> lists the entries that may leave \<open>b\<close>, each with what remains.
  A commit does not change what the owner of the buffer reads; it removes one entry; and a
  buffer that is not empty can always be drained further.
\<close>

locale drain_policy =
  fixes commits :: "('l, 'v) buffer \<Rightarrow> (('l, 'v) entry \<times> ('l, 'v) buffer) list"
  assumes commits_view: "(e, b') \<in> set (commits b) \<Longrightarrow> view (apply_entry e m) b' = view m b"
    and commits_length: "(e, b') \<in> set (commits b) \<Longrightarrow> length b = Suc (length b')"
    and commits_progress: "b \<noteq> [] \<Longrightarrow> commits b \<noteq> []"
begin

inductive drains :: "('l \<Rightarrow> 'v) \<Rightarrow> ('l, 'v) buffer \<Rightarrow> ('l \<Rightarrow> 'v) \<Rightarrow> ('l, 'v) buffer \<Rightarrow> bool" where
  drains_refl: "drains m b m b"
| drains_step: "(e, b') \<in> set (commits b) \<Longrightarrow> drains (apply_entry e m) b' m'' b'' \<Longrightarrow> drains m b m'' b''"

lemma drains_view: "drains m b m' b' \<Longrightarrow> view m' b' = view m b"
  by (induction rule: drains.induct) (simp_all add: commits_view)

text \<open>Draining is confluent: whatever the order, the memory that results is the owner's view.\<close>

lemma drains_result: "drains m b m' [] \<Longrightarrow> m' = view m b"
  using drains_view [of m b m' "[]"] by simp

lemma drains_complete: "drains m b (view m b) []"
proof (induction "length b" arbitrary: m b)
  case 0
  then show ?case by (simp add: drains_refl)
next
  case (Suc n)
  then have "commits b \<noteq> []" by (intro commits_progress) auto
  then obtain e b' where e: "(e, b') \<in> set (commits b)" by (cases "commits b") auto
  from commits_length [OF e] Suc(2) have "n = length b'" by simp
  from Suc(1) [OF this, of "apply_entry e m"] have "drains (apply_entry e m) b' (view m b) []"
    by (simp add: commits_view [OF e])
  with e show ?case by (rule drains_step)
qed

end

interpretation tso: drain_policy tso_commits
proof
  fix e b' and b :: "('a, 'b) buffer"
  assume "(e, b') \<in> set (tso_commits b)"
  then show "length b = Suc (length b')" and "view (apply_entry e m) b' = view m b" for m
    by (cases b; auto)+
next
  fix b :: "('a, 'b) buffer" assume "b \<noteq> []"
  then show "tso_commits b \<noteq> []" by (cases b) auto
qed

lemma pso_commits_view: "(e, b') \<in> set (pso_commits b) \<Longrightarrow> view (apply_entry e m) b' = view m b"
proof (induction b arbitrary: e b' m rule: pso_commits.induct)
  case (3 mo l v b)
  from "3.prems" show ?case
  proof (cases rule: pso_commitsE)
    case (later mo' l' v' b'')
    have "view (apply_entry e m) b' = view (m(l := v, l' := v')) b''"
      by (simp only: later view_Cons apply_entry.simps fun_upd_twist [OF \<open>l' \<noteq> l\<close>])
    also have "\<dots> = view (apply_entry e (m(l := v))) b''" by (simp only: later apply_entry.simps)
    also have "\<dots> = view (m(l := v)) b" using later by (intro "3.IH") simp
    finally show ?thesis by (simp only: view_Cons apply_entry.simps)
  qed (simp only: view_Cons)
qed auto

lemma pso_commits_length: "(e, b') \<in> set (pso_commits b) \<Longrightarrow> length b = Suc (length b')"
proof (induction b arbitrary: e b' rule: pso_commits.induct)
  case (3 mo l v b)
  from "3.prems" show ?case by (cases rule: pso_commitsE) (auto dest: "3.IH")
qed auto

interpretation pso: drain_policy pso_commits
proof
  fix b :: "('a, 'b) buffer" assume "b \<noteq> []"
  then show "pso_commits b \<noteq> []" by (cases b rule: pso_commits.cases) auto
qed (simp_all add: pso_commits_view pso_commits_length)

text \<open>Every TSO commit is a PSO commit.\<close>

lemma tso_commits_pso: "set (tso_commits b) \<subseteq> set (pso_commits b)"
  by (cases b rule: pso_commits.cases) auto

text \<open>Coherence: stores to one object reach memory in the order they were issued.\<close>

lemma pso_commits_same_loc:
  assumes "(e, b') \<in> set (pso_commits b)"
  shows "filter (writes_to l) b = (if writes_to l e then [e] else []) @ filter (writes_to l) b'"
  using assms
proof (induction b arbitrary: e b' rule: pso_commits.induct)
  case (3 mo l' v b)
  from "3.prems" show ?case
  proof (cases rule: pso_commitsE)
    case (later mo' l'' v' b'')
    with "3.IH" [of e b''] show ?thesis by auto
  qed auto
qed auto

text \<open>A barrier is a fence between the stores on its two sides.\<close>

lemma pso_commits_before_barrier:
  assumes "(e, b') \<in> set (pso_commits (b1 @ Barrier # b2))" and "b1 \<noteq> []"
  shows "\<exists>b1'. (e, b1') \<in> set (pso_commits b1) \<and> b' = b1' @ Barrier # b2"
  using assms
proof (induction b1 arbitrary: e b' rule: pso_commits.induct)
  case (3 mo l v b)
  from "3.prems"(1) have "(e, b') \<in> set (pso_commits (Pending mo l v # (b @ Barrier # b2)))" by simp
  then show ?case
  proof (cases rule: pso_commitsE)
    case (later mo' l' v' b'')
    show ?thesis
    proof (cases "b = []")
      case True
      with later show ?thesis by simp
    next
      case False
      from "3.IH" [OF later(4) False] obtain b1' where
        "(e, b1') \<in> set (pso_commits b)" "b'' = b1' @ Barrier # b2" by blast
      with later show ?thesis by (auto split: entry.splits intro!: image_eqI)
    qed
  qed auto
qed auto

end
