(* ===== verification/Machine.thy ===== *)
theory Machine
  imports Transition_Systems Store_Buffer
begin

text \<open>
  The machine that runs a sample: shared memory and a list of threads, each a program and its
  store buffer, under one of the memory models that the evaluation scripts ask their model
  checkers for. The step relation is given twice, as a relation with one rule per kind of
  step and as a function on named actions, and the two are proved to agree; the function is
  what explorations and replays evaluate.
\<close>

section \<open>Memory models\<close>

datatype memory_model = SC | TSO | PSO

text \<open>The models are ordered by how much they allow.\<close>

fun strength :: "memory_model \<Rightarrow> nat" where
  "strength SC = 0"
| "strength TSO = 1"
| "strength PSO = 2"

instantiation memory_model :: linorder
begin

definition less_eq_memory_model :: "memory_model \<Rightarrow> memory_model \<Rightarrow> bool" where
  "less_eq_memory_model M N \<longleftrightarrow> strength M \<le> strength N"

definition less_memory_model :: "memory_model \<Rightarrow> memory_model \<Rightarrow> bool" where
  "less_memory_model M N \<longleftrightarrow> strength M < strength N"

instance
proof
  fix M N :: memory_model
  show "M \<le> N \<Longrightarrow> N \<le> M \<Longrightarrow> M = N"
    by (cases M; cases N) (simp_all add: less_eq_memory_model_def)
qed (auto simp: less_eq_memory_model_def less_memory_model_def)

end

lemma model_order [simp]: "SC \<le> M" "M \<le> PSO" "TSO \<le> PSO" "\<not> TSO \<le> SC" "\<not> PSO \<le> TSO" "\<not> PSO \<le> SC"
  by (cases M; simp add: less_eq_memory_model_def)+

definition commits :: "memory_model \<Rightarrow> ('l, 'v) buffer \<Rightarrow> (('l, 'v) entry \<times> ('l, 'v) buffer) list" where
  "commits M b = (case M of SC \<Rightarrow> [] | TSO \<Rightarrow> tso_commits b | PSO \<Rightarrow> pso_commits b)"

text \<open>
  A sequentially consistent machine, and a \<open>seq_cst\<close> store on any machine, writes memory
  directly; an atomic read-modify-write acts on memory. On TSO it waits for the whole buffer
  (x86 \<open>lock\<close>); on PSO one without release semantics waits only for what must stay before
  it: an older store to its own object, or a barrier.
\<close>

definition write_through :: "memory_model \<Rightarrow> memory_order \<Rightarrow> bool" where
  "write_through M mo \<longleftrightarrow> M = SC \<or> mo = memory_order_seq_cst"

definition rmw_ready :: "memory_model \<Rightarrow> memory_order \<Rightarrow> 'l \<Rightarrow> ('l, 'v) buffer \<Rightarrow> bool" where
  "rmw_ready M mo l b \<longleftrightarrow> (if M = PSO \<and> \<not> releases mo then list_all (passable l) b else b = [])"

definition barrier :: "memory_model \<Rightarrow> memory_order \<Rightarrow> ('l, 'v) buffer" where
  "barrier M mo = (if M \<noteq> SC \<and> releases mo then [Barrier] else [])"

section \<open>Configurations\<close>

record ('l, 'v) thread =
  code :: "('l, 'v) prog"
  buf :: "('l, 'v) buffer"

record ('l, 'v) config =
  mem :: "'l \<Rightarrow> 'v"
  threads :: "('l, 'v) thread list"

definition new_thread :: "('l, 'v) prog \<Rightarrow> ('l, 'v) thread" where
  "new_thread p = \<lparr>code = p, buf = []\<rparr>"

text \<open>The program starts in thread 0, with the initial values of its globals in memory.\<close>

definition boot :: "('l \<Rightarrow> 'v) \<Rightarrow> ('l, 'v) prog \<Rightarrow> ('l, 'v) config" where
  "boot m p = \<lparr>mem = m, threads = [new_thread p]\<rparr>"

definition put :: "nat \<Rightarrow> ('l, 'v) prog \<Rightarrow> ('l, 'v) buffer \<Rightarrow> ('l, 'v) config \<Rightarrow> ('l, 'v) config" where
  "put i p b c = c\<lparr>threads := (threads c)[i := \<lparr>code = p, buf = b\<rparr>]\<rparr>"

definition finished :: "('l, 'v) thread \<Rightarrow> bool" where
  "finished t \<longleftrightarrow> buf t = [] \<and> returned (code t)"

definition all_finished :: "('l, 'v) config \<Rightarrow> bool" where
  "all_finished c \<longleftrightarrow> list_all finished (threads c)"

text \<open>An assertion has failed in some thread.\<close>

definition failed :: "('l, 'v) config \<Rightarrow> bool" where
  "failed c \<longleftrightarrow> list_ex (\<lambda>t. aborted (code t)) (threads c)"

section \<open>The step relation\<close>

inductive step :: "memory_model \<Rightarrow> ('l, 'v) config \<Rightarrow> ('l, 'v) config \<Rightarrow> bool" for M where
  step_load: "i < length (threads c) \<Longrightarrow> threads c ! i = \<lparr>code = Load mo l k, buf = b\<rparr> \<Longrightarrow>
    step M c (put i (k (view (mem c) b l)) b c)"
| step_write: "i < length (threads c) \<Longrightarrow> threads c ! i = \<lparr>code = Store mo l v p, buf = b\<rparr> \<Longrightarrow>
    write_through M mo \<Longrightarrow> M = SC \<or> b = [] \<Longrightarrow>
    step M c ((put i p b c)\<lparr>mem := (mem c)(l := v)\<rparr>)"
| step_enqueue: "i < length (threads c) \<Longrightarrow> threads c ! i = \<lparr>code = Store mo l v p, buf = b\<rparr> \<Longrightarrow>
    \<not> write_through M mo \<Longrightarrow>
    step M c (put i p (b @ barrier M mo @ [Pending mo l v]) c)"
| step_rmw: "i < length (threads c) \<Longrightarrow> threads c ! i = \<lparr>code = Rmw mo l f k, buf = b\<rparr> \<Longrightarrow>
    rmw_ready M mo l b \<Longrightarrow>
    step M c ((put i (k (mem c l)) b c)\<lparr>mem := (mem c)(l := f (mem c l))\<rparr>)"
| step_full_fence: "i < length (threads c) \<Longrightarrow>
    threads c ! i = \<lparr>code = Fence memory_order_seq_cst p, buf = []\<rparr> \<Longrightarrow>
    step M c (put i p [] c)"
| step_fence: "i < length (threads c) \<Longrightarrow> threads c ! i = \<lparr>code = Fence mo p, buf = b\<rparr> \<Longrightarrow>
    mo \<noteq> memory_order_seq_cst \<Longrightarrow>
    step M c (put i p (b @ barrier M mo) c)"
| step_left: "i < length (threads c) \<Longrightarrow> threads c ! i = \<lparr>code = Choose p q, buf = b\<rparr> \<Longrightarrow>
    step M c (put i p b c)"
| step_right: "i < length (threads c) \<Longrightarrow> threads c ! i = \<lparr>code = Choose p q, buf = b\<rparr> \<Longrightarrow>
    step M c (put i q b c)"
| step_create: "i < length (threads c) \<Longrightarrow> threads c ! i = \<lparr>code = Create p k, buf = []\<rparr> \<Longrightarrow>
    step M c (c\<lparr>threads := (threads c)[i := new_thread (k (length (threads c)))] @ [new_thread p]\<rparr>)"
| step_join: "i < length (threads c) \<Longrightarrow> threads c ! i = \<lparr>code = Join j p, buf = b\<rparr> \<Longrightarrow>
    j < length (threads c) \<Longrightarrow> finished (threads c ! j) \<Longrightarrow>
    step M c (put i p b c)"
| step_commit: "i < length (threads c) \<Longrightarrow> threads c ! i = \<lparr>code = p, buf = b\<rparr> \<Longrightarrow>
    (e, b') \<in> set (commits M b) \<Longrightarrow>
    step M c ((put i p b' c)\<lparr>mem := apply_entry e (mem c)\<rparr>)"

section \<open>The step function\<close>

text \<open>
  \<open>Run i\<close> executes the next operation of thread \<open>i\<close> (the left branch of a \<open>Choose\<close>), \<open>Alt i\<close>
  takes the right branch, and \<open>Commit i n\<close> lets the \<open>n\<close>-th permitted entry leave its buffer.
\<close>

datatype act = Run nat | Alt nat | Commit nat nat

definition run_thread :: "memory_model \<Rightarrow> nat \<Rightarrow> ('l, 'v) config \<Rightarrow> ('l, 'v) config option" where
  "run_thread M i c = (let b = buf (threads c ! i) in
     case code (threads c ! i) of
       Return n \<Rightarrow> None
     | Abort \<Rightarrow> None
     | Blocked \<Rightarrow> None
     | Load mo l k \<Rightarrow> Some (put i (k (view (mem c) b l)) b c)
     | Store mo l v p \<Rightarrow>
         if write_through M mo
         then if M = SC \<or> b = [] then Some ((put i p b c)\<lparr>mem := (mem c)(l := v)\<rparr>) else None
         else Some (put i p (b @ barrier M mo @ [Pending mo l v]) c)
     | Rmw mo l f k \<Rightarrow>
         if rmw_ready M mo l b
         then Some ((put i (k (mem c l)) b c)\<lparr>mem := (mem c)(l := f (mem c l))\<rparr>) else None
     | Fence mo p \<Rightarrow>
         if mo = memory_order_seq_cst then if b = [] then Some (put i p [] c) else None
         else Some (put i p (b @ barrier M mo) c)
     | Choose p q \<Rightarrow> Some (put i p b c)
     | Create p k \<Rightarrow>
         if b = []
         then Some (c\<lparr>threads := (threads c)[i := new_thread (k (length (threads c)))] @ [new_thread p]\<rparr>)
         else None
     | Join j p \<Rightarrow>
         if j < length (threads c) \<and> finished (threads c ! j) then Some (put i p b c) else None)"

definition alt_thread :: "nat \<Rightarrow> ('l, 'v) config \<Rightarrow> ('l, 'v) config option" where
  "alt_thread i c =
     (case code (threads c ! i) of
        Choose p q \<Rightarrow> Some (put i q (buf (threads c ! i)) c)
      | _ \<Rightarrow> None)"

definition commit_thread :: "memory_model \<Rightarrow> nat \<Rightarrow> nat \<Rightarrow> ('l, 'v) config \<Rightarrow> ('l, 'v) config option" where
  "commit_thread M i n c =
     (let es = commits M (buf (threads c ! i)) in
      if n < length es
      then (case es ! n of (e, b') \<Rightarrow>
        Some ((put i (code (threads c ! i)) b' c)\<lparr>mem := apply_entry e (mem c)\<rparr>))
      else None)"

fun perform :: "memory_model \<Rightarrow> act \<Rightarrow> ('l, 'v) config \<Rightarrow> ('l, 'v) config option" where
  "perform M (Run i) c = (if i < length (threads c) then run_thread M i c else None)"
| "perform M (Alt i) c = (if i < length (threads c) then alt_thread i c else None)"
| "perform M (Commit i n) c = (if i < length (threads c) then commit_thread M i n c else None)"

text \<open>All actions a configuration might take, and what they lead to.\<close>

definition actions :: "memory_model \<Rightarrow> ('l, 'v) config \<Rightarrow> act list" where
  "actions M c = concat (map (\<lambda>i. Run i # Alt i #
     map (Commit i) [0..<length (commits M (buf (threads c ! i)))]) [0..<length (threads c)])"

definition succs :: "memory_model \<Rightarrow> ('l, 'v) config \<Rightarrow> ('l, 'v) config list" where
  "succs M c = List.map_filter (\<lambda>a. perform M a c) (actions M c)"

text \<open>A schedule is a list of actions; replaying it is deterministic.\<close>

fun replay :: "memory_model \<Rightarrow> act list \<Rightarrow> ('l, 'v) config \<Rightarrow> ('l, 'v) config option" where
  "replay M [] c = Some c"
| "replay M (a # as) c = (case perform M a c of None \<Rightarrow> None | Some c' \<Rightarrow> replay M as c')"

section \<open>The relation and the function agree\<close>

lemma thread_eta: "t = \<lparr>code = code t, buf = buf t\<rparr>"
  by simp

lemma run_thread_step:
  assumes "i < length (threads c)" and "run_thread M i c = Some c'"
  shows "step M c c'"
proof -
  obtain p b where t: "threads c ! i = \<lparr>code = p, buf = b\<rparr>" by (metis thread_eta)
  show ?thesis
  proof (cases p)
    case (Load mo l k)
    then show ?thesis using assms t step_load [of i c mo l k b M] by (simp add: run_thread_def)
  next
    case (Store mo l v q)
    then show ?thesis
      using assms t step_write [of i c mo l v q b M] step_enqueue [of i c mo l v q b M]
      by (auto simp: run_thread_def split: if_splits)
  next
    case (Rmw mo l f k)
    then show ?thesis using assms t step_rmw [of i c mo l f k b M]
      by (simp add: run_thread_def split: if_splits)
  next
    case (Fence mo q)
    then show ?thesis
      using assms t step_full_fence [of i c q M] step_fence [of i c mo q b M]
      by (auto simp: run_thread_def split: if_splits)
  next
    case (Choose q r)
    then show ?thesis using assms t step_left [of i c q r b M] by (simp add: run_thread_def)
  next
    case (Create q k)
    then show ?thesis using assms t step_create [of i c q k M]
      by (simp add: run_thread_def split: if_splits)
  next
    case (Join j q)
    then show ?thesis using assms t step_join [of i c j q b M]
      by (simp add: run_thread_def split: if_splits)
  qed (use assms t in \<open>simp_all add: run_thread_def\<close>)
qed

lemma perform_step: "perform M a c = Some c' \<Longrightarrow> step M c c'"
proof (cases a)
  case (Run i)
  then show "perform M a c = Some c' \<Longrightarrow> step M c c'" by (auto split: if_splits intro: run_thread_step)
next
  case (Alt i)
  obtain p b where "threads c ! i = \<lparr>code = p, buf = b\<rparr>" by (metis thread_eta)
  then show "perform M a c = Some c' \<Longrightarrow> step M c c'"
    using Alt by (auto simp: alt_thread_def split: if_splits prog.splits intro: step_right)
next
  case (Commit i n)
  obtain p b where "threads c ! i = \<lparr>code = p, buf = b\<rparr>" by (metis thread_eta)
  then show "perform M a c = Some c' \<Longrightarrow> step M c c'"
    using Commit by (auto simp: commit_thread_def Let_def split: if_splits prod.splits
      intro!: step_commit dest: nth_mem)
qed

lemma step_perform: "step M c c' \<Longrightarrow> \<exists>a. perform M a c = Some c'"
proof (induction rule: step.induct)
  case (step_right i c p q b)
  then show ?case by (intro exI [of _ "Alt i"]) (simp add: alt_thread_def)
next
  case (step_commit i c p b e b')
  from step_commit(3) obtain n where "n < length (commits M b)" "commits M b ! n = (e, b')"
    by (auto simp: in_set_conv_nth)
  with step_commit(1,2) show ?case by (intro exI [of _ "Commit i n"]) (simp add: commit_thread_def)
qed (rule_tac x = "Run i" in exI, simp add: run_thread_def)+

theorem step_iff_perform: "step M c c' \<longleftrightarrow> (\<exists>a. perform M a c = Some c')"
  using perform_step step_perform by blast

lemma perform_actions: "perform M a c = Some c' \<Longrightarrow> a \<in> set (actions M c)"
  by (cases a) (fastforce simp: actions_def commit_thread_def Let_def split: if_splits)+

theorem step_iff_succs: "step M c c' \<longleftrightarrow> c' \<in> set (succs M c)"
  proof -
  have "c' \<in> set (succs M c) \<longleftrightarrow> (\<exists>a\<in>set (actions M c). perform M a c = Some c')"
    by (force simp: succs_def List.map_filter_def)
  then show ?thesis by (auto simp: step_iff_perform dest: perform_actions)
qed

interpretation machine: finitely_branching "step M" "succs M" for M
  by unfold_locales (rule step_iff_succs)

lemma replay_reach: "replay M as c = Some c' \<Longrightarrow> (step M)\<^sup>*\<^sup>* c c'"
proof (induction "as" arbitrary: c)
  case (Cons a "as")
  then obtain c1 where "perform M a c = Some c1" "replay M as c1 = Some c'"
    by (auto split: option.splits)
  with Cons.IH show ?case by (meson converse_rtranclp_into_rtranclp perform_step)
qed simp

section \<open>Verdicts on a program\<close>

text \<open>No reachable configuration has a failed assertion.\<close>

definition safe :: "memory_model \<Rightarrow> ('l \<Rightarrow> 'v) \<Rightarrow> ('l, 'v) prog \<Rightarrow> bool" where
  "safe M m p \<longleftrightarrow> always (step M) (boot m p) (\<lambda>c. \<not> failed c)"

text \<open>
  Every execution stops within \<open>n\<close> steps, no assertion fails on the way, and in the last
  configuration every thread has returned with its buffer drained: nothing is stuck.
\<close>

definition completes :: "memory_model \<Rightarrow> nat \<Rightarrow> ('l \<Rightarrow> 'v) \<Rightarrow> ('l, 'v) prog \<Rightarrow> bool" where
  "completes M n m p \<longleftrightarrow>
     (\<forall>k c. (step M ^^ k) (boot m p) c \<longrightarrow> k < n) \<and>
     always (step M) (boot m p) (\<lambda>c. \<not> failed c \<and> ((\<exists>c'. step M c c') \<or> all_finished c))"

text \<open>The exploration that decides \<open>completes\<close>.\<close>

definition check :: "memory_model \<Rightarrow> nat \<Rightarrow> ('l \<Rightarrow> 'v) \<Rightarrow> ('l, 'v) prog \<Rightarrow> bool" where
  "check M n m p = explore (succs M) (\<lambda>c. \<not> failed c) all_finished n (boot m p)"

theorem check_iff_completes: "check M n m p \<longleftrightarrow> completes M n m p"
proof
  assume "check M n m p"
  then show "completes M n m p"
    using machine.explore_always machine.explore_terminates
    by (fastforce simp: check_def completes_def)
next
  assume "completes M n m p"
  then show "check M n m p"
    unfolding check_def completes_def by (intro machine.explore_complete) auto
qed

lemma completes_safe: "completes M n m p \<Longrightarrow> safe M m p"
  by (auto simp: completes_def safe_def elim: always_mono)

lemma check_safe: "check M n m p \<Longrightarrow> safe M m p"
  by (simp add: check_iff_completes completes_safe)

text \<open>A schedule that ends in a failed assertion refutes safety.\<close>

definition fails_by :: "memory_model \<Rightarrow> act list \<Rightarrow> ('l \<Rightarrow> 'v) \<Rightarrow> ('l, 'v) prog \<Rightarrow> bool" where
  "fails_by M as m p = (case replay M as (boot m p) of None \<Rightarrow> False | Some c \<Rightarrow> failed c)"

lemma fails_by_unsafe: "fails_by M as m p \<Longrightarrow> \<not> safe M m p"
  by (auto simp: fails_by_def safe_def always_def dest: replay_reach split: option.splits)

end
