(* ===== verification/Memory_Models.thy ===== *)
theory Memory_Models
  imports Machine
begin

text \<open>
  The three memory models compared: what a stronger model does, a weaker one can do as well.
  So a program that is safe on a weaker model is safe on every stronger one, and a bug found
  on a stronger model is a bug on every weaker one. Both comparisons are simulations.
\<close>

section \<open>Configurations with drained buffers\<close>

definition buffers_empty :: "('l, 'v) config \<Rightarrow> bool" where
  "buffers_empty c \<longleftrightarrow> (\<forall>i<length (threads c). buf (threads c ! i) = [])"

lemma buffers_empty_boot [simp]: "buffers_empty (boot m p)"
  by (simp add: buffers_empty_def boot_def new_thread_def)

lemma threads_put [simp]: "threads (put i p b c) = (threads c)[i := \<lparr>code = p, buf = b\<rparr>]"
  by (simp add: put_def)

lemma mem_put [simp]: "mem (put i p b c) = mem c"
  by (simp add: put_def)

lemma put_put [simp]: "put i p b (put i q b' c) = put i p b c"
  by (simp add: put_def)

lemma put_mem [simp]: "put i p b (c\<lparr>mem := m\<rparr>) = (put i p b c)\<lparr>mem := m\<rparr>"
  by (simp add: put_def)

lemma buffers_empty_put: "buffers_empty c \<Longrightarrow> buffers_empty (put i p [] c)"
  by (auto simp: buffers_empty_def nth_list_update_within)

lemma buffers_empty_mem [simp]: "buffers_empty (c\<lparr>mem := m\<rparr>) \<longleftrightarrow> buffers_empty c"
  by (simp add: buffers_empty_def)

lemma buffers_empty_nth:
  "buffers_empty c \<Longrightarrow> i < length (threads c) \<Longrightarrow> threads c ! i = \<lparr>code = p, buf = b\<rparr> \<Longrightarrow> b = []"
  by (auto simp: buffers_empty_def)

lemma buffers_empty_create:
  "buffers_empty c \<Longrightarrow> buffers_empty (c\<lparr>threads := (threads c)[i := new_thread p] @ [new_thread q]\<rparr>)"
  by (auto simp: buffers_empty_def new_thread_def nth_append_last nth_list_update_within less_Suc_eq)

section \<open>TSO steps are PSO steps\<close>

lemma step_tso_pso: "step TSO c c' \<Longrightarrow> step PSO c c'"
proof (induction rule: step.induct)
  case (step_write i c mo l v p b)
  then show ?case by (intro step.step_write) (auto simp: write_through_def)
next
  case (step_enqueue i c mo l v p b)
  then have "step PSO c (put i p (b @ barrier PSO mo @ [Pending mo l v]) c)"
    by (intro step.step_enqueue) (auto simp: write_through_def)
  then show ?case by (simp add: barrier_def)
next
  case (step_rmw i c mo l f k b)
  then show ?case by (intro step.step_rmw) (auto simp: rmw_ready_def)
next
  case (step_fence i c mo p b)
  then have "step PSO c (put i p (b @ barrier PSO mo) c)" by (intro step.step_fence)
  then show ?case by (simp add: barrier_def)
next
  case (step_commit i c p b e b')
  then have "(e, b') \<in> set (commits PSO b)" using tso_commits_pso [of b] by (auto simp: commits_def)
  with step_commit(1,2) show ?case by (rule step.step_commit)
qed (auto intro: step.intros)

interpretation tso_pso: simulation "step TSO" "step PSO" "(=)"
  by unfold_locales (auto intro: step_tso_pso)

section \<open>SC steps are TSO runs\<close>

lemma tso_drain_barrier:
  assumes "i < length (threads c)" and "threads c ! i = \<lparr>code = p, buf = barrier TSO mo @ b\<rparr>"
  shows "(step TSO)\<^sup>*\<^sup>* c (put i p b c)"
proof (cases "releases mo")
  case True
  with assms have "threads c ! i = \<lparr>code = p, buf = Barrier # b\<rparr>" by (simp add: barrier_def)
  from step_commit [OF assms(1) this, of Barrier b TSO] show ?thesis
    by (simp add: commits_def put_def r_into_rtranclp)
next
  case False
  with assms(2) have "(threads c)[i := \<lparr>code = p, buf = b\<rparr>] = threads c"
    using list_update_id [of "threads c" i] by (simp add: barrier_def)
  then have "c = put i p b c" by (simp add: put_def)
  then show ?thesis by (metis rtranclp.rtrancl_refl)
qed

lemma tso_drain_store:
  assumes "i < length (threads c)" and "threads c ! i = \<lparr>code = p, buf = [Pending mo l v]\<rparr>"
  shows "step TSO c ((put i p [] c)\<lparr>mem := (mem c)(l := v)\<rparr>)"
  using step_commit [OF assms, of "Pending mo l v" "[]" TSO] by (simp add: commits_def)

lemma step_sc_tso:
  assumes "step SC c c'" and "buffers_empty c"
  shows "(step TSO)\<^sup>*\<^sup>* c c' \<and> buffers_empty c'"
  using assms
proof (induction rule: step.induct)
  case (step_write i c mo l v p b)
  then have b: "b = []" by (auto dest: buffers_empty_nth)
  note t = step_write(2) [unfolded b]
  let ?c1 = "put i p (barrier TSO mo @ [Pending mo l v]) c"
  have "(step TSO)\<^sup>*\<^sup>* c ((put i p [] c)\<lparr>mem := (mem c)(l := v)\<rparr>)"
  proof (cases "mo = memory_order_seq_cst")
    case True
    have "step TSO c ((put i p [] c)\<lparr>mem := (mem c)(l := v)\<rparr>)"
      by (rule step.step_write [OF step_write(1) t]) (simp_all add: write_through_def True)
    then show ?thesis by blast
  next
    case False
    then have "step TSO c ?c1"
      using step_enqueue [OF step_write(1) t, of TSO] by (simp add: write_through_def)
    also have "(step TSO)\<^sup>*\<^sup>* ?c1 (put i p [Pending mo l v] c)"
      using tso_drain_barrier [of i ?c1 p mo "[Pending mo l v]"] step_write(1) by simp
    also have "step TSO (put i p [Pending mo l v] c) ((put i p [] c)\<lparr>mem := (mem c)(l := v)\<rparr>)"
      using tso_drain_store [of i "put i p [Pending mo l v] c" p mo l v] step_write(1) by simp
    finally show ?thesis .
  qed
  then show ?case using step_write.prems by (simp add: b buffers_empty_put)
next
  case (step_rmw i c mo l f k b)
  then have b: "b = []" by (auto dest: buffers_empty_nth)
  with step_rmw(1,2) have "step TSO c ((put i (k (mem c l)) b c)\<lparr>mem := (mem c)(l := f (mem c l))\<rparr>)"
    by (intro step.step_rmw) (auto simp: rmw_ready_def)
  then show ?case using step_rmw.prems by (simp add: b buffers_empty_put r_into_rtranclp)
next
  case (step_fence i c mo p b)
  then have b: "b = []" by (auto dest: buffers_empty_nth)
  let ?c1 = "put i p (barrier TSO mo) c"
  have "step TSO c ?c1" using step.step_fence [OF step_fence(1,2,3), of TSO] by (simp add: b)
  also have "(step TSO)\<^sup>*\<^sup>* ?c1 (put i p [] c)"
    using tso_drain_barrier [of i ?c1 p mo "[]"] step_fence(1) by simp
  finally show ?case using step_fence.prems by (simp add: b barrier_def buffers_empty_put)
next
  case (step_commit i c p b e b')
  then show ?case by (simp add: commits_def)
next
  case (step_load i c mo l k b)
  from step.step_load [OF this(1,2), of TSO] show ?case
    using buffers_empty_nth [OF step_load(3,1,2)] step_load(3)
    by (simp add: buffers_empty_put r_into_rtranclp)
next
  case (step_full_fence i c p)
  from step.step_full_fence [OF this(1,2), of TSO] show ?case
    using step_full_fence(3) by (simp add: buffers_empty_put r_into_rtranclp)
next
  case (step_left i c p q b)
  from step.step_left [OF this(1,2), of TSO] show ?case
    using buffers_empty_nth [OF step_left(3,1,2)] step_left(3)
    by (simp add: buffers_empty_put r_into_rtranclp)
next
  case (step_right i c p q b)
  from step.step_right [OF this(1,2), of TSO] show ?case
    using buffers_empty_nth [OF step_right(3,1,2)] step_right(3)
    by (simp add: buffers_empty_put r_into_rtranclp)
next
  case (step_create i c p k)
  from step.step_create [OF this(1,2), of TSO] show ?case
    using step_create(3) by (simp add: buffers_empty_create r_into_rtranclp)
next
  case (step_join i c j p b)
  from step.step_join [OF this(1,2,3,4), of TSO] show ?case
    using buffers_empty_nth [OF step_join(5,1,2)] step_join(5)
    by (simp add: buffers_empty_put r_into_rtranclp)
qed (simp add: write_through_def)

interpretation sc_tso: simulation "step SC" "step TSO" "\<lambda>c a. a = c \<and> buffers_empty c"
  using step_sc_tso by unfold_locales blast

section \<open>Safety is inherited by stronger models\<close>

lemma safe_tso_sc: "safe TSO m p \<Longrightarrow> safe SC m p"
  unfolding safe_def by (rule sc_tso.always_transfer) auto

lemma safe_pso_tso: "safe PSO m p \<Longrightarrow> safe TSO m p"
  unfolding safe_def by (rule tso_pso.always_transfer) auto

theorem safe_antimono: "M \<le> N \<Longrightarrow> safe N m p \<Longrightarrow> safe M m p"
  by (cases M; cases N) (auto simp: less_eq_memory_model_def dest: safe_tso_sc safe_pso_tso)

end
