(* ===== verification/Litmus.thy ===== *)
theory Litmus
  imports Memory_Models
begin

text \<open>
  The access patterns that most samples reduce to, verified once for all values, objects and
  initial memories: publication of data by a flag (message passing) and its fenced and
  release variants, and store buffering. The results are obtained by exploring the machine
  symbolically; a sample is then an instance of a locale.
\<close>

section \<open>Symbolic evaluation of the machine\<close>

lemma explore_numeral [machine_simps]:
  "explore s ok fin (numeral n) c \<longleftrightarrow>
     ok c \<and> (case s c of [] \<Rightarrow> fin c | cs \<Rightarrow> list_all (explore s ok fin (pred_numeral n)) cs)"
  by (simp add: numeral_eq_Suc)

lemma write_through_plain: "\<not> releases mo \<Longrightarrow> write_through M mo \<longleftrightarrow> M = SC"
  by (auto simp: write_through_def)

lemma barrier_plain: "\<not> releases mo \<Longrightarrow> barrier M mo = []"
  by (simp add: barrier_def)

lemma barrier_release: "releases mo \<Longrightarrow> M \<noteq> SC \<Longrightarrow> barrier M mo = [Barrier]"
  by (simp add: barrier_def)

lemma fence_order_simps:
  "\<not> write_through TSO memory_order_release" "\<not> write_through PSO memory_order_release"
  by (simp_all add: write_through_def)

declare check_def [machine_simps] boot_def [machine_simps] new_thread_def [machine_simps]
  run_two_def [machine_simps] succs_def [machine_simps] actions_def [machine_simps]
  run_thread_def [machine_simps] alt_thread_def [machine_simps] commit_thread_def [machine_simps]
  commits_def [machine_simps] put_def [machine_simps] rmw_ready_def [machine_simps]
  failed_def [machine_simps] all_finished_def [machine_simps] finished_def [machine_simps]
  upt_rec [machine_simps] write_through_plain [machine_simps] barrier_plain [machine_simps]
  barrier_release [machine_simps] fence_order_simps [machine_simps] fails_by_def [machine_simps]
  Let_def [machine_simps]

text \<open>An assertion written the other way round: used to bring a sample into a pattern's form.\<close>

lemma if_neg: "(if \<not> P then a else b) = (if P then b else a)"
  by simp

text \<open>Verdicts on the three models follow from two of them.\<close>

lemma tso_verdict: "safe TSO m p \<Longrightarrow> \<not> safe PSO m p \<Longrightarrow> safe M m p \<longleftrightarrow> M \<le> TSO"
  using safe_antimono [of SC TSO m p] by (cases M) auto

lemma sc_verdict: "safe SC m p \<Longrightarrow> \<not> safe TSO m p \<Longrightarrow> safe M m p \<longleftrightarrow> M = SC"
  using safe_antimono [of TSO PSO m p] by (cases M) auto

lemma pso_verdict: "safe PSO m p \<Longrightarrow> safe M m p"
  using safe_antimono [of M PSO m p] by simp

lemma logic_verdict: "\<not> safe SC m p \<Longrightarrow> \<not> safe M m p"
  using safe_antimono [of SC M m p] by auto

section \<open>Message passing\<close>

text \<open>
  The writer stores the data and then the flag; the reader loads the flag, goes on if \<open>R\<close>
  holds of it, loads the data, and fails its assertion if \<open>B\<close> holds of the data. Some samples
  load both objects before they test either.
\<close>

definition publish :: "memory_order \<Rightarrow> memory_order \<Rightarrow> 'l \<Rightarrow> 'v \<Rightarrow> 'l \<Rightarrow> 'v \<Rightarrow> ('l, 'v) prog" where
  "publish mo mo' d vd f vf = Store mo d vd (Store mo' f vf return_NULL)"

definition publish_fenced ::
  "memory_order \<Rightarrow> memory_order \<Rightarrow> 'l \<Rightarrow> 'v \<Rightarrow> 'l \<Rightarrow> 'v \<Rightarrow> ('l, 'v) prog" where
  "publish_fenced mo mo' d vd f vf = Store mo d vd (sync_synchronize (Store mo' f vf return_NULL))"

definition consume ::
  "memory_order \<Rightarrow> memory_order \<Rightarrow> 'l \<Rightarrow> ('v \<Rightarrow> bool) \<Rightarrow> 'l \<Rightarrow> ('v \<Rightarrow> bool) \<Rightarrow> ('l, 'v) prog" where
  "consume mo mo' f R d B =
     Load mo f (\<lambda>x. if R x then Load mo' d (\<lambda>y. if B y then Abort else return_NULL) else return_NULL)"

definition consume_both ::
  "memory_order \<Rightarrow> memory_order \<Rightarrow> 'l \<Rightarrow> ('v \<Rightarrow> bool) \<Rightarrow> 'l \<Rightarrow> ('v \<Rightarrow> bool) \<Rightarrow> ('l, 'v) prog" where
  "consume_both mo mo' f R d B =
     Load mo f (\<lambda>x. Load mo' d (\<lambda>y. if R x then (if B y then Abort else return_NULL) else return_NULL))"

declare publish_def [machine_simps] publish_fenced_def [machine_simps] consume_def [machine_simps]
  consume_both_def [machine_simps] run_detached_def [machine_simps]

locale message_passing =
  fixes m :: "'l \<Rightarrow> 'v" and d f :: 'l and vd vf :: 'v and R B :: "'v \<Rightarrow> bool"
  assumes distinct: "d \<noteq> f"
    and unpublished: "\<not> R (m f)" and published: "R vf"
    and fresh_ok: "\<not> B vd" and stale_bad: "B (m d)"
begin

lemmas pattern_simps =
  machine_simps distinct distinct [symmetric] unpublished published fresh_ok stale_bad

text \<open>The order of two stores is kept by TSO, whatever their memory orders.\<close>

lemma publish_completes_tso:
  assumes "\<not> releases mo1" "\<not> releases mo2"
  shows "completes TSO 20 m (run_two (publish mo1 mo2 d vd f vf) (consume mo3 mo4 f R d B) return_NULL)"
  unfolding check_iff_completes [symmetric] by (simp add: pattern_simps assms)

lemma publish_both_completes_tso:
  assumes "\<not> releases mo1" "\<not> releases mo2"
  shows "completes TSO 20 m
    (run_two (publish mo1 mo2 d vd f vf) (consume_both mo3 mo4 f R d B) return_NULL)"
  unfolding check_iff_completes [symmetric] by (simp add: pattern_simps assms)

lemma publish_detached_completes_tso:
  assumes "\<not> releases mo1" "\<not> releases mo2"
  shows "completes TSO 20 m (run_detached (publish mo1 mo2 d vd f vf) (consume mo3 mo4 f R d B))"
  unfolding check_iff_completes [symmetric] by (simp add: pattern_simps assms)

text \<open>On PSO a release store of the flag is enough, and so is a full fence before it.\<close>

lemma publish_release_completes_pso:
  assumes "\<not> releases mo1"
  shows "completes PSO 20 m
    (run_two (publish mo1 memory_order_release d vd f vf) (consume mo3 mo4 f R d B) return_NULL)"
  unfolding check_iff_completes [symmetric] by (simp add: pattern_simps assms)

lemma publish_fenced_completes_pso:
  assumes "\<not> releases mo1" "\<not> releases mo2"
  shows "completes PSO 20 m
    (run_two (publish_fenced mo1 mo2 d vd f vf) (consume mo3 mo4 f R d B) return_NULL)"
  unfolding check_iff_completes [symmetric] by (simp add: pattern_simps assms)

lemma publish_fenced_both_completes_pso:
  assumes "\<not> releases mo1" "\<not> releases mo2"
  shows "completes PSO 20 m
    (run_two (publish_fenced mo1 mo2 d vd f vf) (consume_both mo3 mo4 f R d B) return_NULL)"
  unfolding check_iff_completes [symmetric] by (simp add: pattern_simps assms)

lemma publish_fenced_detached_completes_pso:
  assumes "\<not> releases mo1" "\<not> releases mo2"
  shows "completes PSO 20 m
    (run_detached (publish_fenced mo1 mo2 d vd f vf) (consume mo3 mo4 f R d B))"
  unfolding check_iff_completes [symmetric] by (simp add: pattern_simps assms)

text \<open>Without either, the flag overtakes the data in the writer's buffer.\<close>

lemma publish_unsafe_pso:
  assumes "\<not> releases mo1" "\<not> releases mo2"
  shows "\<not> safe PSO m (run_two (publish mo1 mo2 d vd f vf) (consume mo3 mo4 f R d B) return_NULL)"
  by (rule fails_by_unsafe [of _ "[Run 0, Run 0, Run 1, Run 1, Commit 1 1, Run 2, Run 2]"])
    (simp add: pattern_simps assms)

lemma publish_both_unsafe_pso:
  assumes "\<not> releases mo1" "\<not> releases mo2"
  shows "\<not> safe PSO m (run_two (publish mo1 mo2 d vd f vf) (consume_both mo3 mo4 f R d B) return_NULL)"
  by (rule fails_by_unsafe [of _ "[Run 0, Run 0, Run 1, Run 1, Commit 1 1, Run 2, Run 2]"])
    (simp add: pattern_simps assms)

lemma publish_detached_unsafe_pso:
  assumes "\<not> releases mo1" "\<not> releases mo2"
  shows "\<not> safe PSO m (run_detached (publish mo1 mo2 d vd f vf) (consume mo3 mo4 f R d B))"
  by (rule fails_by_unsafe [of _ "[Run 0, Run 0, Run 1, Run 1, Commit 1 1, Run 2, Run 2]"])
    (simp add: pattern_simps assms)

text \<open>So each form is correct exactly on the models that keep the order of stores.\<close>

lemma publish_verdict:
  assumes "\<not> releases mo1" "\<not> releases mo2"
  shows "safe M m (run_two (publish mo1 mo2 d vd f vf) (consume mo3 mo4 f R d B) return_NULL)
    \<longleftrightarrow> M \<le> TSO"
  by (intro tso_verdict completes_safe [OF publish_completes_tso] publish_unsafe_pso assms)

lemma publish_both_verdict:
  assumes "\<not> releases mo1" "\<not> releases mo2"
  shows "safe M m (run_two (publish mo1 mo2 d vd f vf) (consume_both mo3 mo4 f R d B) return_NULL)
    \<longleftrightarrow> M \<le> TSO"
  by (intro tso_verdict completes_safe [OF publish_both_completes_tso] publish_both_unsafe_pso assms)

lemma publish_detached_verdict:
  assumes "\<not> releases mo1" "\<not> releases mo2"
  shows "safe M m (run_detached (publish mo1 mo2 d vd f vf) (consume mo3 mo4 f R d B)) \<longleftrightarrow> M \<le> TSO"
  by (intro tso_verdict completes_safe [OF publish_detached_completes_tso] publish_detached_unsafe_pso assms)

end

section \<open>Store buffering\<close>

text \<open>
  Each thread stores its own object, loads the other's and records what it read; \<open>main\<close> fails
  its assertion if \<open>A\<close> holds of the first record and \<open>B\<close> of the second.
\<close>

definition store_then_load :: "memory_order \<Rightarrow> 'l \<Rightarrow> 'v \<Rightarrow> 'l \<Rightarrow> 'l \<Rightarrow> ('l, 'v) prog" where
  "store_then_load mo x v y r = Store mo x v (Load mo y (\<lambda>w. Store mo r w return_NULL))"

definition inspect ::
  "memory_order \<Rightarrow> 'l \<Rightarrow> ('v \<Rightarrow> bool) \<Rightarrow> 'l \<Rightarrow> ('v \<Rightarrow> bool) \<Rightarrow> ('l, 'v) prog" where
  "inspect mo r1 A r2 B =
     Load mo r1 (\<lambda>a. if A a then Load mo r2 (\<lambda>b. if B b then Abort else Return 0) else Return 0)"

declare store_then_load_def [machine_simps] inspect_def [machine_simps]

locale store_buffering =
  fixes m :: "'l \<Rightarrow> 'v" and x y r1 r2 :: 'l and vx vy :: 'v and A B :: "'v \<Rightarrow> bool"
  assumes distinct: "distinct [x, y, r1, r2]"
    and stale: "A (m y)" "B (m x)" and seen: "\<not> A vy" "\<not> B vx"
begin

lemma locs: "x \<noteq> y" "x \<noteq> r1" "x \<noteq> r2" "y \<noteq> r1" "y \<noteq> r2" "r1 \<noteq> r2"
  "y \<noteq> x" "r1 \<noteq> x" "r2 \<noteq> x" "r1 \<noteq> y" "r2 \<noteq> y" "r2 \<noteq> r1"
  using distinct by auto

text \<open>Under sequential consistency one of the two stores precedes both loads.\<close>

lemma buffering_completes_sc:
  assumes "\<not> releases mo"
  shows "completes SC 20 m
    (run_two (store_then_load mo x vx y r1) (store_then_load mo y vy x r2) (inspect mo r1 A r2 B))"
  unfolding check_iff_completes [symmetric]
  by (simp add: machine_simps assms locs stale seen)

text \<open>On TSO both stores may still be buffered when the loads are performed.\<close>

lemma buffering_unsafe_tso:
  assumes "\<not> releases mo"
  shows "\<not> safe TSO m
    (run_two (store_then_load mo x vx y r1) (store_then_load mo y vy x r2) (inspect mo r1 A r2 B))"
  by (rule fails_by_unsafe [of _
      "[Run 0, Run 0, Run 1, Run 1, Run 1, Run 2, Run 2, Run 2,
        Commit 1 0, Commit 1 0, Commit 2 0, Commit 2 0, Run 0, Run 0, Run 0, Run 0]"])
    (simp add: machine_simps assms locs stale)

lemma buffering_verdict:
  assumes "\<not> releases mo"
  shows "safe M m
    (run_two (store_then_load mo x vx y r1) (store_then_load mo y vy x r2) (inspect mo r1 A r2 B))
    \<longleftrightarrow> M = SC"
  by (intro sc_verdict completes_safe [OF buffering_completes_sc] buffering_unsafe_tso assms)

end

end
