(* ===== verification/Genmc_Publication.thy ===== *)
theory Genmc_Publication
  imports Litmus
begin

text \<open>
  The samples of \<open>GENMC&Nidhugg\<close> that publish data through a flag with relaxed
  operations: one thread stores the data and then the flag, the other reads the flag and then
  the data and asserts that the data has arrived. Every sample is shown to be an instance of
  the locale \<open>message_passing\<close>, on its own initial values, objects and test.
\<close>

section \<open>The samples\<close>

subsection \<open>\<open>Layer1/0-datarace_genmc.c\<close>\<close>

definition globals_datarace :: "loc \<Rightarrow> c_int" where [model_defs]:
  "globals_datarace = (\<lambda>_. 0)(''data'' := 0, ''flag'' := 0)"

definition writer_thread_datarace :: int_prog where [model_defs]:
  "writer_thread_datarace =
     atomic_store_explicit ''data'' 42 memory_order_relaxed (
     atomic_store_explicit ''flag'' 1 memory_order_relaxed (
     return_NULL))"

definition reader_thread_datarace :: int_prog where [model_defs]:
  "reader_thread_datarace =
     atomic_load_explicit ''flag'' memory_order_relaxed (\<lambda>v.
     if v = 1 then
       atomic_load_explicit ''data'' memory_order_relaxed (\<lambda>current_data.
       c_assert (current_data = 42) return_NULL)
     else return_NULL)"

definition main_datarace :: int_prog where [model_defs]:
  "main_datarace = run_two writer_thread_datarace reader_thread_datarace (Return 0)"

interpretation mp_datarace: message_passing globals_datarace "''data''" "''flag''" "42" "1"
    "\<lambda>x. x = 1" "\<lambda>x. x \<noteq> 42"
  by unfold_locales (simp_all add: model_defs signed_less_def)

lemma main_datarace_publishes:
  "main_datarace = run_two
     (publish memory_order_relaxed memory_order_relaxed ''data'' 42 ''flag'' 1)
     (consume memory_order_relaxed memory_order_relaxed ''flag'' (\<lambda>x. x = 1) ''data'' (\<lambda>x. x \<noteq> 42)) return_NULL"
  by (simp add: model_defs publish_def consume_def run_two_def if_neg cong: if_cong)

subsection \<open>\<open>Layer1/15-CVE-2020-25603-Xen_genmc.c\<close>\<close>

definition globals_xen25603 :: "loc \<Rightarrow> c_int" where [model_defs]:
  "globals_xen25603 = (\<lambda>_. 0)(''d_evtchn'' := 0, ''d_valid_evtchns'' := 0)"

definition thread_alloc_xen25603 :: int_prog where [model_defs]:
  "thread_alloc_xen25603 =
     atomic_store_explicit ''d_evtchn'' 1 memory_order_relaxed (
     atomic_store_explicit ''d_valid_evtchns'' 1 memory_order_relaxed (
     return_NULL))"

definition thread_verify_xen25603 :: int_prog where [model_defs]:
  "thread_verify_xen25603 =
     atomic_load_explicit ''d_valid_evtchns'' memory_order_relaxed (\<lambda>v.
     if v = 1 then
       atomic_load_explicit ''d_evtchn'' memory_order_relaxed (\<lambda>v2.
       c_assert (v2 = 1) return_NULL)
     else return_NULL)"

definition main_xen25603 :: int_prog where [model_defs]:
  "main_xen25603 = run_two thread_alloc_xen25603 thread_verify_xen25603 (Return 0)"

interpretation mp_xen25603: message_passing globals_xen25603 "''d_evtchn''" "''d_valid_evtchns''" "1" "1"
    "\<lambda>x. x = 1" "\<lambda>x. x \<noteq> 1"
  by unfold_locales (simp_all add: model_defs signed_less_def)

lemma main_xen25603_publishes:
  "main_xen25603 = run_two
     (publish memory_order_relaxed memory_order_relaxed ''d_evtchn'' 1 ''d_valid_evtchns'' 1)
     (consume memory_order_relaxed memory_order_relaxed ''d_valid_evtchns'' (\<lambda>x. x = 1) ''d_evtchn'' (\<lambda>x. x \<noteq> 1)) return_NULL"
  by (simp add: model_defs publish_def consume_def run_two_def if_neg cong: if_cong)

subsection \<open>\<open>Layer1/17-ceph_genmc.c\<close>\<close>

definition globals_ceph :: "loc \<Rightarrow> c_int" where [model_defs]:
  "globals_ceph = (\<lambda>_. 0)(''locked_by'' := 0, ''nlock'' := 0)"

definition thread_lock_ceph :: int_prog where [model_defs]:
  "thread_lock_ceph =
     atomic_store_explicit ''locked_by'' 1 memory_order_relaxed (
     atomic_store_explicit ''nlock'' 1 memory_order_relaxed (
     return_NULL))"

definition thread_check_ceph :: int_prog where [model_defs]:
  "thread_check_ceph =
     atomic_load_explicit ''nlock'' memory_order_relaxed (\<lambda>v.
     if signed_less 0 v then
       atomic_load_explicit ''locked_by'' memory_order_relaxed (\<lambda>v2.
       c_assert (v2 = 1) return_NULL)
     else return_NULL)"

definition main_ceph :: int_prog where [model_defs]:
  "main_ceph = run_two thread_lock_ceph thread_check_ceph (Return 0)"

interpretation mp_ceph: message_passing globals_ceph "''locked_by''" "''nlock''" "1" "1"
    "signed_less 0" "\<lambda>x. x \<noteq> 1"
  by unfold_locales (simp_all add: model_defs signed_less_def)

lemma main_ceph_publishes:
  "main_ceph = run_two
     (publish memory_order_relaxed memory_order_relaxed ''locked_by'' 1 ''nlock'' 1)
     (consume memory_order_relaxed memory_order_relaxed ''nlock'' (signed_less 0) ''locked_by'' (\<lambda>x. x \<noteq> 1)) return_NULL"
  by (simp add: model_defs publish_def consume_def run_two_def if_neg cong: if_cong)

subsection \<open>\<open>Layer1/19-DragonWell8Easy_genmc.c\<close>\<close>

definition globals_dragonwell :: "loc \<Rightarrow> c_int" where [model_defs]:
  "globals_dragonwell = (\<lambda>_. 0)(''table_data'' := 0, ''table_ptr'' := 0)"

definition thread_creator_dragonwell :: int_prog where [model_defs]:
  "thread_creator_dragonwell =
     atomic_store_explicit ''table_data'' 42 memory_order_relaxed (
     atomic_store_explicit ''table_ptr'' 1 memory_order_relaxed (
     return_NULL))"

definition thread_accessor_dragonwell :: int_prog where [model_defs]:
  "thread_accessor_dragonwell =
     atomic_load_explicit ''table_ptr'' memory_order_relaxed (\<lambda>v.
     if v = 1 then
       atomic_load_explicit ''table_data'' memory_order_relaxed (\<lambda>v2.
       c_assert (v2 = 42) return_NULL)
     else return_NULL)"

definition main_dragonwell :: int_prog where [model_defs]:
  "main_dragonwell = run_two thread_creator_dragonwell thread_accessor_dragonwell (Return 0)"

interpretation mp_dragonwell: message_passing globals_dragonwell "''table_data''" "''table_ptr''" "42" "1"
    "\<lambda>x. x = 1" "\<lambda>x. x \<noteq> 42"
  by unfold_locales (simp_all add: model_defs signed_less_def)

lemma main_dragonwell_publishes:
  "main_dragonwell = run_two
     (publish memory_order_relaxed memory_order_relaxed ''table_data'' 42 ''table_ptr'' 1)
     (consume memory_order_relaxed memory_order_relaxed ''table_ptr'' (\<lambda>x. x = 1) ''table_data'' (\<lambda>x. x \<noteq> 42)) return_NULL"
  by (simp add: model_defs publish_def consume_def run_two_def if_neg cong: if_cong)

subsection \<open>\<open>Layer1/20-JDK_genmc.c\<close>\<close>

definition globals_jdk :: "loc \<Rightarrow> c_int" where [model_defs]:
  "globals_jdk = (\<lambda>_. 0)(''waiter_state'' := 0, ''semaphore_val'' := 0)"

definition thread_exit_jdk :: int_prog where [model_defs]:
  "thread_exit_jdk =
     atomic_store_explicit ''semaphore_val'' 1 memory_order_relaxed (
     atomic_store_explicit ''waiter_state'' 1 memory_order_relaxed (
     return_NULL))"

definition thread_enter_jdk :: int_prog where [model_defs]:
  "thread_enter_jdk =
     atomic_load_explicit ''waiter_state'' memory_order_relaxed (\<lambda>v.
     if v = 1 then
       atomic_load_explicit ''semaphore_val'' memory_order_relaxed (\<lambda>v2.
       c_assert (v2 = 1) return_NULL)
     else return_NULL)"

definition main_jdk :: int_prog where [model_defs]:
  "main_jdk = run_two thread_exit_jdk thread_enter_jdk (Return 0)"

interpretation mp_jdk: message_passing globals_jdk "''semaphore_val''" "''waiter_state''" "1" "1"
    "\<lambda>x. x = 1" "\<lambda>x. x \<noteq> 1"
  by unfold_locales (simp_all add: model_defs signed_less_def)

lemma main_jdk_publishes:
  "main_jdk = run_two
     (publish memory_order_relaxed memory_order_relaxed ''semaphore_val'' 1 ''waiter_state'' 1)
     (consume memory_order_relaxed memory_order_relaxed ''waiter_state'' (\<lambda>x. x = 1) ''semaphore_val'' (\<lambda>x. x \<noteq> 1)) return_NULL"
  by (simp add: model_defs publish_def consume_def run_two_def if_neg cong: if_cong)

subsection \<open>\<open>Layer1/21-libfabric_genmc.c\<close>\<close>

definition globals_libfabric :: "loc \<Rightarrow> c_int" where [model_defs]:
  "globals_libfabric = (\<lambda>_. 0)(''cmd_data'' := 0, ''resp_status'' := 0)"

definition thread_progress_libfabric :: int_prog where [model_defs]:
  "thread_progress_libfabric =
     atomic_store_explicit ''cmd_data'' 99 memory_order_relaxed (
     atomic_store_explicit ''resp_status'' 1 memory_order_relaxed (
     return_NULL))"

definition thread_peer_libfabric :: int_prog where [model_defs]:
  "thread_peer_libfabric =
     atomic_load_explicit ''resp_status'' memory_order_relaxed (\<lambda>v.
     if v = 1 then
       atomic_load_explicit ''cmd_data'' memory_order_relaxed (\<lambda>v2.
       c_assert (v2 = 99) return_NULL)
     else return_NULL)"

definition main_libfabric :: int_prog where [model_defs]:
  "main_libfabric = run_two thread_progress_libfabric thread_peer_libfabric (Return 0)"

interpretation mp_libfabric: message_passing globals_libfabric "''cmd_data''" "''resp_status''" "99" "1"
    "\<lambda>x. x = 1" "\<lambda>x. x \<noteq> 99"
  by unfold_locales (simp_all add: model_defs signed_less_def)

lemma main_libfabric_publishes:
  "main_libfabric = run_two
     (publish memory_order_relaxed memory_order_relaxed ''cmd_data'' 99 ''resp_status'' 1)
     (consume memory_order_relaxed memory_order_relaxed ''resp_status'' (\<lambda>x. x = 1) ''cmd_data'' (\<lambda>x. x \<noteq> 99)) return_NULL"
  by (simp add: model_defs publish_def consume_def run_two_def if_neg cong: if_cong)

subsection \<open>\<open>Layer1/22-openmpi_genmc.c\<close>\<close>

definition globals_openmpi :: "loc \<Rightarrow> c_int" where [model_defs]:
  "globals_openmpi = (\<lambda>_. 0)(''next_ptr'' := 0, ''item_free'' := 1)"

definition thread_push_openmpi :: int_prog where [model_defs]:
  "thread_push_openmpi =
     atomic_store_explicit ''next_ptr'' 1 memory_order_relaxed (
     atomic_store_explicit ''item_free'' 0 memory_order_relaxed (
     return_NULL))"

definition thread_pop_openmpi :: int_prog where [model_defs]:
  "thread_pop_openmpi =
     atomic_load_explicit ''item_free'' memory_order_relaxed (\<lambda>v.
     if v = 0 then
       atomic_load_explicit ''next_ptr'' memory_order_relaxed (\<lambda>v2.
       c_assert (v2 = 1) return_NULL)
     else return_NULL)"

definition main_openmpi :: int_prog where [model_defs]:
  "main_openmpi = run_two thread_push_openmpi thread_pop_openmpi (Return 0)"

interpretation mp_openmpi: message_passing globals_openmpi "''next_ptr''" "''item_free''" "1" "0"
    "\<lambda>x. x = 0" "\<lambda>x. x \<noteq> 1"
  by unfold_locales (simp_all add: model_defs signed_less_def)

lemma main_openmpi_publishes:
  "main_openmpi = run_two
     (publish memory_order_relaxed memory_order_relaxed ''next_ptr'' 1 ''item_free'' 0)
     (consume memory_order_relaxed memory_order_relaxed ''item_free'' (\<lambda>x. x = 0) ''next_ptr'' (\<lambda>x. x \<noteq> 1)) return_NULL"
  by (simp add: model_defs publish_def consume_def run_two_def if_neg cong: if_cong)

subsection \<open>\<open>Layer1/23-includeos_genmc.c\<close>\<close>

definition globals_includeos :: "loc \<Rightarrow> c_int" where [model_defs]:
  "globals_includeos = (\<lambda>_. 0)(''desc_address'' := 0, ''consumed_count'' := 0)"

definition thread_refill_includeos :: int_prog where [model_defs]:
  "thread_refill_includeos =
     atomic_store_explicit ''desc_address'' 1111 memory_order_relaxed (
     atomic_store_explicit ''consumed_count'' 1 memory_order_relaxed (
     return_NULL))"

definition thread_receive_includeos :: int_prog where [model_defs]:
  "thread_receive_includeos =
     atomic_load_explicit ''consumed_count'' memory_order_relaxed (\<lambda>v.
     if v = 1 then
       atomic_load_explicit ''desc_address'' memory_order_relaxed (\<lambda>v2.
       c_assert (v2 = 1111) return_NULL)
     else return_NULL)"

definition main_includeos :: int_prog where [model_defs]:
  "main_includeos = run_two thread_refill_includeos thread_receive_includeos (Return 0)"

interpretation mp_includeos: message_passing globals_includeos "''desc_address''" "''consumed_count''" "1111" "1"
    "\<lambda>x. x = 1" "\<lambda>x. x \<noteq> 1111"
  by unfold_locales (simp_all add: model_defs signed_less_def)

lemma main_includeos_publishes:
  "main_includeos = run_two
     (publish memory_order_relaxed memory_order_relaxed ''desc_address'' 1111 ''consumed_count'' 1)
     (consume memory_order_relaxed memory_order_relaxed ''consumed_count'' (\<lambda>x. x = 1) ''desc_address'' (\<lambda>x. x \<noteq> 1111)) return_NULL"
  by (simp add: model_defs publish_def consume_def run_two_def if_neg cong: if_cong)

subsection \<open>\<open>Layer1/26-ompi_genmc.c\<close>\<close>

definition globals_ompi26 :: "loc \<Rightarrow> c_int" where [model_defs]:
  "globals_ompi26 = (\<lambda>_. 0)(''hdr_size'' := 0, ''global_hdr_ptr'' := 0)"

definition thread_writer_ompi26 :: int_prog where [model_defs]:
  "thread_writer_ompi26 =
     atomic_store_explicit ''hdr_size'' 1024 memory_order_relaxed (
     atomic_store_explicit ''global_hdr_ptr'' 1 memory_order_relaxed (
     return_NULL))"

definition thread_reader_ompi26 :: int_prog where [model_defs]:
  "thread_reader_ompi26 =
     atomic_load_explicit ''global_hdr_ptr'' memory_order_relaxed (\<lambda>v.
     if v = 1 then
       atomic_load_explicit ''hdr_size'' memory_order_relaxed (\<lambda>v2.
       c_assert (v2 = 1024) return_NULL)
     else return_NULL)"

definition main_ompi26 :: int_prog where [model_defs]:
  "main_ompi26 = run_two thread_writer_ompi26 thread_reader_ompi26 (Return 0)"

interpretation mp_ompi26: message_passing globals_ompi26 "''hdr_size''" "''global_hdr_ptr''" "1024" "1"
    "\<lambda>x. x = 1" "\<lambda>x. x \<noteq> 1024"
  by unfold_locales (simp_all add: model_defs signed_less_def)

lemma main_ompi26_publishes:
  "main_ompi26 = run_two
     (publish memory_order_relaxed memory_order_relaxed ''hdr_size'' 1024 ''global_hdr_ptr'' 1)
     (consume memory_order_relaxed memory_order_relaxed ''global_hdr_ptr'' (\<lambda>x. x = 1) ''hdr_size'' (\<lambda>x. x \<noteq> 1024)) return_NULL"
  by (simp add: model_defs publish_def consume_def run_two_def if_neg cong: if_cong)

subsection \<open>\<open>Layer1/4-MySQL_genmc.c\<close>\<close>

definition globals_mysql4 :: "loc \<Rightarrow> c_int" where [model_defs]:
  "globals_mysql4 = (\<lambda>_. 0)(''recursive'' := 0, ''writer_tid'' := 0)"

definition thread_writer_mysql4 :: int_prog where [model_defs]:
  "thread_writer_mysql4 =
     atomic_store_explicit ''writer_tid'' 1001 memory_order_relaxed (
     atomic_store_explicit ''recursive'' 1 memory_order_relaxed (
     return_NULL))"

definition thread_reader_mysql4 :: int_prog where [model_defs]:
  "thread_reader_mysql4 =
     atomic_load_explicit ''recursive'' memory_order_relaxed (\<lambda>r.
     if r = 1 then
       atomic_load_explicit ''writer_tid'' memory_order_relaxed (\<lambda>tid.
       c_assert (tid = 1001) return_NULL)
     else return_NULL)"

definition main_mysql4 :: int_prog where [model_defs]:
  "main_mysql4 = run_two thread_writer_mysql4 thread_reader_mysql4 (Return 0)"

interpretation mp_mysql4: message_passing globals_mysql4 "''writer_tid''" "''recursive''" "1001" "1"
    "\<lambda>x. x = 1" "\<lambda>x. x \<noteq> 1001"
  by unfold_locales (simp_all add: model_defs signed_less_def)

lemma main_mysql4_publishes:
  "main_mysql4 = run_two
     (publish memory_order_relaxed memory_order_relaxed ''writer_tid'' 1001 ''recursive'' 1)
     (consume memory_order_relaxed memory_order_relaxed ''recursive'' (\<lambda>x. x = 1) ''writer_tid'' (\<lambda>x. x \<noteq> 1001)) return_NULL"
  by (simp add: model_defs publish_def consume_def run_two_def if_neg cong: if_cong)

subsection \<open>\<open>Layer1/6-ompi_genmc.c\<close>\<close>

definition globals_ompi6 :: "loc \<Rightarrow> c_int" where [model_defs]:
  "globals_ompi6 = (\<lambda>_. 0)(''trk_active'' := 1, ''trk_status'' := - 1)"

definition model_registration_callback_ompi6 :: int_prog where [model_defs]:
  "model_registration_callback_ompi6 =
     atomic_store_explicit ''trk_status'' 0 memory_order_relaxed (
     atomic_store_explicit ''trk_active'' 0 memory_order_relaxed (
     return_NULL))"

definition ompi_interlib_declare_ompi6 :: int_prog where [model_defs]:
  "ompi_interlib_declare_ompi6 =
     atomic_load_explicit ''trk_active'' memory_order_relaxed (\<lambda>active.
     if active = 0 then
       atomic_load_explicit ''trk_status'' memory_order_relaxed (\<lambda>status.
       c_assert (status = 0) return_NULL)
     else return_NULL)"

definition main_ompi6 :: int_prog where [model_defs]:
  "main_ompi6 = run_two model_registration_callback_ompi6 ompi_interlib_declare_ompi6 (Return 0)"

interpretation mp_ompi6: message_passing globals_ompi6 "''trk_status''" "''trk_active''" "0" "0"
    "\<lambda>x. x = 0" "\<lambda>x. x \<noteq> 0"
  by unfold_locales (simp_all add: model_defs signed_less_def)

lemma main_ompi6_publishes:
  "main_ompi6 = run_two
     (publish memory_order_relaxed memory_order_relaxed ''trk_status'' 0 ''trk_active'' 0)
     (consume memory_order_relaxed memory_order_relaxed ''trk_active'' (\<lambda>x. x = 0) ''trk_status'' (\<lambda>x. x \<noteq> 0)) return_NULL"
  by (simp add: model_defs publish_def consume_def run_two_def if_neg cong: if_cong)

subsection \<open>\<open>Layer1/barrier_genmc.c\<close>\<close>

definition globals_barrier :: "loc \<Rightarrow> c_int" where [model_defs]:
  "globals_barrier = (\<lambda>_. 0)(''data'' := 0, ''flag'' := 0)"

definition writer_barrier :: int_prog where [model_defs]:
  "writer_barrier =
     atomic_store_explicit ''data'' 42 memory_order_relaxed (
     atomic_store_explicit ''flag'' 1 memory_order_relaxed (
     return_NULL))"

definition reader_barrier :: int_prog where [model_defs]:
  "reader_barrier =
     atomic_load_explicit ''flag'' memory_order_relaxed (\<lambda>v.
     if v = 1 then
       atomic_load_explicit ''data'' memory_order_relaxed (\<lambda>v2.
       c_assert (v2 = 42) return_NULL)
     else return_NULL)"

definition main_barrier :: int_prog where [model_defs]:
  "main_barrier = run_two writer_barrier reader_barrier (Return 0)"

interpretation mp_barrier: message_passing globals_barrier "''data''" "''flag''" "42" "1"
    "\<lambda>x. x = 1" "\<lambda>x. x \<noteq> 42"
  by unfold_locales (simp_all add: model_defs signed_less_def)

lemma main_barrier_publishes:
  "main_barrier = run_two
     (publish memory_order_relaxed memory_order_relaxed ''data'' 42 ''flag'' 1)
     (consume memory_order_relaxed memory_order_relaxed ''flag'' (\<lambda>x. x = 1) ''data'' (\<lambda>x. x \<noteq> 42)) return_NULL"
  by (simp add: model_defs publish_def consume_def run_two_def if_neg cong: if_cong)

subsection \<open>\<open>Layer1/mysql_rwlock_deadlock_genmc.c\<close>\<close>

definition globals_rwlock :: "loc \<Rightarrow> c_int" where [model_defs]:
  "globals_rwlock = (\<lambda>_. 0)(''writer_thread_id'' := 0, ''recursive_flag'' := 0)"

definition thread_writer_rwlock :: int_prog where [model_defs]:
  "thread_writer_rwlock =
     atomic_store_explicit ''writer_thread_id'' 1001 memory_order_relaxed (
     atomic_store_explicit ''recursive_flag'' 1 memory_order_relaxed (
     return_NULL))"

definition thread_reader_rwlock :: int_prog where [model_defs]:
  "thread_reader_rwlock =
     atomic_load_explicit ''recursive_flag'' memory_order_relaxed (\<lambda>v.
     if v = 1 then
       atomic_load_explicit ''writer_thread_id'' memory_order_relaxed (\<lambda>v2.
       c_assert (v2 = 1001) return_NULL)
     else return_NULL)"

definition main_rwlock :: int_prog where [model_defs]:
  "main_rwlock = run_two thread_writer_rwlock thread_reader_rwlock (Return 0)"

interpretation mp_rwlock: message_passing globals_rwlock "''writer_thread_id''" "''recursive_flag''" "1001" "1"
    "\<lambda>x. x = 1" "\<lambda>x. x \<noteq> 1001"
  by unfold_locales (simp_all add: model_defs signed_less_def)

lemma main_rwlock_publishes:
  "main_rwlock = run_two
     (publish memory_order_relaxed memory_order_relaxed ''writer_thread_id'' 1001 ''recursive_flag'' 1)
     (consume memory_order_relaxed memory_order_relaxed ''recursive_flag'' (\<lambda>x. x = 1) ''writer_thread_id'' (\<lambda>x. x \<noteq> 1001)) return_NULL"
  by (simp add: model_defs publish_def consume_def run_two_def if_neg cong: if_cong)

subsection \<open>\<open>Layer1/mysql_volatile_bug_genmc.c\<close>\<close>

definition globals_volatile :: "loc \<Rightarrow> c_int" where [model_defs]:
  "globals_volatile = (\<lambda>_. 0)(''log_data'' := 0, ''log_state'' := 0)"

definition thread_logger_volatile :: int_prog where [model_defs]:
  "thread_logger_volatile =
     atomic_store_explicit ''log_data'' 999 memory_order_relaxed (
     atomic_store_explicit ''log_state'' 1 memory_order_relaxed (
     return_NULL))"

definition thread_consumer_volatile :: int_prog where [model_defs]:
  "thread_consumer_volatile =
     atomic_load_explicit ''log_state'' memory_order_relaxed (\<lambda>v.
     if v = 1 then
       atomic_load_explicit ''log_data'' memory_order_relaxed (\<lambda>v2.
       c_assert (v2 = 999) return_NULL)
     else return_NULL)"

definition main_volatile :: int_prog where [model_defs]:
  "main_volatile = run_two thread_logger_volatile thread_consumer_volatile (Return 0)"

interpretation mp_volatile: message_passing globals_volatile "''log_data''" "''log_state''" "999" "1"
    "\<lambda>x. x = 1" "\<lambda>x. x \<noteq> 999"
  by unfold_locales (simp_all add: model_defs signed_less_def)

lemma main_volatile_publishes:
  "main_volatile = run_two
     (publish memory_order_relaxed memory_order_relaxed ''log_data'' 999 ''log_state'' 1)
     (consume memory_order_relaxed memory_order_relaxed ''log_state'' (\<lambda>x. x = 1) ''log_data'' (\<lambda>x. x \<noteq> 999)) return_NULL"
  by (simp add: model_defs publish_def consume_def run_two_def if_neg cong: if_cong)

subsection \<open>\<open>Layer1/pso_test_genmc.c\<close>\<close>

definition globals_pso :: "loc \<Rightarrow> c_int" where [model_defs]:
  "globals_pso = (\<lambda>_. 0)(''x'' := 0, ''y'' := 0)"

definition thread_writer_pso :: int_prog where [model_defs]:
  "thread_writer_pso =
     atomic_store_explicit ''x'' 1 memory_order_relaxed (
     atomic_store_explicit ''y'' 1 memory_order_relaxed (
     return_NULL))"

definition thread_reader_pso :: int_prog where [model_defs]:
  "thread_reader_pso =
     atomic_load_explicit ''y'' memory_order_relaxed (\<lambda>v.
     if v = 1 then
       atomic_load_explicit ''x'' memory_order_relaxed (\<lambda>v2.
       c_assert (v2 = 1) return_NULL)
     else return_NULL)"

definition main_pso :: int_prog where [model_defs]:
  "main_pso = run_two thread_writer_pso thread_reader_pso (Return 0)"

interpretation mp_pso: message_passing globals_pso "''x''" "''y''" "1" "1"
    "\<lambda>x. x = 1" "\<lambda>x. x \<noteq> 1"
  by unfold_locales (simp_all add: model_defs signed_less_def)

lemma main_pso_publishes:
  "main_pso = run_two
     (publish memory_order_relaxed memory_order_relaxed ''x'' 1 ''y'' 1)
     (consume memory_order_relaxed memory_order_relaxed ''y'' (\<lambda>x. x = 1) ''x'' (\<lambda>x. x \<noteq> 1)) return_NULL"
  by (simp add: model_defs publish_def consume_def run_two_def if_neg cong: if_cong)

subsection \<open>\<open>Layer2/1-rds_genmc.c\<close>\<close>

definition globals_rds :: "loc \<Rightarrow> c_int" where [model_defs]:
  "globals_rds = (\<lambda>_. 0)(''addr_ready'' := 0, ''addr_port'' := 0)"

definition thread_bind_rds :: int_prog where [model_defs]:
  "thread_bind_rds =
     atomic_store_explicit ''addr_port'' 4000 memory_order_relaxed (
     atomic_store_explicit ''addr_ready'' 1 memory_order_relaxed (
     return_NULL))"

definition thread_send_rds :: int_prog where [model_defs]:
  "thread_send_rds =
     atomic_load_explicit ''addr_ready'' memory_order_relaxed (\<lambda>ready.
     if ready \<noteq> 0 then
       atomic_load_explicit ''addr_port'' memory_order_relaxed (\<lambda>port.
       if port = 0 then
         c_assert False return_NULL
       else return_NULL)
     else return_NULL)"

definition main_rds :: int_prog where [model_defs]:
  "main_rds = run_two thread_bind_rds thread_send_rds (Return 0)"

interpretation mp_rds: message_passing globals_rds "''addr_port''" "''addr_ready''" "4000" "1"
    "\<lambda>x. x \<noteq> 0" "\<lambda>x. x = 0"
  by unfold_locales (simp_all add: model_defs signed_less_def)

lemma main_rds_publishes:
  "main_rds = run_two
     (publish memory_order_relaxed memory_order_relaxed ''addr_port'' 4000 ''addr_ready'' 1)
     (consume memory_order_relaxed memory_order_relaxed ''addr_ready'' (\<lambda>x. x \<noteq> 0) ''addr_port'' (\<lambda>x. x = 0)) return_NULL"
  by (simp add: model_defs publish_def consume_def run_two_def if_neg cong: if_cong)

subsection \<open>\<open>Layer2/1-vlan_genmc.c\<close>\<close>

definition globals_vlan :: "loc \<Rightarrow> c_int" where [model_defs]:
  "globals_vlan = (\<lambda>_. 0)(''vlan_created'' := 0, ''vlan_ready'' := 0)"

definition thread_config_vlan :: int_prog where [model_defs]:
  "thread_config_vlan =
     atomic_store_explicit ''vlan_created'' 1 memory_order_relaxed (
     atomic_store_explicit ''vlan_ready'' 1 memory_order_relaxed (
     return_NULL))"

definition thread_transmit_vlan :: int_prog where [model_defs]:
  "thread_transmit_vlan =
     atomic_load_explicit ''vlan_ready'' memory_order_relaxed (\<lambda>ready.
     if ready \<noteq> 0 then
       atomic_load_explicit ''vlan_created'' memory_order_relaxed (\<lambda>created.
       if created = 0 then
         c_assert False return_NULL
       else return_NULL)
     else return_NULL)"

definition main_vlan :: int_prog where [model_defs]:
  "main_vlan = run_two thread_config_vlan thread_transmit_vlan (Return 0)"

interpretation mp_vlan: message_passing globals_vlan "''vlan_created''" "''vlan_ready''" "1" "1"
    "\<lambda>x. x \<noteq> 0" "\<lambda>x. x = 0"
  by unfold_locales (simp_all add: model_defs signed_less_def)

lemma main_vlan_publishes:
  "main_vlan = run_two
     (publish memory_order_relaxed memory_order_relaxed ''vlan_created'' 1 ''vlan_ready'' 1)
     (consume memory_order_relaxed memory_order_relaxed ''vlan_ready'' (\<lambda>x. x \<noteq> 0) ''vlan_created'' (\<lambda>x. x = 0)) return_NULL"
  by (simp add: model_defs publish_def consume_def run_two_def if_neg cong: if_cong)

subsection \<open>\<open>Layer2/10-smc2_genmc.c\<close>\<close>

definition globals_smc2 :: "loc \<Rightarrow> c_int" where [model_defs]:
  "globals_smc2 = (\<lambda>_. 0)(''opt_value'' := 0, ''opt_ready'' := 0)"

definition thread_opt_smc2 :: int_prog where [model_defs]:
  "thread_opt_smc2 =
     atomic_store_explicit ''opt_value'' 1 memory_order_relaxed (
     atomic_store_explicit ''opt_ready'' 1 memory_order_relaxed (
     return_NULL))"

definition thread_send_smc2 :: int_prog where [model_defs]:
  "thread_send_smc2 =
     atomic_load_explicit ''opt_ready'' memory_order_relaxed (\<lambda>ready.
     if ready \<noteq> 0 then
       atomic_load_explicit ''opt_value'' memory_order_relaxed (\<lambda>val.
       if val = 0 then
         c_assert False return_NULL
       else return_NULL)
     else return_NULL)"

definition main_smc2 :: int_prog where [model_defs]:
  "main_smc2 = run_two thread_opt_smc2 thread_send_smc2 (Return 0)"

interpretation mp_smc2: message_passing globals_smc2 "''opt_value''" "''opt_ready''" "1" "1"
    "\<lambda>x. x \<noteq> 0" "\<lambda>x. x = 0"
  by unfold_locales (simp_all add: model_defs signed_less_def)

lemma main_smc2_publishes:
  "main_smc2 = run_two
     (publish memory_order_relaxed memory_order_relaxed ''opt_value'' 1 ''opt_ready'' 1)
     (consume memory_order_relaxed memory_order_relaxed ''opt_ready'' (\<lambda>x. x \<noteq> 0) ''opt_value'' (\<lambda>x. x = 0)) return_NULL"
  by (simp add: model_defs publish_def consume_def run_two_def if_neg cong: if_cong)

subsection \<open>\<open>Layer2/2-watchqueue_genmc.c\<close>\<close>

definition globals_watchqueue2 :: "loc \<Rightarrow> c_int" where [model_defs]:
  "globals_watchqueue2 = (\<lambda>_. 0)(''size_set'' := 0, ''queue_size'' := 0)"

definition thread_ioctl_watchqueue2 :: int_prog where [model_defs]:
  "thread_ioctl_watchqueue2 =
     atomic_store_explicit ''queue_size'' 16 memory_order_relaxed (
     atomic_store_explicit ''size_set'' 1 memory_order_relaxed (
     return_NULL))"

definition thread_read_watchqueue2 :: int_prog where [model_defs]:
  "thread_read_watchqueue2 =
     atomic_load_explicit ''size_set'' memory_order_relaxed (\<lambda>set.
     if set \<noteq> 0 then
       atomic_load_explicit ''queue_size'' memory_order_relaxed (\<lambda>sz.
       if sz = 0 then
         c_assert False return_NULL
       else return_NULL)
     else return_NULL)"

definition main_watchqueue2 :: int_prog where [model_defs]:
  "main_watchqueue2 = run_two thread_ioctl_watchqueue2 thread_read_watchqueue2 (Return 0)"

interpretation mp_watchqueue2: message_passing globals_watchqueue2 "''queue_size''" "''size_set''" "16" "1"
    "\<lambda>x. x \<noteq> 0" "\<lambda>x. x = 0"
  by unfold_locales (simp_all add: model_defs signed_less_def)

lemma main_watchqueue2_publishes:
  "main_watchqueue2 = run_two
     (publish memory_order_relaxed memory_order_relaxed ''queue_size'' 16 ''size_set'' 1)
     (consume memory_order_relaxed memory_order_relaxed ''size_set'' (\<lambda>x. x \<noteq> 0) ''queue_size'' (\<lambda>x. x = 0)) return_NULL"
  by (simp add: model_defs publish_def consume_def run_two_def if_neg cong: if_cong)

subsection \<open>\<open>Layer3/8-smc_genmc.c\<close>\<close>

text \<open>The stubs of the system calls take the code that follows the call as their last argument.\<close>

definition globals_smc :: "loc \<Rightarrow> c_int" where [model_defs]:
  "globals_smc = (\<lambda>_. 0)(''smc_mode_enabled'' := 0, ''smc_internal_state'' := 0)"

definition setsockopt_stub_smc :: "string \<Rightarrow> int_prog \<Rightarrow> int_prog" where [model_defs]:
  "setsockopt_stub_smc protocol k =
     (if protocol = ''smc'' then
        atomic_store_explicit ''smc_internal_state'' 1 memory_order_relaxed (
        atomic_store_explicit ''smc_mode_enabled'' 1 memory_order_relaxed (
        k))
      else k)"

definition sendmmsg_stub_smc :: "int_prog \<Rightarrow> int_prog" where [model_defs]:
  "sendmmsg_stub_smc k =
     atomic_load_explicit ''smc_mode_enabled'' memory_order_relaxed (\<lambda>v.
     if v = 1 then
       atomic_load_explicit ''smc_internal_state'' memory_order_relaxed (\<lambda>state.
       c_assert (state = 1) k)
     else k)"

definition thread_ulp_smc :: int_prog where [model_defs]:
  "thread_ulp_smc = setsockopt_stub_smc ''smc'' return_NULL"

definition thread_send_smc :: int_prog where [model_defs]:
  "thread_send_smc = sendmmsg_stub_smc return_NULL"

definition main_smc :: int_prog where [model_defs]:
  "main_smc = run_two thread_ulp_smc thread_send_smc (Return 0)"

interpretation mp_smc: message_passing globals_smc "''smc_internal_state''" "''smc_mode_enabled''" "1" "1"
    "\<lambda>x. x = 1" "\<lambda>x. x \<noteq> 1"
  by unfold_locales (simp_all add: model_defs signed_less_def)

lemma main_smc_publishes:
  "main_smc = run_two
     (publish memory_order_relaxed memory_order_relaxed ''smc_internal_state'' 1 ''smc_mode_enabled'' 1)
     (consume memory_order_relaxed memory_order_relaxed ''smc_mode_enabled'' (\<lambda>x. x = 1) ''smc_internal_state'' (\<lambda>x. x \<noteq> 1)) return_NULL"
  by (simp add: model_defs publish_def consume_def run_two_def if_neg cong: if_cong)

subsection \<open>\<open>Layer3/8-tls_genmc.c\<close>\<close>

definition globals_tls :: "loc \<Rightarrow> c_int" where [model_defs]:
  "globals_tls = (\<lambda>_. 0)(''data_ready'' := 0, ''data_value'' := 0)"

definition setsockopt_stub_tls :: "c_int \<Rightarrow> c_int \<Rightarrow> string \<Rightarrow> int_prog \<Rightarrow> int_prog" where [model_defs]:
  "setsockopt_stub_tls level optname val k =
     (if level = 31 then
        atomic_store_explicit ''data_value'' 1 memory_order_relaxed (
        k)
      else if level = 282 then
        atomic_store_explicit ''data_ready'' 1 memory_order_relaxed (
        k)
      else k)"

definition epoll_ctl_stub_tls :: "int_prog \<Rightarrow> int_prog" where [model_defs]:
  "epoll_ctl_stub_tls k =
     atomic_load_explicit ''data_ready'' memory_order_relaxed (\<lambda>v.
     if v = 1 then
       atomic_load_explicit ''data_value'' memory_order_relaxed (\<lambda>val.
       c_assert (val = 1) k)
     else k)"

definition thread_tls_config_tls :: int_prog where [model_defs]:
  "thread_tls_config_tls =
     setsockopt_stub_tls 31 0 ''tls'' (
     setsockopt_stub_tls 282 1 ''key'' (
     return_NULL))"

definition thread_io_tls :: int_prog where [model_defs]:
  "thread_io_tls = epoll_ctl_stub_tls return_NULL"

definition main_tls :: int_prog where [model_defs]:
  "main_tls = run_two thread_tls_config_tls thread_io_tls (Return 0)"

interpretation mp_tls: message_passing globals_tls "''data_value''" "''data_ready''" "1" "1"
    "\<lambda>x. x = 1" "\<lambda>x. x \<noteq> 1"
  by unfold_locales (simp_all add: model_defs signed_less_def)

lemma main_tls_publishes:
  "main_tls = run_two
     (publish memory_order_relaxed memory_order_relaxed ''data_value'' 1 ''data_ready'' 1)
     (consume memory_order_relaxed memory_order_relaxed ''data_ready'' (\<lambda>x. x = 1) ''data_value'' (\<lambda>x. x \<noteq> 1)) return_NULL"
  by (simp add: model_defs publish_def consume_def run_two_def if_neg cong: if_cong)

section \<open>The suite\<close>

definition publication_samples :: "((loc \<Rightarrow> c_int) \<times> int_prog) list" where
  "publication_samples = [
    (globals_datarace, main_datarace), (globals_xen25603, main_xen25603),
    (globals_ceph, main_ceph), (globals_dragonwell, main_dragonwell), (globals_jdk, main_jdk),
    (globals_libfabric, main_libfabric), (globals_openmpi, main_openmpi),
    (globals_includeos, main_includeos), (globals_ompi26, main_ompi26),
    (globals_mysql4, main_mysql4), (globals_ompi6, main_ompi6), (globals_barrier, main_barrier),
    (globals_rwlock, main_rwlock), (globals_volatile, main_volatile), (globals_pso, main_pso),
    (globals_rds, main_rds), (globals_vlan, main_vlan), (globals_smc2, main_smc2),
    (globals_watchqueue2, main_watchqueue2), (globals_smc, main_smc), (globals_tls, main_tls)]"

lemmas publication_equations =
  main_datarace_publishes main_xen25603_publishes main_ceph_publishes main_dragonwell_publishes
  main_jdk_publishes main_libfabric_publishes main_openmpi_publishes main_includeos_publishes
  main_ompi26_publishes main_mysql4_publishes main_ompi6_publishes main_barrier_publishes
  main_rwlock_publishes main_volatile_publishes main_pso_publishes main_rds_publishes
  main_vlan_publishes main_smc2_publishes main_watchqueue2_publishes main_smc_publishes
  main_tls_publishes

lemmas publication_completes =
  mp_datarace.publish_completes_tso mp_xen25603.publish_completes_tso
  mp_ceph.publish_completes_tso mp_dragonwell.publish_completes_tso mp_jdk.publish_completes_tso
  mp_libfabric.publish_completes_tso mp_openmpi.publish_completes_tso
  mp_includeos.publish_completes_tso mp_ompi26.publish_completes_tso
  mp_mysql4.publish_completes_tso mp_ompi6.publish_completes_tso mp_barrier.publish_completes_tso
  mp_rwlock.publish_completes_tso mp_volatile.publish_completes_tso mp_pso.publish_completes_tso
  mp_rds.publish_completes_tso mp_vlan.publish_completes_tso mp_smc2.publish_completes_tso
  mp_watchqueue2.publish_completes_tso mp_smc.publish_completes_tso mp_tls.publish_completes_tso

lemmas publication_verdicts =
  mp_datarace.publish_verdict mp_xen25603.publish_verdict mp_ceph.publish_verdict
  mp_dragonwell.publish_verdict mp_jdk.publish_verdict mp_libfabric.publish_verdict
  mp_openmpi.publish_verdict mp_includeos.publish_verdict mp_ompi26.publish_verdict
  mp_mysql4.publish_verdict mp_ompi6.publish_verdict mp_barrier.publish_verdict
  mp_rwlock.publish_verdict mp_volatile.publish_verdict mp_pso.publish_verdict
  mp_rds.publish_verdict mp_vlan.publish_verdict mp_smc2.publish_verdict
  mp_watchqueue2.publish_verdict mp_smc.publish_verdict mp_tls.publish_verdict

text \<open>
  C10. On an x86 (TSO) machine every publication sample runs to completion: each
  execution stops within 20 steps with all threads returned and joined, all stores in memory,
  and no assertion failed.
\<close>

theorem publication_terminates:
  "list_all (\<lambda>(m, p). completes TSO 20 m p) publication_samples"
  by (simp add: publication_samples_def publication_equations publication_completes)

text \<open>
  C8. The publication samples have a weak-memory bug and no logic bug: the assertion holds
  in every execution exactly on the machines that keep stores in order (SC and TSO); on PSO
  the flag can overtake the data and the assertion fails.
\<close>

theorem publication_bug:
  "list_all (\<lambda>(m, p). \<forall>M. safe M m p \<longleftrightarrow> M \<le> TSO) publication_samples"
  by (simp add: publication_samples_def publication_equations publication_verdicts)

end
