(* ===== verification/Genmc_Store_Buffering.thy ===== *)
theory Genmc_Store_Buffering
  imports Litmus
begin

text \<open>
  The samples of \<open>GENMC&Nidhugg\<close> in which each thread stores one object and then loads the
  other's: both loads may return the old values, which \<open>main\<close> asserts against. Each is an
  instance of the locale \<open>store_buffering\<close>.
\<close>

section \<open>The samples\<close>

subsection \<open>\<open>Layer1/25-JDK-8179954_genmc.c\<close>\<close>

definition globals_jdk8179954 :: "loc \<Rightarrow> c_int" where [model_defs]:
  "globals_jdk8179954 = (\<lambda>_. 0)(''x'' := 0, ''y'' := 0, ''r1'' := 0, ''r2'' := 0)"

definition thread1_jdk8179954 :: int_prog where [model_defs]:
  "thread1_jdk8179954 =
     atomic_store_explicit ''x'' 1 memory_order_relaxed (
     atomic_load_explicit ''y'' memory_order_relaxed (\<lambda>v.
     atomic_store_explicit ''r1'' v memory_order_relaxed (
     return_NULL)))"

definition thread2_jdk8179954 :: int_prog where [model_defs]:
  "thread2_jdk8179954 =
     atomic_store_explicit ''y'' 1 memory_order_relaxed (
     atomic_load_explicit ''x'' memory_order_relaxed (\<lambda>v.
     atomic_store_explicit ''r2'' v memory_order_relaxed (
     return_NULL)))"

definition main_jdk8179954 :: int_prog where [model_defs]:
  "main_jdk8179954 =
     run_two thread1_jdk8179954 thread2_jdk8179954
     (atomic_load_explicit ''r1'' memory_order_relaxed (\<lambda>v.
     if v = 0 then
       atomic_load_explicit ''r2'' memory_order_relaxed (\<lambda>v2.
       if v2 = 0 then
         Abort
       else Return 0)
     else Return 0))"

interpretation sb_jdk8179954: store_buffering globals_jdk8179954 "''x''" "''y''" "''r1''" "''r2''" "1" "1"
    "\<lambda>x. x = 0" "\<lambda>x. x = 0"
  by unfold_locales (simp_all add: model_defs)

lemma main_jdk8179954_buffers:
  "main_jdk8179954 = run_two
     (store_then_load memory_order_relaxed ''x'' 1 ''y'' ''r1'')
     (store_then_load memory_order_relaxed ''y'' 1 ''x'' ''r2'')
     (inspect memory_order_relaxed ''r1'' (\<lambda>x. x = 0) ''r2'' (\<lambda>x. x = 0))"
  by (simp add: model_defs store_then_load_def inspect_def run_two_def cong: if_cong)

subsection \<open>\<open>Layer1/sofa_pbrpc_hang_genmc.c\<close>\<close>

definition globals_sofa :: "loc \<Rightarrow> c_int" where [model_defs]:
  "globals_sofa = (\<lambda>_. 0)(''pending_count'' := 0, ''send_token'' := 1, ''r1'' := 0, ''r2'' := 0)"

definition thread_try_send_sofa :: int_prog where [model_defs]:
  "thread_try_send_sofa =
     atomic_store_explicit ''pending_count'' 1 memory_order_relaxed (
     atomic_load_explicit ''send_token'' memory_order_relaxed (\<lambda>v.
     atomic_store_explicit ''r1'' v memory_order_relaxed (
     return_NULL)))"

definition thread_get_queue_sofa :: int_prog where [model_defs]:
  "thread_get_queue_sofa =
     atomic_store_explicit ''send_token'' 0 memory_order_relaxed (
     atomic_load_explicit ''pending_count'' memory_order_relaxed (\<lambda>v.
     atomic_store_explicit ''r2'' v memory_order_relaxed (
     return_NULL)))"

definition main_sofa :: int_prog where [model_defs]:
  "main_sofa =
     run_two thread_try_send_sofa thread_get_queue_sofa
     (atomic_load_explicit ''r1'' memory_order_relaxed (\<lambda>v.
     if v = 1 then
       atomic_load_explicit ''r2'' memory_order_relaxed (\<lambda>v2.
       if v2 = 0 then
         Abort
       else Return 0)
     else Return 0))"

interpretation sb_sofa: store_buffering globals_sofa "''pending_count''" "''send_token''" "''r1''" "''r2''" "1" "0"
    "\<lambda>x. x = 1" "\<lambda>x. x = 0"
  by unfold_locales (simp_all add: model_defs)

lemma main_sofa_buffers:
  "main_sofa = run_two
     (store_then_load memory_order_relaxed ''pending_count'' 1 ''send_token'' ''r1'')
     (store_then_load memory_order_relaxed ''send_token'' 0 ''pending_count'' ''r2'')
     (inspect memory_order_relaxed ''r1'' (\<lambda>x. x = 1) ''r2'' (\<lambda>x. x = 0))"
  by (simp add: model_defs store_then_load_def inspect_def run_two_def cong: if_cong)

subsection \<open>\<open>Layer1/tso_test_genmc.c\<close>\<close>

definition globals_tso :: "loc \<Rightarrow> c_int" where [model_defs]:
  "globals_tso = (\<lambda>_. 0)(''x'' := 0, ''y'' := 0, ''r1'' := 0, ''r2'' := 0)"

definition thread1_tso :: int_prog where [model_defs]:
  "thread1_tso =
     atomic_store_explicit ''x'' 1 memory_order_relaxed (
     atomic_load_explicit ''y'' memory_order_relaxed (\<lambda>v.
     atomic_store_explicit ''r1'' v memory_order_relaxed (
     return_NULL)))"

definition thread2_tso :: int_prog where [model_defs]:
  "thread2_tso =
     atomic_store_explicit ''y'' 1 memory_order_relaxed (
     atomic_load_explicit ''x'' memory_order_relaxed (\<lambda>v.
     atomic_store_explicit ''r2'' v memory_order_relaxed (
     return_NULL)))"

definition main_tso :: int_prog where [model_defs]:
  "main_tso =
     run_two thread1_tso thread2_tso
     (atomic_load_explicit ''r1'' memory_order_relaxed (\<lambda>v.
     if v = 0 then
       atomic_load_explicit ''r2'' memory_order_relaxed (\<lambda>v2.
       if v2 = 0 then
         Abort
       else Return 0)
     else Return 0))"

interpretation sb_tso: store_buffering globals_tso "''x''" "''y''" "''r1''" "''r2''" "1" "1"
    "\<lambda>x. x = 0" "\<lambda>x. x = 0"
  by unfold_locales (simp_all add: model_defs)

lemma main_tso_buffers:
  "main_tso = run_two
     (store_then_load memory_order_relaxed ''x'' 1 ''y'' ''r1'')
     (store_then_load memory_order_relaxed ''y'' 1 ''x'' ''r2'')
     (inspect memory_order_relaxed ''r1'' (\<lambda>x. x = 0) ''r2'' (\<lambda>x. x = 0))"
  by (simp add: model_defs store_then_load_def inspect_def run_two_def cong: if_cong)

section \<open>The suite\<close>

definition buffering_samples :: "((loc \<Rightarrow> c_int) \<times> int_prog) list" where
  "buffering_samples = [(globals_jdk8179954, main_jdk8179954), (globals_sofa, main_sofa), (globals_tso, main_tso)]"

lemmas buffering_equations = main_jdk8179954_buffers main_sofa_buffers main_tso_buffers
lemmas buffering_completes =
  sb_jdk8179954.buffering_completes_sc sb_sofa.buffering_completes_sc sb_tso.buffering_completes_sc
lemmas buffering_verdicts =
  sb_jdk8179954.buffering_verdict sb_sofa.buffering_verdict sb_tso.buffering_verdict

text \<open>
  Under sequential consistency the store-buffering samples run to completion: within
  20 steps every thread has returned and been joined, and \<open>main\<close>'s assertion has held.
\<close>

theorem buffering_terminates:
  "list_all (\<lambda>(m, p). completes SC 20 m p) buffering_samples"
  by (simp add: buffering_samples_def buffering_equations buffering_completes)

text \<open>
  The store-buffering samples are correct exactly under sequential consistency: a store
  buffer of any kind (TSO already) lets both threads miss the other's store.
\<close>

theorem buffering_bug:
  "list_all (\<lambda>(m, p). \<forall>M. safe M m p \<longleftrightarrow> M = SC) buffering_samples"
  by (simp add: buffering_samples_def buffering_equations buffering_verdicts)

end
