(* ===== verification/Spinning.thy ===== *)
theory Spinning
  imports Litmus
begin

text \<open>
  Busy waiting. A loop that rereads a flag, or retries a compare-and-swap, until it succeeds
  can run forever, so a program that contains one has unbounded executions. A failed round
  changes nothing but the program counter; therefore the loop may be replaced by one attempt
  that blocks when it fails, which leaves a finite program to explore.
\<close>

section \<open>Loops and their blocking forms\<close>

definition await :: "'l \<Rightarrow> memory_order \<Rightarrow> ('v \<Rightarrow> bool) \<Rightarrow> ('l, 'v) prog \<Rightarrow> ('l, 'v) prog" where
  "await l mo P p = Load mo l (\<lambda>v. if P v then p else Blocked)"

text \<open>
  \<open>do { expected = e; } while (!atomic_compare_exchange_weak_explicit(&l, &expected, d, mo, mof));\<close>
\<close>

datatype phase = Attempt | Swap | Spurious

primcorec cas_phase ::
  "phase \<Rightarrow> 'l \<Rightarrow> 'v \<Rightarrow> 'v \<Rightarrow> memory_order \<Rightarrow> memory_order \<Rightarrow> ('l, 'v) prog \<Rightarrow> ('l, 'v) prog" where
  "cas_phase ph l e d mo mof p = 
    (if ph = Attempt then Choose (cas_phase Swap l e d mo mof p) (cas_phase Spurious l e d mo mof p)
     else if ph = Swap then Rmw mo l (\<lambda>old. if old = e then d else old)
       (\<lambda>old. if old = e then p else cas_phase Attempt l e d mo mof p)
     else Load mof l (\<lambda>_. cas_phase Attempt l e d mo mof p))"

abbreviation "cas_loop \<equiv> cas_phase Attempt"
abbreviation "cas_try \<equiv> cas_phase Swap"
abbreviation "cas_spurious \<equiv> cas_phase Spurious"

lemma cas_phase_unfold:
  "cas_loop l e d mo mof p = Choose (cas_try l e d mo mof p) (cas_spurious l e d mo mof p)"
  "cas_try l e d mo mof p =
     Rmw mo l (\<lambda>old. if old = e then d else old) (\<lambda>old. if old = e then p else cas_loop l e d mo mof p)"
  "cas_spurious l e d mo mof p = Load mof l (\<lambda>_. cas_loop l e d mo mof p)"
  by (subst cas_phase.code; simp)+

text \<open>One unfolding of the loop is the weak compare-and-swap of the source.\<close>

lemma cas_loop_unfold:
  "cas_loop l e d mo mof p =
     atomic_compare_exchange_weak_explicit l e d mo mof
       (\<lambda>ok. if ok then p else cas_loop l e d mo mof p)"
  by (subst cas_phase_unfold(1)) (simp add: cas_phase_unfold(2,3))

definition cas_await :: "'l \<Rightarrow> 'v \<Rightarrow> 'v \<Rightarrow> memory_order \<Rightarrow> ('l, 'v) prog \<Rightarrow> ('l, 'v) prog" where
  "cas_await l e d mo p = Rmw mo l (\<lambda>old. if old = e then d else old) (\<lambda>old. if old = e then p else Blocked)"

text \<open>
  The loops unfold when the machine looks at them, and only then.
\<close>

lemma case_prog_spin_until [machine_simps]:
  "case_prog r a b ld st rm fe ch cr jo (spin_until l mo P p) =
     ld mo l (\<lambda>v. if P v then p else spin_until l mo P p)"
  by (subst spin_until.code) simp

lemma case_prog_cas_phase [machine_simps]:
  "case_prog r a b ld st rm fe ch cr jo (cas_loop l e d mo mof p) =
     ch (cas_try l e d mo mof p) (cas_spurious l e d mo mof p)"
  "case_prog r a b ld st rm fe ch cr jo (cas_try l e d mo mof p) =
     rm mo l (\<lambda>old. if old = e then d else old) (\<lambda>old. if old = e then p else cas_loop l e d mo mof p)"
  "case_prog r a b ld st rm fe ch cr jo (cas_spurious l e d mo mof p) =
     ld mof l (\<lambda>_. cas_loop l e d mo mof p)"
  by (subst cas_phase_unfold; simp)+

lemma loops_running [machine_simps]:
  "\<not> aborted (spin_until l mo P p)" "\<not> returned (spin_until l mo P p)"
  "\<not> aborted (cas_phase ph l e d mo mof p)" "\<not> returned (cas_phase ph l e d mo mof p)"
proof -
  show "\<not> aborted (cas_phase ph l e d mo mof p)" "\<not> returned (cas_phase ph l e d mo mof p)"
    by (cases ph; simp add: aborted_def returned_def case_prog_cas_phase)+
qed (simp_all add: aborted_def returned_def case_prog_spin_until)

section \<open>Replacing loops\<close>

text \<open>\<open>blocks p q\<close>: \<open>q\<close> is \<open>p\<close> with loops replaced by their blocking forms, \<open>p\<close> possibly inside one.\<close>

coinductive blocks :: "('l, 'v) prog \<Rightarrow> ('l, 'v) prog \<Rightarrow> bool" where
  blocks_Return: "blocks (Return n) (Return n)"
| blocks_Abort: "blocks Abort Abort"
| blocks_Blocked: "blocks Blocked Blocked"
| blocks_Load: "(\<And>v. blocks (k v) (k' v)) \<Longrightarrow> blocks (Load mo l k) (Load mo l k')"
| blocks_Store: "blocks p q \<Longrightarrow> blocks (Store mo l v p) (Store mo l v q)"
| blocks_Rmw: "(\<And>v. blocks (k v) (k' v)) \<Longrightarrow> blocks (Rmw mo l f k) (Rmw mo l f k')"
| blocks_Fence: "blocks p q \<Longrightarrow> blocks (Fence mo p) (Fence mo q)"
| blocks_Choose: "blocks p q \<Longrightarrow> blocks p' q' \<Longrightarrow> blocks (Choose p p') (Choose q q')"
| blocks_Create: "blocks p q \<Longrightarrow> (\<And>t. blocks (c t) (c' t)) \<Longrightarrow> blocks (Create p c) (Create q c')"
| blocks_Join: "blocks p q \<Longrightarrow> blocks (Join t p) (Join t q)"
| blocks_spin: "blocks p q \<Longrightarrow>
    blocks (Load mo l (\<lambda>v. if P v then p else spin_until l mo P p)) (await l mo P q)"
| blocks_loop: "blocks p q \<Longrightarrow>
    blocks (Choose (cas_try l e d mo mof p) (cas_spurious l e d mo mof p)) (cas_await l e d mo q)"
| blocks_try: "blocks p q \<Longrightarrow>
    blocks (Rmw mo l (\<lambda>old. if old = e then d else old) (\<lambda>old. if old = e then p else cas_loop l e d mo mof p))
      (cas_await l e d mo q)"
| blocks_spurious: "blocks p q \<Longrightarrow>
    blocks (Load mof l (\<lambda>_. cas_loop l e d mo mof p)) (cas_await l e d mo q)"

lemma blocks_spin_until: "blocks p q \<Longrightarrow> blocks (spin_until l mo P p) (await l mo P q)"
  by (subst spin_until.code) (rule blocks_spin)

lemma blocks_cas_loop: "blocks p q \<Longrightarrow> blocks (cas_loop l e d mo mof p) (cas_await l e d mo q)"
  by (subst cas_phase_unfold(1)) (rule blocks_loop)

lemma blocks_cas_try: "blocks p q \<Longrightarrow> blocks (cas_try l e d mo mof p) (cas_await l e d mo q)"
  by (subst cas_phase_unfold(2)) (rule blocks_try)

lemma blocks_cas_spurious: "blocks p q \<Longrightarrow> blocks (cas_spurious l e d mo mof p) (cas_await l e d mo q)"
  by (subst cas_phase_unfold(3)) (rule blocks_spurious)

lemma blocks_if: "blocks p p' \<Longrightarrow> blocks q q' \<Longrightarrow> blocks (if b then p else q) (if b then p' else q')"
  by simp

lemmas blocks_intros =
  blocks_Return blocks_Abort blocks_Blocked blocks_spin_until blocks_cas_loop
  blocks_Load blocks_Store blocks_Rmw blocks_Fence blocks_Choose blocks_Create blocks_Join blocks_if

inductive_cases blocks_ReturnE: "blocks (Return n) q"
inductive_cases blocks_AbortE: "blocks Abort q"
inductive_cases blocks_LoadE: "blocks (Load mo l k) q"
inductive_cases blocks_StoreE: "blocks (Store mo l v p) q"
inductive_cases blocks_RmwE: "blocks (Rmw mo l f k) q"
inductive_cases blocks_FenceE: "blocks (Fence mo p) q"
inductive_cases blocks_ChooseE: "blocks (Choose p p') q"
inductive_cases blocks_CreateE: "blocks (Create p k) q"
inductive_cases blocks_JoinE: "blocks (Join t p) q"

lemma blocks_returned: "blocks p q \<Longrightarrow> returned p \<Longrightarrow> returned q"
  by (auto simp: returned_iff elim: blocks_ReturnE)

lemma blocks_aborted: "blocks p q \<Longrightarrow> aborted p \<Longrightarrow> aborted q"
  by (auto simp: aborted_iff elim: blocks_AbortE)

definition blocks_thread :: "('l, 'v) thread \<Rightarrow> ('l, 'v) thread \<Rightarrow> bool" where
  "blocks_thread t u \<longleftrightarrow> buf t = buf u \<and> blocks (code t) (code u)"

definition blocks_config :: "('l, 'v) config \<Rightarrow> ('l, 'v) config \<Rightarrow> bool" where
  "blocks_config c a \<longleftrightarrow> mem c = mem a \<and> list_all2 blocks_thread (threads c) (threads a)"

lemma blocks_config_length: "blocks_config c a \<Longrightarrow> length (threads c) = length (threads a)"
  by (auto simp: blocks_config_def dest: list_all2_lengthD)

lemma blocks_config_thread:
  assumes "blocks_config c a" "i < length (threads c)" "threads c ! i = \<lparr>code = p, buf = b\<rparr>"
  obtains q where "i < length (threads a)" "threads a ! i = \<lparr>code = q, buf = b\<rparr>" "blocks p q"
proof -
  from assms(1,2) have "blocks_thread (threads c ! i) (threads a ! i)" "i < length (threads a)"
    by (auto simp: blocks_config_def dest: list_all2_nthD list_all2_lengthD)
  with assms(3) have "threads a ! i = \<lparr>code = code (threads a ! i), buf = b\<rparr>" "blocks p (code (threads a ! i))"
    by (auto simp: blocks_thread_def)
  with \<open>i < length (threads a)\<close> show ?thesis by (rule that)
qed

lemma blocks_config_put:
  "blocks_config c a \<Longrightarrow> blocks p q \<Longrightarrow> blocks_config (put i p b c) (put i q b a)"
  by (auto simp: blocks_config_def blocks_thread_def intro: list_all2_update_cong)

text \<open>A failed round of a loop is matched by staying where the blocking form is.\<close>

lemma blocks_config_stay:
  assumes "blocks_config c a" "i < length (threads a)" "threads a ! i = \<lparr>code = q, buf = b\<rparr>" "blocks p q"
  shows "blocks_config (put i p b c) a"
proof -
  have "(threads a)[i := threads a ! i] = threads a" by (rule list_update_id)
  then have "put i q b a = a" unfolding put_def assms(3) by simp
  moreover have "blocks_config (put i p b c) (put i q b a)"
    using assms(1,4) by (rule blocks_config_put)
  ultimately show ?thesis by (simp only:)
qed

lemma blocks_config_mem:
  "blocks_config c a \<Longrightarrow> blocks_config (c\<lparr>mem := m\<rparr>) (a\<lparr>mem := m\<rparr>)"
  by (simp add: blocks_config_def)

lemma blocks_config_create:
  assumes "blocks_config c a" "blocks p q" "\<And>t. blocks (k t) (k' t)"
  shows "blocks_config (c\<lparr>threads := (threads c)[i := new_thread (k n)] @ [new_thread p]\<rparr>)
    (a\<lparr>threads := (threads a)[i := new_thread (k' n)] @ [new_thread q]\<rparr>)"
proof -
  have "blocks_thread (new_thread p) (new_thread q)" "blocks_thread (new_thread (k n)) (new_thread (k' n))"
    using assms(2,3) by (simp_all add: blocks_thread_def new_thread_def)
  then show ?thesis using assms(1)
    by (simp add: blocks_config_def list_all2_appendI list_all2_update_cong)
qed

lemma blocks_config_finished:
  "blocks_config c a \<Longrightarrow> j < length (threads c) \<Longrightarrow> finished (threads c ! j) \<Longrightarrow> finished (threads a ! j)"
  by (auto simp: blocks_config_def blocks_thread_def finished_def
      dest!: list_all2_nthD dest: blocks_returned)

lemma blocks_config_failed: "blocks_config c a \<Longrightarrow> failed c \<Longrightarrow> failed a"
  unfolding blocks_config_def failed_def list_all2_conv_all_nth list_ex_length blocks_thread_def
  by (metis blocks_aborted)

section \<open>The blocking forms cover the loops\<close>

lemma blocks_step_load:
  assumes c: "blocks_config c a" and i: "i < length (threads c)"
    and t: "threads c ! i = \<lparr>code = Load mo l k, buf = b\<rparr>"
  shows "\<exists>a'. (step M)\<^sup>*\<^sup>* a a' \<and> blocks_config (put i (k (view (mem c) b l)) b c) a'"
proof -
  obtain q where q: "i < length (threads a)" "threads a ! i = \<lparr>code = q, buf = b\<rparr>" "blocks (Load mo l k) q"
    using blocks_config_thread [OF c i t] .
  have m: "mem c = mem a" using c by (simp add: blocks_config_def)
  let ?v = "view (mem a) b l"
  from q(3) consider
      (cong) k' where "q = Load mo l k'" "\<forall>v. blocks (k v) (k' v)"
    | (spin) p q' P where "k = (\<lambda>v. if P v then p else spin_until l mo P p)" "q = await l mo P q'" "blocks p q'"
    | (spurious) p q' e d mo' where "k = (\<lambda>_. cas_loop l e d mo' mo p)" "q = cas_await l e d mo' q'" "blocks p q'"
    by (rule blocks_LoadE) blast+
  then show ?thesis
  proof cases
    case cong
    then show ?thesis using step_load [OF q(1) q(2) [unfolded cong(1)], of M]
      by (intro exI [of _ "put i (k' ?v) b a"]) (auto simp: m c blocks_config_put)
  next
    case spin
    show ?thesis
    proof (cases "P ?v")
      case True
      then show ?thesis using spin step_load [OF q(1) q(2) [unfolded spin(2) await_def], of M]
        by (intro exI [of _ "put i q' b a"]) (auto simp: m c blocks_config_put)
    next
      case False
      then have "blocks (k ?v) q" using spin by (simp add: blocks_spin_until)
      then show ?thesis unfolding m by (blast intro: blocks_config_stay [OF c q(1,2)])
    qed
  next
    case spurious
    then have "blocks (k ?v) q" by (simp add: blocks_cas_loop)
    then show ?thesis unfolding m by (blast intro: blocks_config_stay [OF c q(1,2)])
  qed
qed

lemma put_mem_same: "(put i p b c)\<lparr>mem := mem c\<rparr> = put i p b c"
  by (simp add: put_def)

lemma blocks_step_rmw:
  assumes c: "blocks_config c a" and i: "i < length (threads c)"
    and t: "threads c ! i = \<lparr>code = Rmw mo l f k, buf = b\<rparr>" and r: "rmw_ready M mo l b"
  shows "\<exists>a'. (step M)\<^sup>*\<^sup>* a a' \<and>
    blocks_config ((put i (k (mem c l)) b c)\<lparr>mem := (mem c)(l := f (mem c l))\<rparr>) a'"
proof -
  obtain q where q: "i < length (threads a)" "threads a ! i = \<lparr>code = q, buf = b\<rparr>" "blocks (Rmw mo l f k) q"
    using blocks_config_thread [OF c i t] .
  have m: "mem c = mem a" using c by (simp add: blocks_config_def)
  from q(3) consider
      (cong) k' where "q = Rmw mo l f k'" "\<forall>v. blocks (k v) (k' v)"
    | (attempt) p q' e d mof where "q = cas_await l e d mo q'" "blocks p q'"
        "f = (\<lambda>old. if old = e then d else old)"
        "k = (\<lambda>old. if old = e then p else cas_loop l e d mo mof p)"
    by (rule blocks_RmwE) blast+
  then show ?thesis
  proof cases
    case cong
    have "step M a ((put i (k' (mem a l)) b a)\<lparr>mem := (mem a)(l := f (mem a l))\<rparr>)"
      by (rule step_rmw [OF q(1) q(2) [unfolded cong(1)] r])
    then show ?thesis using cong c by (auto simp: m intro!: blocks_config_mem blocks_config_put)
  next
    case attempt
    show ?thesis
    proof (cases "mem a l = e")
      case True
      have "step M a ((put i q' b a)\<lparr>mem := (mem a)(l := d)\<rparr>)"
        using step_rmw [OF q(1) q(2) [unfolded attempt(1) cas_await_def] r] True by simp
      then show ?thesis using attempt c True by (auto simp: m intro!: blocks_config_mem blocks_config_put)
    next
      case False
      then have "blocks (k (mem c l)) q" "f (mem c l) = mem c l" using attempt by (simp_all add: m blocks_cas_loop)
      then have "blocks_config (put i (k (mem c l)) b c) a" by (blast intro: blocks_config_stay [OF c q(1,2)])
      then show ?thesis using \<open>f (mem c l) = mem c l\<close> by (auto simp: put_mem_same)
    qed
  qed
qed

lemma blocks_step:
  assumes "step M c c'" and "blocks_config c a"
  shows "\<exists>a'. (step M)\<^sup>*\<^sup>* a a' \<and> blocks_config c' a'"
  using assms
proof (induction rule: step.induct)
  case (step_load i c mo l k b)
  from this(3,1,2) show ?case by (rule blocks_step_load)
next
  case (step_write i c mo l v p b)
  from blocks_config_thread [OF step_write(5,1,2)] obtain q where
    q: "i < length (threads a)" "threads a ! i = \<lparr>code = Store mo l v q, buf = b\<rparr>" "blocks p q"
    by (blast elim: blocks_StoreE)
  have "mem c = mem a" using step_write(5) by (simp add: blocks_config_def)
  then show ?case using step.step_write [OF q(1,2) step_write(3,4)] step_write(5) q(3)
    by (auto intro!: blocks_config_mem blocks_config_put)
next
  case (step_enqueue i c mo l v p b)
  from blocks_config_thread [OF step_enqueue(4,1,2)] obtain q where
    q: "i < length (threads a)" "threads a ! i = \<lparr>code = Store mo l v q, buf = b\<rparr>" "blocks p q"
    by (blast elim: blocks_StoreE)
  show ?case using step.step_enqueue [OF q(1,2) step_enqueue(3)] step_enqueue(4) q(3)
    by (blast intro: blocks_config_put)
next
  case (step_rmw i c mo l f k b)
  from this(4,1,2,3) show ?case by (rule blocks_step_rmw)
next
  case (step_full_fence i c p)
  from blocks_config_thread [OF step_full_fence(3,1,2)] obtain q where
    q: "i < length (threads a)" "threads a ! i = \<lparr>code = sync_synchronize q, buf = []\<rparr>" "blocks p q"
    by (blast elim: blocks_FenceE)
  show ?case using step.step_full_fence [OF q(1,2), of M] step_full_fence(3) q(3)
    by (blast intro: blocks_config_put)
next
  case (step_fence i c mo p b)
  from blocks_config_thread [OF step_fence(4,1,2)] obtain q where
    q: "i < length (threads a)" "threads a ! i = \<lparr>code = Fence mo q, buf = b\<rparr>" "blocks p q"
    by (blast elim: blocks_FenceE)
  show ?case using step.step_fence [OF q(1,2) step_fence(3), of M] step_fence(4) q(3)
    by (blast intro: blocks_config_put)
next
  case (step_left i c p p' b)
  obtain q where q: "i < length (threads a)" "threads a ! i = \<lparr>code = q, buf = b\<rparr>" "blocks (Choose p p') q"
    using blocks_config_thread [OF step_left(3,1,2)] .
  from q(3) show ?case
  proof (rule blocks_ChooseE)
    fix r r' assume "q = Choose r r'" "blocks p r"
    then show ?thesis using step.step_left [OF q(1), of r r' b M] q(2) step_left(3)
      by (blast intro: blocks_config_put)
  next
    fix r r' l e d mo mof
    assume "q = cas_await l e d mo r'" "blocks r r'" "p = cas_try l e d mo mof r"
    then have "blocks p q" by (simp add: blocks_cas_try)
    with step_left(3) q(1,2) have "blocks_config (put i p b c) a" by (intro blocks_config_stay)
    then show ?thesis by blast
  qed
next
  case (step_right i c p p' b)
  obtain q where q: "i < length (threads a)" "threads a ! i = \<lparr>code = q, buf = b\<rparr>" "blocks (Choose p p') q"
    using blocks_config_thread [OF step_right(3,1,2)] .
  from q(3) show ?case
  proof (rule blocks_ChooseE)
    fix r r' assume "q = Choose r r'" "blocks p' r'"
    then show ?thesis using step.step_right [OF q(1), of r r' b M] q(2) step_right(3)
      by (blast intro: blocks_config_put)
  next
    fix r r' l e d mo mof
    assume "q = cas_await l e d mo r'" "blocks r r'" "p' = cas_spurious l e d mo mof r"
    then have "blocks p' q" by (simp add: blocks_cas_spurious)
    with step_right(3) q(1,2) have "blocks_config (put i p' b c) a" by (intro blocks_config_stay)
    then show ?thesis by blast
  qed
next
  case (step_create i c p k)
  obtain r where r: "i < length (threads a)" "threads a ! i = \<lparr>code = r, buf = []\<rparr>" "blocks (Create p k) r"
    using blocks_config_thread [OF step_create(3,1,2)] .
  from r(3) obtain q k' where q: "r = Create q k'" "blocks p q" "\<forall>t. blocks (k t) (k' t)"
    by (rule blocks_CreateE) blast
  have "blocks_config (c\<lparr>threads := (threads c)[i := new_thread (k (length (threads c)))] @ [new_thread p]\<rparr>)
    (a\<lparr>threads := (threads a)[i := new_thread (k' (length (threads a)))] @ [new_thread q]\<rparr>)"
    unfolding blocks_config_length [OF step_create(3)]
    using step_create(3) q(2,3) by (intro blocks_config_create) auto
  then show ?case using step.step_create [OF r(1) r(2) [unfolded q(1)], of M] by blast
next
  case (step_join i c j p b)
  from blocks_config_thread [OF step_join(5,1,2)] obtain q where
    q: "i < length (threads a)" "threads a ! i = \<lparr>code = Join j q, buf = b\<rparr>" "blocks p q"
    by (blast elim: blocks_JoinE)
  have "j < length (threads a)" "finished (threads a ! j)"
    using step_join(3) blocks_config_length [OF step_join(5)]
      blocks_config_finished [OF step_join(5,3,4)] by simp_all
  then show ?case using step.step_join [OF q(1,2), of M] step_join(5) q(3)
    by (blast intro: blocks_config_put)
next
  case (step_commit i c p b e b')
  obtain q where q: "i < length (threads a)" "threads a ! i = \<lparr>code = q, buf = b\<rparr>" "blocks p q"
    using blocks_config_thread [OF step_commit(4,1,2)] .
  have "mem c = mem a" using step_commit(4) by (simp add: blocks_config_def)
  then show ?case using step.step_commit [OF q(1,2) step_commit(3)] step_commit(4) q(3)
    by (auto intro!: blocks_config_mem blocks_config_put)
qed

interpretation loop_blocking: simulation "step M" "step M" blocks_config for M
  by unfold_locales (rule blocks_step)

theorem blocks_safe: "blocks p q \<Longrightarrow> safe M m q \<Longrightarrow> safe M m p"
  unfolding safe_def
proof (erule loop_blocking.always_transfer)
  show "blocks p q \<Longrightarrow> blocks_config (boot m p) (boot m q)"
    by (simp add: blocks_config_def blocks_thread_def boot_def new_thread_def)
qed (blast dest: blocks_config_failed)

section \<open>Exploring the blocking form\<close>

text \<open>Every execution of a blocking program stops within \<open>n\<close> steps without a failed assertion.\<close>

definition halts_safely :: "memory_model \<Rightarrow> nat \<Rightarrow> ('l \<Rightarrow> 'v) \<Rightarrow> ('l, 'v) prog \<Rightarrow> bool" where
  "halts_safely M n m p \<longleftrightarrow> explore (succs M) (\<lambda>c. \<not> failed c) (\<lambda>_. True) n (boot m p)"

lemma halts_safely_safe: "halts_safely M n m p \<Longrightarrow> safe M m p"
  unfolding halts_safely_def safe_def by (drule machine.explore_always) (auto elim: always_mono)

lemma halts_safely_bound: "halts_safely M n m p \<Longrightarrow> (step M ^^ k) (boot m p) c \<Longrightarrow> k < n"
  unfolding halts_safely_def by (rule machine.explore_terminates)

end
