(* ===== verification/Genmc_Spin.thy ===== *)
theory Genmc_Spin
  imports Spinning
begin

text \<open>
  The samples of \<open>GENMC&Nidhugg\<close> whose threads wait in a busy loop for a start flag. The model
  checker gives up on them (its report says Timeout); here the loop is replaced by its blocking
  form, which is explored.
\<close>

section \<open>The samples\<close>

subsection \<open>\<open>Layer1/MariaDB-MDEV-6615_genmc.c\<close>\<close>

definition globals_mdev6615 :: "loc \<Rightarrow> c_int" where [model_defs]:
  "globals_mdev6615 = (\<lambda>_. 0)(''data'' := 0, ''flag'' := 0, ''start'' := 0)"

definition writer_mdev6615 :: int_prog where [model_defs]:
  "writer_mdev6615 =
     spin_until ''start'' memory_order_relaxed (\<lambda>v. v \<noteq> 0) (
     atomic_store_explicit ''data'' 42 memory_order_relaxed (
     atomic_store_explicit ''flag'' 1 memory_order_relaxed (
     return_NULL)))"

definition reader_mdev6615 :: int_prog where [model_defs]:
  "reader_mdev6615 =
     spin_until ''start'' memory_order_relaxed (\<lambda>v. v \<noteq> 0) (
     atomic_load_explicit ''flag'' memory_order_relaxed (\<lambda>f.
     atomic_load_explicit ''data'' memory_order_relaxed (\<lambda>d.
     if f = 1 \<and> d \<noteq> 42 then
       c_assert False return_NULL
     else return_NULL)))"

definition main_mdev6615 :: int_prog where [model_defs]:
  "main_mdev6615 =
     atomic_store_explicit ''start'' 0 memory_order_relaxed (
     pthread_create writer_mdev6615 (\<lambda>w.
     pthread_create reader_mdev6615 (\<lambda>r.
     atomic_store_explicit ''start'' 1 memory_order_relaxed (
     pthread_join w (
     pthread_join r (
     Return 0))))))"

lemma main_mdev6615_safe_tso: "safe TSO globals_mdev6615 main_mdev6615"
  by (rule blocks_safe, simp only: model_defs run_two_def, (rule blocks_intros)+,
      rule halts_safely_safe [of _ 40]) code_simp

lemma main_mdev6615_unsafe_pso: "\<not> safe PSO globals_mdev6615 main_mdev6615"
  by (rule fails_by_unsafe [of _ "[Run 0, Commit 0 0, Run 0, Run 0, Run 0, Commit 0 0, Run 1, Run 1, Run 1, Commit 1 1, Run 2, Run 2, Run 2]"])
    (simp add: machine_simps model_defs)

subsection \<open>\<open>Layer1/mysql-99556_genmc.c\<close>\<close>

definition globals_mysql99556 :: "loc \<Rightarrow> c_int" where [model_defs]:
  "globals_mysql99556 = (\<lambda>_. 0)(''counter'' := 0, ''data'' := 0, ''start'' := 0)"

definition writer_mysql99556 :: int_prog where [model_defs]:
  "writer_mysql99556 =
     spin_until ''start'' memory_order_relaxed (\<lambda>v. v \<noteq> 0) (
     atomic_store_explicit ''data'' 1 memory_order_relaxed (
     atomic_fetch_add_explicit ''counter'' 1 memory_order_relaxed (\<lambda>_.
     return_NULL)))"

definition reader_mysql99556 :: int_prog where [model_defs]:
  "reader_mysql99556 =
     atomic_store_explicit ''start'' 1 memory_order_relaxed (
     atomic_load_explicit ''counter'' memory_order_relaxed (\<lambda>c.
     atomic_load_explicit ''data'' memory_order_relaxed (\<lambda>d.
     if c = 1 \<and> d = 0 then
       c_assert False return_NULL
     else return_NULL)))"

definition main_mysql99556 :: int_prog where [model_defs]:
  "main_mysql99556 = run_two writer_mysql99556 reader_mysql99556 (Return 0)"

lemma main_mysql99556_safe_tso: "safe TSO globals_mysql99556 main_mysql99556"
  by (rule blocks_safe, simp only: model_defs run_two_def, (rule blocks_intros)+,
      rule halts_safely_safe [of _ 40]) code_simp

lemma main_mysql99556_unsafe_pso: "\<not> safe PSO globals_mysql99556 main_mysql99556"
  by (rule fails_by_unsafe [of _ "[Run 0, Run 0, Run 2, Commit 2 0, Run 1, Run 1, Run 1, Run 2, Run 2]"])
    (simp add: machine_simps model_defs)

subsection \<open>\<open>Layer1/mysql-ut-realx_genmc.c\<close>\<close>

definition globals_utrealx :: "loc \<Rightarrow> c_int" where [model_defs]:
  "globals_utrealx = (\<lambda>_. 0)(''ready'' := 0, ''value'' := 0, ''start'' := 0)"

definition writer_utrealx :: int_prog where [model_defs]:
  "writer_utrealx =
     spin_until ''start'' memory_order_relaxed (\<lambda>v. v \<noteq> 0) (
     atomic_store_explicit ''value'' 42 memory_order_relaxed (
     atomic_store_explicit ''ready'' 1 memory_order_relaxed (
     return_NULL)))"

definition reader_utrealx :: int_prog where [model_defs]:
  "reader_utrealx =
     atomic_store_explicit ''start'' 1 memory_order_relaxed (
     atomic_load_explicit ''ready'' memory_order_relaxed (\<lambda>r.
     atomic_load_explicit ''value'' memory_order_relaxed (\<lambda>v.
     if r = 1 \<and> v \<noteq> 42 then
       c_assert False return_NULL
     else return_NULL)))"

definition main_utrealx :: int_prog where [model_defs]:
  "main_utrealx = run_two writer_utrealx reader_utrealx (Return 0)"

lemma main_utrealx_safe_tso: "safe TSO globals_utrealx main_utrealx"
  by (rule blocks_safe, simp only: model_defs run_two_def, (rule blocks_intros)+,
      rule halts_safely_safe [of _ 40]) code_simp

lemma main_utrealx_unsafe_pso: "\<not> safe PSO globals_utrealx main_utrealx"
  by (rule fails_by_unsafe [of _ "[Run 0, Run 0, Run 2, Commit 2 0, Run 1, Run 1, Run 1, Commit 1 1, Run 2, Run 2]"])
    (simp add: machine_simps model_defs)

subsection \<open>\<open>Layer1/crossbeam_genmc.c\<close>\<close>

text \<open>
  The reader's loop of ten compiler barriers accesses no shared object and is left out.
\<close>

definition globals_crossbeam :: "loc \<Rightarrow> c_int" where [model_defs]:
  "globals_crossbeam = (\<lambda>_. 0)(''seq'' := 0, ''shared'' := 0, ''start'' := 0)"

definition writer_crossbeam :: int_prog where [model_defs]:
  "writer_crossbeam =
     spin_until ''start'' memory_order_relaxed (\<lambda>v. v \<noteq> 0) (
     atomic_exchange_explicit ''seq'' 1 memory_order_relaxed (\<lambda>_.
     atomic_store_explicit ''shared'' 1 memory_order_relaxed (
     return_NULL)))"

definition reader_crossbeam :: int_prog where [model_defs]:
  "reader_crossbeam =
     atomic_store_explicit ''start'' 1 memory_order_relaxed (
     atomic_load_explicit ''seq'' memory_order_relaxed (\<lambda>stamp.
     if stamp \<noteq> 0 then
       return_NULL
     else
       atomic_load_explicit ''shared'' memory_order_relaxed (\<lambda>val.
       atomic_load_explicit ''seq'' memory_order_relaxed (\<lambda>new_stamp.
       if new_stamp = stamp \<and> val = 1 then
         c_assert False return_NULL
       else return_NULL))))"

definition main_crossbeam :: int_prog where [model_defs]:
  "main_crossbeam = run_two writer_crossbeam reader_crossbeam (Return 0)"

lemma main_crossbeam_safe_pso: "safe PSO globals_crossbeam main_crossbeam"
  by (rule blocks_safe, simp only: model_defs run_two_def, (rule blocks_intros)+,
      rule halts_safely_safe [of _ 40]) code_simp

section \<open>Verdicts\<close>

text \<open>
  The samples that publish data behind a start flag are correct exactly on the machines
  that keep stores in order, however long the threads spin: a plain store of the flag
  (MDEV-6615, ut-realx), and on PSO even a relaxed read-modify-write of the counter (mysql-99556),
  overtakes the buffered data.
\<close>

theorem start_flag_bug:
  "list_all (\<lambda>(m, p). \<forall>M. safe M m p \<longleftrightarrow> M \<le> TSO)
     [(globals_mdev6615, main_mdev6615), (globals_mysql99556, main_mysql99556),
      (globals_utrealx, main_utrealx)]"
  by (simp add: tso_verdict main_mdev6615_safe_tso main_mdev6615_unsafe_pso
      main_mysql99556_safe_tso main_mysql99556_unsafe_pso main_utrealx_safe_tso main_utrealx_unsafe_pso)

text \<open>
  The crossbeam sequence lock, which raises the counter with a read-modify-write before it
  writes the data, cannot fail its assertion on any machine with store buffers: a reader that
  sees the data sees the raised counter.
\<close>

theorem crossbeam_safe: "safe M globals_crossbeam main_crossbeam"
  by (rule pso_verdict [OF main_crossbeam_safe_pso])

end
