(* ===== verification/Genmc_Locks.thy ===== *)
theory Genmc_Locks
  imports Spinning
begin

text \<open>
  The three spinlock samples of \<open>GENMC&Nidhugg\<close>: a weak compare-and-swap loop to take the
  lock, a critical section, and an unlock without release semantics. The model checker runs
  out of time on all three.
\<close>

section \<open>The samples\<close>

subsection \<open>\<open>Layer1/1-Linuxeasy_genmc.c\<close>\<close>

definition globals_linuxeasy :: "loc \<Rightarrow> c_int" where [model_defs]:
  "globals_linuxeasy = (\<lambda>_. 0)(''lock_val'' := 0, ''in_cs'' := 0)"

definition thread_func_linuxeasy :: int_prog where [model_defs]:
  "thread_func_linuxeasy =
     cas_loop ''lock_val'' 0 1 memory_order_relaxed memory_order_relaxed (
     atomic_fetch_add_explicit ''in_cs'' 1 memory_order_relaxed (\<lambda>current_cs.
     c_assert (current_cs = 0)
       (atomic_fetch_sub_explicit ''in_cs'' 1 memory_order_relaxed (\<lambda>_.
        atomic_store_explicit ''lock_val'' 0 memory_order_relaxed (
        return_NULL)))))"

definition main_linuxeasy :: int_prog where [model_defs]:
  "main_linuxeasy = run_two thread_func_linuxeasy thread_func_linuxeasy (Return 0)"

subsection \<open>\<open>Layer1/24-mysql_genmc.c\<close>\<close>

definition globals_mysql24 :: "loc \<Rightarrow> c_int" where [model_defs]:
  "globals_mysql24 = (\<lambda>_. 0)(''m_lock_word'' := 0, ''protected_data'' := 0)"

definition thread_worker_mysql24 :: int_prog where [model_defs]:
  "thread_worker_mysql24 =
     cas_loop ''m_lock_word'' 0 1 memory_order_relaxed memory_order_relaxed (
     atomic_load_explicit ''protected_data'' memory_order_relaxed (\<lambda>data.
     c_assert (data = 0)
       (atomic_store_explicit ''protected_data'' 1 memory_order_relaxed (
        atomic_store_explicit ''protected_data'' 0 memory_order_relaxed (
        atomic_exchange_explicit ''m_lock_word'' 0 memory_order_relaxed (\<lambda>_.
        return_NULL))))))"

definition main_mysql24 :: int_prog where [model_defs]:
  "main_mysql24 = run_two thread_worker_mysql24 thread_worker_mysql24 (Return 0)"

subsection \<open>\<open>Layer1/13-CVE-2020-11739-Xen_genmc.c\<close>\<close>

definition globals_xen11739 :: "loc \<Rightarrow> c_int" where [model_defs]:
  "globals_xen11739 = (\<lambda>_. 0)(''lock_cnts'' := 0, ''protected_data'' := 0)"

definition thread_writer_xen11739 :: int_prog where [model_defs]:
  "thread_writer_xen11739 =
     cas_loop ''lock_cnts'' 0 1 memory_order_acquire memory_order_relaxed (
     atomic_store_explicit ''protected_data'' 42 memory_order_relaxed (
     atomic_store_explicit ''lock_cnts'' 0 memory_order_relaxed (
     return_NULL)))"

definition thread_reader_xen11739 :: int_prog where [model_defs]:
  "thread_reader_xen11739 =
     cas_loop ''lock_cnts'' 0 1 memory_order_acquire memory_order_relaxed (
     atomic_load_explicit ''protected_data'' memory_order_relaxed (\<lambda>data.
     c_assert (data = 42 \<or> data = 0)
       (atomic_store_explicit ''lock_cnts'' 0 memory_order_relaxed (
        return_NULL))))"

definition main_xen11739 :: int_prog where [model_defs]:
  "main_xen11739 = run_two thread_writer_xen11739 thread_reader_xen11739 (Return 0)"

section \<open>The patterns\<close>

text \<open>
  The workers over any lock word \<open>l\<close> and protected object \<open>d\<close>, each with the way it takes the
  lock left open: the loop of the sample, or the loop's blocking form.
\<close>

definition counting_section :: "'l \<Rightarrow> 'l \<Rightarrow> ('l, c_int) prog" where
  "counting_section l d =
     atomic_fetch_add_explicit d 1 memory_order_relaxed (\<lambda>v.
     c_assert (v = 0)
       (atomic_fetch_sub_explicit d 1 memory_order_relaxed (\<lambda>_.
        atomic_store_explicit l 0 memory_order_relaxed return_NULL)))"

definition updating_section :: "'l \<Rightarrow> 'l \<Rightarrow> ('l, c_int) prog" where
  "updating_section l d =
     atomic_load_explicit d memory_order_relaxed (\<lambda>v.
     c_assert (v = 0)
       (atomic_store_explicit d 1 memory_order_relaxed (
        atomic_store_explicit d 0 memory_order_relaxed (
        atomic_exchange_explicit l 0 memory_order_relaxed (\<lambda>_. return_NULL)))))"

definition writing_section :: "'l \<Rightarrow> 'l \<Rightarrow> c_int \<Rightarrow> ('l, c_int) prog" where
  "writing_section l d x =
     atomic_store_explicit d x memory_order_relaxed (
     atomic_store_explicit l 0 memory_order_relaxed return_NULL)"

definition reading_section :: "'l \<Rightarrow> 'l \<Rightarrow> c_int \<Rightarrow> ('l, c_int) prog" where
  "reading_section l d x =
     atomic_load_explicit d memory_order_relaxed (\<lambda>v.
     c_assert (v = x \<or> v = 0) (atomic_store_explicit l 0 memory_order_relaxed return_NULL))"

lemmas section_defs = counting_section_def updating_section_def writing_section_def reading_section_def

locale spinlock =
  fixes m :: "'l \<Rightarrow> c_int" and l d :: 'l
  assumes distinct: "l \<noteq> d" and unlocked: "m l = 0" and clear: "m d = 0"
begin

lemmas lock_simps =
  machine_simps distinct distinct [symmetric] unlocked clear section_defs halts_safely_def cas_await_def

lemma counting_blocking_pso:
  "halts_safely PSO 40 m (run_two (cas_await l 0 1 mo (counting_section l d))
     (cas_await l 0 1 mo (counting_section l d)) (Return 0))"
  if "\<not> releases mo"
  using that by (simp add: lock_simps)

lemma updating_blocking_tso:
  "halts_safely TSO 40 m (run_two (cas_await l 0 1 mo (updating_section l d))
     (cas_await l 0 1 mo (updating_section l d)) (Return 0))"
  by (simp add: lock_simps)

lemma reading_blocking_pso:
  "halts_safely PSO 40 m (run_two (cas_await l 0 1 mo (writing_section l d 42))
     (cas_await l 0 1 mo (reading_section l d 42)) (Return 0))"
  if "\<not> releases mo"
  using that by (simp add: lock_simps)

lemma run_two_blocks:
  "blocks p p' \<Longrightarrow> blocks q q' \<Longrightarrow> blocks (run_two p q (Return 0)) (run_two p' q' (Return 0))"
  unfolding run_two_def by (intro blocks_intros)

lemma section_blocks:
  "blocks (counting_section l d) (counting_section l d)"
  "blocks (updating_section l d) (updating_section l d)"
  "blocks (writing_section l d x) (writing_section l d x)"
  "blocks (reading_section l d x) (reading_section l d x)"
  unfolding section_defs by (intro blocks_intros)+

lemma counting_safe_pso:
  assumes "\<not> releases mo"
  shows "safe PSO m (run_two (cas_loop l 0 1 mo mof (counting_section l d))
    (cas_loop l 0 1 mo mof (counting_section l d)) (Return 0))"
  by (rule blocks_safe [OF _ halts_safely_safe [OF counting_blocking_pso [OF assms]]])
    (intro run_two_blocks blocks_cas_loop section_blocks)

lemma updating_safe_tso:
  "safe TSO m (run_two (cas_loop l 0 1 mo mof (updating_section l d))
    (cas_loop l 0 1 mo mof (updating_section l d)) (Return 0))"
  by (rule blocks_safe [OF _ halts_safely_safe [OF updating_blocking_tso [where mo = mo]]])
    (intro run_two_blocks blocks_cas_loop section_blocks)

lemma updating_unsafe_pso:
  assumes "\<not> releases mo"
  shows "\<not> safe PSO m (run_two (cas_loop l 0 1 mo mof (updating_section l d))
    (cas_loop l 0 1 mo mof (updating_section l d)) (Return 0))"
  by (rule fails_by_unsafe [of _ "[Run 0, Run 0, Run 1, Run 1, Run 1, Run 1, Run 1, Run 1,
      Commit 1 0, Run 2, Run 2, Run 2]"])
    (simp add: lock_simps assms)

lemma reading_safe_pso:
  assumes "\<not> releases mo"
  shows "safe PSO m (run_two (cas_loop l 0 1 mo mof (writing_section l d 42))
    (cas_loop l 0 1 mo mof (reading_section l d 42)) (Return 0))"
  by (rule blocks_safe [OF _ halts_safely_safe [OF reading_blocking_pso [OF assms]]])
    (intro run_two_blocks blocks_cas_loop section_blocks)

end

section \<open>The samples are instances\<close>

interpretation lock_linuxeasy: spinlock globals_linuxeasy "''lock_val''" "''in_cs''"
  by unfold_locales (simp_all add: model_defs)

interpretation lock_mysql24: spinlock globals_mysql24 "''m_lock_word''" "''protected_data''"
  by unfold_locales (simp_all add: model_defs)

interpretation lock_xen11739: spinlock globals_xen11739 "''lock_cnts''" "''protected_data''"
  by unfold_locales (simp_all add: model_defs)

lemma thread_func_linuxeasy_eq:
  "thread_func_linuxeasy = cas_loop ''lock_val'' 0 1 memory_order_relaxed memory_order_relaxed
     (counting_section ''lock_val'' ''in_cs'')"
  by (simp add: thread_func_linuxeasy_def section_defs)

lemma thread_worker_mysql24_eq:
  "thread_worker_mysql24 = cas_loop ''m_lock_word'' 0 1 memory_order_relaxed memory_order_relaxed
     (updating_section ''m_lock_word'' ''protected_data'')"
  by (simp add: thread_worker_mysql24_def section_defs)

lemma threads_xen11739_eq:
  "thread_writer_xen11739 = cas_loop ''lock_cnts'' 0 1 memory_order_acquire memory_order_relaxed
     (writing_section ''lock_cnts'' ''protected_data'' 42)"
  "thread_reader_xen11739 = cas_loop ''lock_cnts'' 0 1 memory_order_acquire memory_order_relaxed
     (reading_section ''lock_cnts'' ''protected_data'' 42)"
  by (simp_all add: thread_writer_xen11739_def thread_reader_xen11739_def section_defs)

section \<open>Verdicts\<close>

lemma linuxeasy_safe: "safe M globals_linuxeasy main_linuxeasy"
  unfolding main_linuxeasy_def thread_func_linuxeasy_eq
  by (rule pso_verdict [OF lock_linuxeasy.counting_safe_pso]) simp

text \<open>
  C11. The Linux spinlock sample excludes the second thread on every machine: although the
  lock is taken and released without acquire or release semantics, the read-modify-writes of
  the critical section act on memory and are ordered before the unlocking store, so no thread
  ever finds \<open>in_cs\<close> raised.
\<close>

theorem linuxeasy_mutex: "safe M globals_linuxeasy main_linuxeasy"
  by (rule linuxeasy_safe)

text \<open>
  The MySQL mutex sample is correct exactly on SC and TSO: on x86 the unlocking exchange
  waits for the buffered stores of the critical section, on PSO the relaxed exchange overtakes
  them and the next owner reads the data in mid-update.
\<close>

theorem mysql24_bug: "safe M globals_mysql24 main_mysql24 \<longleftrightarrow> M \<le> TSO"
  unfolding main_mysql24_def thread_worker_mysql24_eq
  by (rule tso_verdict [OF lock_mysql24.updating_safe_tso lock_mysql24.updating_unsafe_pso]) simp

text \<open>
  The assertion of the Xen rwlock sample holds on every machine, PSO included, although
  the unlock lacks its barrier: it accepts the stale value 0 as well, so it cannot report the
  bug it is meant to capture.
\<close>

theorem xen11739_vacuous: "safe M globals_xen11739 main_xen11739"
  unfolding main_xen11739_def threads_xen11739_eq
  by (rule pso_verdict [OF lock_xen11739.reading_safe_pso]) simp

end
