(* ===== verification/Genmc_Logic.thy ===== *)
theory Genmc_Logic
  imports Litmus
begin

text \<open>
  The samples of \<open>GENMC&Nidhugg\<close> whose assertion can fail without any reordering: an
  unfortunate interleaving is enough. For each, a schedule of the sequentially consistent
  machine that ends in the failed assertion; by the inclusion of the models, the sample is
  unsafe on all of them.
\<close>

section \<open>The samples\<close>

subsection \<open>\<open>Layer1/mcs_genmc.c\<close>\<close>

text \<open>The flag is stored before the data: no reordering is needed.\<close>

definition globals_mcs :: "loc \<Rightarrow> c_int" where [model_defs]:
  "globals_mcs = (\<lambda>_. 0)(''tail'' := 0, ''prev_next'' := 0)"

definition thread_successor_mcs :: int_prog where [model_defs]:
  "thread_successor_mcs =
     atomic_store_explicit ''tail'' 1 memory_order_relaxed (
     atomic_store_explicit ''prev_next'' 1 memory_order_relaxed (
     return_NULL))"

definition thread_predecessor_mcs :: int_prog where [model_defs]:
  "thread_predecessor_mcs =
     atomic_load_explicit ''tail'' memory_order_relaxed (\<lambda>v.
     if v = 1 then
       atomic_load_explicit ''prev_next'' memory_order_relaxed (\<lambda>v2.
       c_assert (v2 = 1) return_NULL)
     else return_NULL)"

definition main_mcs :: int_prog where [model_defs]:
  "main_mcs = run_two thread_successor_mcs thread_predecessor_mcs (Return 0)"

lemma main_mcs_fails: "fails_by SC [Run 0, Run 0, Run 1, Run 2, Run 2] globals_mcs main_mcs"
  by code_simp

subsection \<open>\<open>Layer1/18-MariaDBEasy_genmc.c\<close>\<close>

text \<open>The key is cleared before the link, in the order the comment calls a reordering.\<close>

definition globals_mariadbeasy :: "loc \<Rightarrow> c_int" where [model_defs]:
  "globals_mariadbeasy = (\<lambda>_. 0)(''cursor_key'' := 1, ''cursor_link'' := 1)"

definition thread_l_delete_mariadbeasy :: int_prog where [model_defs]:
  "thread_l_delete_mariadbeasy =
     atomic_store_explicit ''cursor_key'' 0 memory_order_relaxed (
     atomic_store_explicit ''cursor_link'' 0 memory_order_relaxed (
     return_NULL))"

definition thread_l_find_mariadbeasy :: int_prog where [model_defs]:
  "thread_l_find_mariadbeasy =
     atomic_load_explicit ''cursor_key'' memory_order_relaxed (\<lambda>key.
     atomic_load_explicit ''cursor_link'' memory_order_relaxed (\<lambda>link.
     if link = 1 then
       c_assert (key = 1) return_NULL
     else return_NULL))"

definition main_mariadbeasy :: int_prog where [model_defs]:
  "main_mariadbeasy = run_two thread_l_delete_mariadbeasy thread_l_find_mariadbeasy (Return 0)"

lemma main_mariadbeasy_fails: "fails_by SC [Run 0, Run 0, Run 1, Run 2, Run 2] globals_mariadbeasy main_mariadbeasy"
  by code_simp

subsection \<open>\<open>Layer2/1-vlan-s_genmc.c\<close>\<close>

definition globals_vlan_s :: "loc \<Rightarrow> c_int" where [model_defs]:
  "globals_vlan_s = (\<lambda>_. 0)(''vlan_configured'' := 0, ''success_count'' := 0, ''error_count'' := 0)"

definition thread_vlan_vlan_s :: int_prog where [model_defs]:
  "thread_vlan_vlan_s =
     atomic_store_explicit ''vlan_configured'' 1 memory_order_relaxed (
     return_NULL)"

definition thread_hw_write_vlan_s :: int_prog where [model_defs]:
  "thread_hw_write_vlan_s =
     atomic_load_explicit ''vlan_configured'' memory_order_relaxed (\<lambda>conf.
     if conf \<noteq> 0 then
       atomic_fetch_add_explicit ''success_count'' 1 memory_order_relaxed (\<lambda>_.
       return_NULL)
     else
       atomic_fetch_add_explicit ''error_count'' 1 memory_order_relaxed (\<lambda>_.
       return_NULL))"

definition main_vlan_s :: int_prog where [model_defs]:
  "main_vlan_s =
     run_two thread_vlan_vlan_s thread_hw_write_vlan_s
     (atomic_load_explicit ''error_count'' memory_order_seq_cst (\<lambda>v.
     if signed_less 0 v then
       c_assert False (Return 0)
     else Return 0))"

lemma main_vlan_s_fails: "fails_by SC [Run 0, Run 0, Run 2, Run 2, Run 1, Run 0, Run 0, Run 0] globals_vlan_s main_vlan_s"
  by code_simp

subsection \<open>\<open>Layer2/11-gsm_genmc.c\<close>\<close>

definition globals_gsm :: "loc \<Rightarrow> c_int" where [model_defs]:
  "globals_gsm = (\<lambda>_. 0)(''ldisc_requested'' := 0, ''ldisc_active'' := 0)"

definition thread_ldisc_gsm :: int_prog where [model_defs]:
  "thread_ldisc_gsm =
     atomic_store_explicit ''ldisc_requested'' 1 memory_order_relaxed (
     atomic_store_explicit ''ldisc_active'' 1 memory_order_relaxed (
     return_NULL))"

definition thread_term_gsm :: int_prog where [model_defs]:
  "thread_term_gsm =
     atomic_load_explicit ''ldisc_requested'' memory_order_relaxed (\<lambda>req.
     atomic_load_explicit ''ldisc_active'' memory_order_relaxed (\<lambda>act.
     if req = 1 \<and> act = 0 then
       c_assert False return_NULL
     else return_NULL))"

definition main_gsm :: int_prog where [model_defs]:
  "main_gsm = run_two thread_ldisc_gsm thread_term_gsm (Return 0)"

lemma main_gsm_fails: "fails_by SC [Run 0, Run 0, Run 1, Run 2, Run 2] globals_gsm main_gsm"
  by code_simp

subsection \<open>\<open>Layer2/3-vmci_genmc.c\<close>\<close>

definition globals_vmci :: "loc \<Rightarrow> c_int" where [model_defs]:
  "globals_vmci = (\<lambda>_. 0)(''version_done'' := 0, ''context_done'' := 0)"

definition thread_vmci_vmci :: int_prog where [model_defs]:
  "thread_vmci_vmci =
     atomic_store_explicit ''version_done'' 1 memory_order_relaxed (
     atomic_store_explicit ''context_done'' 1 memory_order_relaxed (
     return_NULL))"

definition thread_epoll_vmci :: int_prog where [model_defs]:
  "thread_epoll_vmci =
     atomic_load_explicit ''version_done'' memory_order_relaxed (\<lambda>ver.
     atomic_load_explicit ''context_done'' memory_order_relaxed (\<lambda>ctx.
     if ver = 1 \<and> ctx = 0 then
       c_assert False return_NULL
     else return_NULL))"

definition main_vmci :: int_prog where [model_defs]:
  "main_vmci = run_two thread_vmci_vmci thread_epoll_vmci (Return 0)"

lemma main_vmci_fails: "fails_by SC [Run 0, Run 0, Run 1, Run 2, Run 2] globals_vmci main_vmci"
  by code_simp

subsection \<open>\<open>Layer2/3-xsk_genmc.c\<close>\<close>

definition globals_xsk3 :: "loc \<Rightarrow> c_int" where [model_defs]:
  "globals_xsk3 = (\<lambda>_. 0)(''refcnt'' := 1, ''valid'' := 1, ''error'' := 0)"

definition thread_mmap_xsk3 :: int_prog where [model_defs]:
  "thread_mmap_xsk3 =
     atomic_load_explicit ''valid'' memory_order_relaxed (\<lambda>v.
     if v \<noteq> 0 then
       atomic_fetch_add_explicit ''refcnt'' 1 memory_order_relaxed (\<lambda>_.
       return_NULL)
     else
       atomic_store_explicit ''error'' 1 memory_order_relaxed (
       return_NULL))"

definition thread_close_xsk3 :: int_prog where [model_defs]:
  "thread_close_xsk3 =
     atomic_store_explicit ''valid'' 0 memory_order_relaxed (
     atomic_fetch_sub_explicit ''refcnt'' 1 memory_order_relaxed (\<lambda>_.
     return_NULL))"

definition main_xsk3 :: int_prog where [model_defs]:
  "main_xsk3 =
     run_two thread_mmap_xsk3 thread_close_xsk3
     (atomic_load_explicit ''error'' memory_order_relaxed (\<lambda>v.
     if v \<noteq> 0 then
       c_assert False (Return 0)
     else Return 0))"

lemma main_xsk3_fails: "fails_by SC [Run 0, Run 0, Run 2, Run 1, Run 1, Run 2, Run 0, Run 0, Run 0] globals_xsk3 main_xsk3"
  by code_simp

subsection \<open>\<open>Layer2/4-xdp_genmc.c\<close>\<close>

definition globals_xdp :: "loc \<Rightarrow> c_int" where [model_defs]:
  "globals_xdp = (\<lambda>_. 0)(''prog_loaded'' := 0, ''tracepoint_attached'' := 0)"

definition thread_bpf_xdp :: int_prog where [model_defs]:
  "thread_bpf_xdp =
     atomic_store_explicit ''prog_loaded'' 1 memory_order_relaxed (
     atomic_store_explicit ''tracepoint_attached'' 1 memory_order_relaxed (
     return_NULL))"

definition thread_poll_xdp :: int_prog where [model_defs]:
  "thread_poll_xdp =
     atomic_load_explicit ''prog_loaded'' memory_order_relaxed (\<lambda>prog.
     atomic_load_explicit ''tracepoint_attached'' memory_order_relaxed (\<lambda>tp.
     if prog = 1 \<and> tp = 0 then
       c_assert False return_NULL
     else return_NULL))"

definition main_xdp :: int_prog where [model_defs]:
  "main_xdp = run_two thread_bpf_xdp thread_poll_xdp (Return 0)"

lemma main_xdp_fails: "fails_by SC [Run 0, Run 0, Run 1, Run 2, Run 2] globals_xdp main_xdp"
  by code_simp

subsection \<open>\<open>Layer2/4-xsk2_genmc.c\<close>\<close>

definition globals_xsk2 :: "loc \<Rightarrow> c_int" where [model_defs]:
  "globals_xsk2 = (\<lambda>_. 0)(''rx_ring'' := 0, ''fill_ring'' := 0, ''bound'' := 0)"

definition thread_setup_ring_xsk2 :: int_prog where [model_defs]:
  "thread_setup_ring_xsk2 =
     atomic_store_explicit ''rx_ring'' 1 memory_order_relaxed (
     atomic_store_explicit ''fill_ring'' 1 memory_order_relaxed (
     atomic_store_explicit ''bound'' 1 memory_order_relaxed (
     return_NULL)))"

definition thread_recv_xsk2 :: int_prog where [model_defs]:
  "thread_recv_xsk2 =
     atomic_load_explicit ''rx_ring'' memory_order_relaxed (\<lambda>rx.
     atomic_load_explicit ''fill_ring'' memory_order_relaxed (\<lambda>fill.
     atomic_load_explicit ''bound'' memory_order_relaxed (\<lambda>b.
     if rx = 1 \<and> (fill = 0 \<or> b = 0) then
       c_assert False return_NULL
     else return_NULL)))"

definition main_xsk2 :: int_prog where [model_defs]:
  "main_xsk2 = run_two thread_setup_ring_xsk2 thread_recv_xsk2 (Return 0)"

lemma main_xsk2_fails: "fails_by SC [Run 0, Run 0, Run 1, Run 2, Run 2, Run 2] globals_xsk2 main_xsk2"
  by code_simp

subsection \<open>\<open>Layer2/5-fs_genmc.c\<close>\<close>

definition globals_fs :: "loc \<Rightarrow> c_int" where [model_defs]:
  "globals_fs = (\<lambda>_. 0)(''fd_valid'' := 1, ''error'' := 0)"

definition thread_race_close_fs :: int_prog where [model_defs]:
  "thread_race_close_fs =
     atomic_store_explicit ''fd_valid'' 0 memory_order_relaxed (
     return_NULL)"

definition thread_race_fcntl_fs :: int_prog where [model_defs]:
  "thread_race_fcntl_fs =
     atomic_load_explicit ''fd_valid'' memory_order_relaxed (\<lambda>v.
     if v = 0 then
       atomic_store_explicit ''error'' 1 memory_order_relaxed (
       return_NULL)
     else return_NULL)"

definition main_fs :: int_prog where [model_defs]:
  "main_fs =
     run_two thread_race_close_fs thread_race_fcntl_fs
     (atomic_load_explicit ''error'' memory_order_relaxed (\<lambda>v.
     if v \<noteq> 0 then
       c_assert False (Return 0)
     else Return 0))"

lemma main_fs_fails: "fails_by SC [Run 0, Run 0, Run 1, Run 2, Run 2, Run 0, Run 0, Run 0] globals_fs main_fs"
  by code_simp

subsection \<open>\<open>Layer2/5-tls_genmc.c\<close>\<close>

definition globals_tls5 :: "loc \<Rightarrow> c_int" where [model_defs]:
  "globals_tls5 = (\<lambda>_. 0)(''tls_active'' := 0, ''io_setup_done'' := 0)"

definition thread_io_tls5 :: int_prog where [model_defs]:
  "thread_io_tls5 =
     atomic_store_explicit ''io_setup_done'' 1 memory_order_relaxed (
     atomic_load_explicit ''tls_active'' memory_order_relaxed (\<lambda>tls.
     if tls = 0 then
       atomic_load_explicit ''io_setup_done'' memory_order_seq_cst (\<lambda>v.
       if v \<noteq> 0 then
         c_assert False return_NULL
       else return_NULL)
     else return_NULL))"

definition thread_tls_tls5 :: int_prog where [model_defs]:
  "thread_tls_tls5 =
     atomic_store_explicit ''tls_active'' 1 memory_order_relaxed (
     return_NULL)"

definition main_tls5 :: int_prog where [model_defs]:
  "main_tls5 = run_two thread_io_tls5 thread_tls_tls5 (Return 0)"

lemma main_tls5_fails: "fails_by SC [Run 0, Run 0, Run 1, Run 1, Run 1] globals_tls5 main_tls5"
  by code_simp

subsection \<open>\<open>Layer2/6-bpf_genmc.c\<close>\<close>

definition globals_bpf :: "loc \<Rightarrow> c_int" where [model_defs]:
  "globals_bpf = (\<lambda>_. 0)(''map_created'' := 0, ''map_updated'' := 0)"

definition thread_bpf_bpf :: int_prog where [model_defs]:
  "thread_bpf_bpf =
     atomic_store_explicit ''map_created'' 1 memory_order_relaxed (
     atomic_store_explicit ''map_updated'' 1 memory_order_relaxed (
     return_NULL))"

definition thread_sock_bpf :: int_prog where [model_defs]:
  "thread_sock_bpf =
     atomic_load_explicit ''map_created'' memory_order_relaxed (\<lambda>created.
     atomic_load_explicit ''map_updated'' memory_order_relaxed (\<lambda>updated.
     if created = 1 \<and> updated = 0 then
       c_assert False return_NULL
     else return_NULL))"

definition main_bpf :: int_prog where [model_defs]:
  "main_bpf = run_two thread_bpf_bpf thread_sock_bpf (Return 0)"

lemma main_bpf_fails: "fails_by SC [Run 0, Run 0, Run 1, Run 2, Run 2] globals_bpf main_bpf"
  by code_simp

subsection \<open>\<open>Layer2/7-nbd_genmc.c\<close>\<close>

text \<open>The counting loop, \<open>EXPECTED_MSGS\<close> times.\<close>

definition globals_nbd :: "loc \<Rightarrow> c_int" where [model_defs]:
  "globals_nbd = (\<lambda>_. 0)(''msg_count'' := 0)"

definition EXPECTED_MSGS_nbd :: nat where [model_defs]:
  "EXPECTED_MSGS_nbd = 10"

definition thread_netlink_nbd :: int_prog where [model_defs]:
  "thread_netlink_nbd =
     for_times EXPECTED_MSGS_nbd
       (\<lambda>next. atomic_fetch_add_explicit ''msg_count'' 1 memory_order_relaxed (\<lambda>_. next))
     return_NULL"

definition thread_open_dev_nbd :: int_prog where [model_defs]:
  "thread_open_dev_nbd =
     atomic_load_explicit ''msg_count'' memory_order_relaxed (\<lambda>cnt.
     if signed_less cnt (of_nat EXPECTED_MSGS_nbd) then
       c_assert False return_NULL
     else return_NULL)"

definition main_nbd :: int_prog where [model_defs]:
  "main_nbd = run_two thread_netlink_nbd thread_open_dev_nbd (Return 0)"

lemma main_nbd_fails: "fails_by SC [Run 0, Run 0, Run 2] globals_nbd main_nbd"
  by code_simp

subsection \<open>\<open>Layer2/7-xdp2_genmc.c\<close>\<close>

definition globals_xdp2 :: "loc \<Rightarrow> c_int" where [model_defs]:
  "globals_xdp2 = (\<lambda>_. 0)(''bpf_loaded'' := 0, ''success_count'' := 0, ''error_count'' := 0)"

definition thread_bpf_xdp2 :: int_prog where [model_defs]:
  "thread_bpf_xdp2 =
     atomic_store_explicit ''bpf_loaded'' 1 memory_order_relaxed (
     return_NULL)"

definition thread_tx_ring_xdp2 :: int_prog where [model_defs]:
  "thread_tx_ring_xdp2 =
     atomic_load_explicit ''bpf_loaded'' memory_order_relaxed (\<lambda>loaded.
     if loaded \<noteq> 0 then
       atomic_fetch_add_explicit ''success_count'' 1 memory_order_relaxed (\<lambda>_.
       return_NULL)
     else
       atomic_fetch_add_explicit ''error_count'' 1 memory_order_relaxed (\<lambda>_.
       return_NULL))"

definition main_xdp2 :: int_prog where [model_defs]:
  "main_xdp2 =
     run_two thread_bpf_xdp2 thread_tx_ring_xdp2
     (atomic_load_explicit ''error_count'' memory_order_seq_cst (\<lambda>v.
     if signed_less 0 v then
       c_assert False (Return 0)
     else Return 0))"

lemma main_xdp2_fails: "fails_by SC [Run 0, Run 0, Run 2, Run 2, Run 1, Run 0, Run 0, Run 0] globals_xdp2 main_xdp2"
  by code_simp

subsection \<open>\<open>Layer2/9-tls2_genmc.c\<close>\<close>

definition globals_tls2 :: "loc \<Rightarrow> c_int" where [model_defs]:
  "globals_tls2 = (\<lambda>_. 0)(''repair_on'' := 0, ''repair_off'' := 0)"

definition thread_repair_connect_tls2 :: int_prog where [model_defs]:
  "thread_repair_connect_tls2 =
     atomic_store_explicit ''repair_on'' 1 memory_order_relaxed (
     atomic_store_explicit ''repair_off'' 1 memory_order_relaxed (
     return_NULL))"

definition thread_tls_md5_tls2 :: int_prog where [model_defs]:
  "thread_tls_md5_tls2 =
     atomic_load_explicit ''repair_on'' memory_order_relaxed (\<lambda>on.
     atomic_load_explicit ''repair_off'' memory_order_relaxed (\<lambda>off.
     if on = 1 \<and> off = 0 then
       c_assert False return_NULL
     else return_NULL))"

definition main_tls2 :: int_prog where [model_defs]:
  "main_tls2 = run_two thread_repair_connect_tls2 thread_tls_md5_tls2 (Return 0)"

lemma main_tls2_fails: "fails_by SC [Run 0, Run 0, Run 1, Run 2, Run 2] globals_tls2 main_tls2"
  by code_simp

subsection \<open>\<open>Layer2/9-unix-s_genmc.c\<close>\<close>

definition globals_unix_s :: "loc \<Rightarrow> c_int" where [model_defs]:
  "globals_unix_s = (\<lambda>_. 0)(''bind_done'' := 0, ''success_count'' := 0, ''error_count'' := 0)"

definition thread_0_unix_s :: int_prog where [model_defs]:
  "thread_0_unix_s =
     atomic_store_explicit ''bind_done'' 1 memory_order_relaxed (
     return_NULL)"

definition thread_1_unix_s :: int_prog where [model_defs]:
  "thread_1_unix_s =
     atomic_load_explicit ''bind_done'' memory_order_relaxed (\<lambda>done.
     if done \<noteq> 0 then
       atomic_fetch_add_explicit ''success_count'' 1 memory_order_relaxed (\<lambda>_.
       return_NULL)
     else
       atomic_fetch_add_explicit ''error_count'' 1 memory_order_relaxed (\<lambda>_.
       return_NULL))"

definition main_unix_s :: int_prog where [model_defs]:
  "main_unix_s =
     run_two thread_0_unix_s thread_1_unix_s
     (atomic_load_explicit ''error_count'' memory_order_seq_cst (\<lambda>v.
     if signed_less 0 v then
       c_assert False (Return 0)
     else Return 0))"

lemma main_unix_s_fails: "fails_by SC [Run 0, Run 0, Run 2, Run 2, Run 1, Run 0, Run 0, Run 0] globals_unix_s main_unix_s"
  by code_simp

subsection \<open>\<open>Layer2/9-unix_genmc.c\<close>\<close>

definition globals_unix :: "loc \<Rightarrow> c_int" where [model_defs]:
  "globals_unix = (\<lambda>_. 0)(''bound'' := 0, ''listening'' := 0)"

definition thread_setup_unix :: int_prog where [model_defs]:
  "thread_setup_unix =
     atomic_store_explicit ''bound'' 1 memory_order_relaxed (
     atomic_store_explicit ''listening'' 1 memory_order_relaxed (
     return_NULL))"

definition thread_weird_ioctl_unix :: int_prog where [model_defs]:
  "thread_weird_ioctl_unix =
     atomic_load_explicit ''bound'' memory_order_relaxed (\<lambda>b.
     atomic_load_explicit ''listening'' memory_order_relaxed (\<lambda>l.
     if b = 1 \<and> l = 0 then
       c_assert False return_NULL
     else return_NULL))"

definition main_unix :: int_prog where [model_defs]:
  "main_unix = run_two thread_setup_unix thread_weird_ioctl_unix (Return 0)"

lemma main_unix_fails: "fails_by SC [Run 0, Run 0, Run 1, Run 2, Run 2] globals_unix main_unix"
  by code_simp

subsection \<open>\<open>Layer2/tcve-2016-8655_genmc.c\<close>\<close>

definition globals_tcve2016 :: "loc \<Rightarrow> c_int" where [model_defs]:
  "globals_tcve2016 = (\<lambda>_. 0)(''step'' := 0, ''error'' := 0)"

definition thread_0_tcve2016 :: int_prog where [model_defs]:
  "thread_0_tcve2016 =
     atomic_store_explicit ''step'' 1 memory_order_relaxed (
     atomic_store_explicit ''step'' 2 memory_order_relaxed (
     atomic_store_explicit ''step'' 3 memory_order_relaxed (
     return_NULL)))"

definition thread_1_tcve2016 :: int_prog where [model_defs]:
  "thread_1_tcve2016 =
     atomic_load_explicit ''step'' memory_order_relaxed (\<lambda>s.
     if s = 2 then
       atomic_store_explicit ''error'' 1 memory_order_relaxed (
       return_NULL)
     else return_NULL)"

definition main_tcve2016 :: int_prog where [model_defs]:
  "main_tcve2016 =
     run_two thread_0_tcve2016 thread_1_tcve2016
     (atomic_load_explicit ''error'' memory_order_relaxed (\<lambda>v.
     if v \<noteq> 0 then
       c_assert False (Return 0)
     else Return 0))"

lemma main_tcve2016_fails: "fails_by SC [Run 0, Run 0, Run 1, Run 1, Run 2, Run 2, Run 1, Run 0, Run 0, Run 0] globals_tcve2016 main_tcve2016"
  by code_simp

subsection \<open>\<open>Layer2/tcve-2017-2636_genmc.c\<close>\<close>

definition globals_tcve2017 :: "loc \<Rightarrow> c_int" where [model_defs]:
  "globals_tcve2017 = (\<lambda>_. 0)(''ldisc_installed'' := 0, ''write_done'' := 0, ''flush_attempted'' := 0)"

definition thread_0_tcve2017 :: int_prog where [model_defs]:
  "thread_0_tcve2017 =
     atomic_store_explicit ''ldisc_installed'' 1 memory_order_relaxed (
     atomic_store_explicit ''write_done'' 1 memory_order_relaxed (
     return_NULL))"

definition thread_1_tcve2017 :: int_prog where [model_defs]:
  "thread_1_tcve2017 =
     atomic_load_explicit ''ldisc_installed'' memory_order_relaxed (\<lambda>installed.
     atomic_load_explicit ''write_done'' memory_order_relaxed (\<lambda>written.
     if installed \<noteq> 0 \<and> written = 0 then
       atomic_store_explicit ''flush_attempted'' 1 memory_order_relaxed (
       c_assert False return_NULL)
     else return_NULL))"

definition main_tcve2017 :: int_prog where [model_defs]:
  "main_tcve2017 = run_two thread_0_tcve2017 thread_1_tcve2017 (Return 0)"

lemma main_tcve2017_fails: "fails_by SC [Run 0, Run 0, Run 1, Run 2, Run 2, Run 2] globals_tcve2017 main_tcve2017"
  by code_simp

subsection \<open>\<open>Layer2/tcve-2018-12232_genmc.c\<close>\<close>

definition globals_tcve2018 :: "loc \<Rightarrow> c_int" where [model_defs]:
  "globals_tcve2018 = (\<lambda>_. 0)(''fchown_version'' := 0, ''dup3_version'' := 0)"

definition thread_0_tcve2018 :: int_prog where [model_defs]:
  "thread_0_tcve2018 =
     atomic_fetch_add_explicit ''fchown_version'' 1 memory_order_relaxed (\<lambda>_.
     return_NULL)"

definition thread_1_tcve2018 :: int_prog where [model_defs]:
  "thread_1_tcve2018 =
     atomic_load_explicit ''fchown_version'' memory_order_relaxed (\<lambda>fv.
     atomic_load_explicit ''dup3_version'' memory_order_relaxed (\<lambda>dv.
     if fv \<noteq> dv then
       if signed_less dv fv then
         c_assert False return_NULL
       else return_NULL
     else return_NULL))"

definition main_tcve2018 :: int_prog where [model_defs]:
  "main_tcve2018 = run_two thread_0_tcve2018 thread_1_tcve2018 (Return 0)"

lemma main_tcve2018_fails: "fails_by SC [Run 0, Run 0, Run 1, Run 2, Run 2] globals_tcve2018 main_tcve2018"
  by code_simp

subsection \<open>\<open>Layer2/tcve-2019-6974_genmc.c\<close>\<close>

definition globals_tcve2019 :: "loc \<Rightarrow> c_int" where [model_defs]:
  "globals_tcve2019 = (\<lambda>_. 0)(''refcnt'' := 1, ''free_count'' := 0)"

definition thread_0_tcve2019 :: int_prog where [model_defs]:
  "thread_0_tcve2019 =
     atomic_fetch_sub_explicit ''refcnt'' 1 memory_order_relaxed (\<lambda>r.
     if r = 1 then
       atomic_fetch_add_explicit ''free_count'' 1 memory_order_relaxed (\<lambda>_.
       return_NULL)
     else return_NULL)"

definition thread_1_tcve2019 :: int_prog where [model_defs]:
  "thread_1_tcve2019 =
     atomic_load_explicit ''refcnt'' memory_order_relaxed (\<lambda>r.
     if signed_le r 0 then
       atomic_fetch_add_explicit ''free_count'' 1 memory_order_relaxed (\<lambda>_.
       c_assert False return_NULL)
     else return_NULL)"

definition main_tcve2019 :: int_prog where [model_defs]:
  "main_tcve2019 =
     run_two thread_0_tcve2019 thread_1_tcve2019
     (atomic_load_explicit ''free_count'' memory_order_relaxed (\<lambda>fc.
     if signed_less 1 fc then
       c_assert False (Return 0)
     else Return 0))"

lemma main_tcve2019_fails: "fails_by SC [Run 0, Run 0, Run 1, Run 2, Run 2] globals_tcve2019 main_tcve2019"
  by code_simp

subsection \<open>\<open>Layer2/watchqueue_genmc.c\<close>\<close>

definition globals_watchqueue :: "loc \<Rightarrow> c_int" where [model_defs]:
  "globals_watchqueue = (\<lambda>_. 0)(''size_set'' := 0, ''queue_initialized'' := 0, ''watch_added'' := 0)"

definition thread_setup_watchqueue :: int_prog where [model_defs]:
  "thread_setup_watchqueue =
     atomic_store_explicit ''size_set'' 1 memory_order_relaxed (
     atomic_store_explicit ''queue_initialized'' 1 memory_order_relaxed (
     return_NULL))"

definition thread_watch_watchqueue :: int_prog where [model_defs]:
  "thread_watch_watchqueue =
     atomic_load_explicit ''size_set'' memory_order_relaxed (\<lambda>sz.
     atomic_load_explicit ''queue_initialized'' memory_order_relaxed (\<lambda>init.
     if sz = 1 \<and> init = 0 then
       atomic_store_explicit ''watch_added'' 1 memory_order_relaxed (
       c_assert False return_NULL)
     else return_NULL))"

definition main_watchqueue :: int_prog where [model_defs]:
  "main_watchqueue = run_two thread_setup_watchqueue thread_watch_watchqueue (Return 0)"

lemma main_watchqueue_fails: "fails_by SC [Run 0, Run 0, Run 1, Run 2, Run 2, Run 2] globals_watchqueue main_watchqueue"
  by code_simp

subsection \<open>\<open>Layer2/xsk_genmc.c\<close>\<close>

definition globals_xsk :: "loc \<Rightarrow> c_int" where [model_defs]:
  "globals_xsk = (\<lambda>_. 0)(''resource_valid'' := 1, ''mmap_used'' := 0, ''close_done'' := 0)"

definition thread_mmap_xsk :: int_prog where [model_defs]:
  "thread_mmap_xsk =
     atomic_load_explicit ''resource_valid'' memory_order_relaxed (\<lambda>v.
     if v \<noteq> 0 then
       atomic_store_explicit ''mmap_used'' 1 memory_order_relaxed (
       return_NULL)
     else c_assert False return_NULL)"

definition thread_close_xsk :: int_prog where [model_defs]:
  "thread_close_xsk =
     atomic_store_explicit ''resource_valid'' 0 memory_order_relaxed (
     atomic_store_explicit ''close_done'' 1 memory_order_relaxed (
     return_NULL))"

definition main_xsk :: int_prog where [model_defs]:
  "main_xsk =
     run_two thread_mmap_xsk thread_close_xsk
     (atomic_load_explicit ''close_done'' memory_order_relaxed (\<lambda>close.
     atomic_load_explicit ''mmap_used'' memory_order_relaxed (\<lambda>mmap.
     Return 0)))"

lemma main_xsk_fails: "fails_by SC [Run 0, Run 0, Run 2, Run 1] globals_xsk main_xsk"
  by code_simp

section \<open>The suite\<close>

definition logic_samples :: "((loc \<Rightarrow> c_int) \<times> int_prog) list" where
  "logic_samples = [
    (globals_mcs, main_mcs), (globals_mariadbeasy, main_mariadbeasy),
    (globals_vlan_s, main_vlan_s), (globals_gsm, main_gsm), (globals_vmci, main_vmci),
    (globals_xsk3, main_xsk3), (globals_xdp, main_xdp), (globals_xsk2, main_xsk2),
    (globals_fs, main_fs), (globals_tls5, main_tls5), (globals_bpf, main_bpf),
    (globals_nbd, main_nbd), (globals_xdp2, main_xdp2), (globals_tls2, main_tls2),
    (globals_unix_s, main_unix_s), (globals_unix, main_unix), (globals_tcve2016, main_tcve2016),
    (globals_tcve2017, main_tcve2017), (globals_tcve2018, main_tcve2018),
    (globals_tcve2019, main_tcve2019), (globals_watchqueue, main_watchqueue),
    (globals_xsk, main_xsk)]"

lemmas logic_failures =
  main_mcs_fails main_mariadbeasy_fails main_vlan_s_fails main_gsm_fails main_vmci_fails
  main_xsk3_fails main_xdp_fails main_xsk2_fails main_fs_fails main_tls5_fails main_bpf_fails
  main_nbd_fails main_xdp2_fails main_tls2_fails main_unix_s_fails main_unix_fails
  main_tcve2016_fails main_tcve2017_fails main_tcve2018_fails main_tcve2019_fails
  main_watchqueue_fails main_xsk_fails

text \<open>
  Each of these samples can fail its assertion on every memory model, the sequentially
  consistent one included: the bug is one of logic (a missing ordering between the threads),
  which no barrier repairs.
\<close>

theorem logic_bugs: "list_all (\<lambda>(m, p). \<forall>M. \<not> safe M m p) logic_samples"
  by (simp add: logic_samples_def logic_failures [THEN fails_by_unsafe, THEN logic_verdict])

section \<open>Samples that report through their exit code\<close>

text \<open>
  Two samples have no assertion: \<open>main\<close> prints a message and returns 1 if the operation ran
  before the configuration. The message itself is not modelled.
\<close>

definition may_exit :: "memory_model \<Rightarrow> ('l \<Rightarrow> 'v) \<Rightarrow> ('l, 'v) prog \<Rightarrow> int \<Rightarrow> bool" where
  "may_exit M m p n \<longleftrightarrow> (\<exists>c. (step M)\<^sup>*\<^sup>* (boot m p) c \<and> all_finished c \<and> code (threads c ! 0) = Return n)"

definition exits_by :: "memory_model \<Rightarrow> act list \<Rightarrow> ('l \<Rightarrow> 'v) \<Rightarrow> ('l, 'v) prog \<Rightarrow> int \<Rightarrow> bool" where
  "exits_by M as m p n = (case replay M as (boot m p) of None \<Rightarrow> False
     | Some c \<Rightarrow> all_finished c \<and> (case code (threads c ! 0) of Return k \<Rightarrow> k = n | _ \<Rightarrow> False))"

lemma exits_by_may_exit: "exits_by M as m p n \<Longrightarrow> may_exit M m p n"
  by (auto simp: exits_by_def may_exit_def dest: replay_reach split: option.splits prog.splits)

subsection \<open>\<open>Layer3/8-smc-high_genmc.c\<close>\<close>

definition globals_smc_high :: "loc \<Rightarrow> c_int" where [model_defs]:
  "globals_smc_high = (\<lambda>_. 0)(''smc_enabled'' := 0, ''success_count'' := 0, ''error_count'' := 0)"

definition thread_ulp_smc_high :: int_prog where [model_defs]:
  "thread_ulp_smc_high =
     atomic_store_explicit ''smc_enabled'' 1 memory_order_relaxed (
     return_NULL)"

definition thread_send_smc_high :: int_prog where [model_defs]:
  "thread_send_smc_high =
     atomic_load_explicit ''smc_enabled'' memory_order_relaxed (\<lambda>enabled.
     if enabled \<noteq> 0 then
       atomic_fetch_add_explicit ''success_count'' 1 memory_order_relaxed (\<lambda>_.
       return_NULL)
     else
       atomic_fetch_add_explicit ''error_count'' 1 memory_order_relaxed (\<lambda>_.
       return_NULL))"

definition main_smc_high :: int_prog where [model_defs]:
  "main_smc_high =
     run_two thread_ulp_smc_high thread_send_smc_high
     (atomic_load_explicit ''error_count'' memory_order_seq_cst (\<lambda>v.
     if signed_less 0 v then
       Return 1
     else Return 0))"

lemma main_smc_high_exits:
  "exits_by SC [Run 0, Run 0, Run 1, Run 2, Run 2, Run 0, Run 0, Run 0] globals_smc_high main_smc_high 0"
  "exits_by SC [Run 0, Run 0, Run 2, Run 2, Run 1, Run 0, Run 0, Run 0] globals_smc_high main_smc_high 1"
  by code_simp+

lemma main_smc_high_completes: "completes PSO 20 globals_smc_high main_smc_high"
  unfolding check_iff_completes [symmetric] by code_simp

subsection \<open>\<open>Layer3/8-tls-high_genmc.c\<close>\<close>

definition globals_tls_high :: "loc \<Rightarrow> c_int" where [model_defs]:
  "globals_tls_high = (\<lambda>_. 0)(''tls_enabled'' := 0, ''success_count'' := 0, ''error_count'' := 0)"

definition thread_tls_config_tls_high :: int_prog where [model_defs]:
  "thread_tls_config_tls_high =
     atomic_store_explicit ''tls_enabled'' 1 memory_order_relaxed (
     return_NULL)"

definition thread_io_tls_high :: int_prog where [model_defs]:
  "thread_io_tls_high =
     atomic_load_explicit ''tls_enabled'' memory_order_relaxed (\<lambda>enabled.
     if enabled \<noteq> 0 then
       atomic_fetch_add_explicit ''success_count'' 1 memory_order_relaxed (\<lambda>_.
       return_NULL)
     else
       atomic_fetch_add_explicit ''error_count'' 1 memory_order_relaxed (\<lambda>_.
       return_NULL))"

definition main_tls_high :: int_prog where [model_defs]:
  "main_tls_high =
     run_two thread_tls_config_tls_high thread_io_tls_high
     (atomic_load_explicit ''error_count'' memory_order_seq_cst (\<lambda>v.
     if signed_less 0 v then
       Return 1
     else Return 0))"

lemma main_tls_high_exits:
  "exits_by SC [Run 0, Run 0, Run 1, Run 2, Run 2, Run 0, Run 0, Run 0] globals_tls_high main_tls_high 0"
  "exits_by SC [Run 0, Run 0, Run 2, Run 2, Run 1, Run 0, Run 0, Run 0] globals_tls_high main_tls_high 1"
  by code_simp+

lemma main_tls_high_completes: "completes PSO 20 globals_tls_high main_tls_high"
  unfolding check_iff_completes [symmetric] by code_simp

text \<open>
  The two samples without an assertion always run to completion, even on PSO, and never
  report a failure to a model checker; but already under sequential consistency \<open>main\<close> can
  return both 0 and 1, the code that marks the bug.
\<close>

theorem exit_code_bugs:
  "list_all (\<lambda>(m, p). completes PSO 20 m p \<and> may_exit SC m p 0 \<and> may_exit SC m p 1)
     [(globals_smc_high, main_smc_high), (globals_tls_high, main_tls_high)]"
  by (simp add: main_smc_high_completes main_tls_high_completes
      main_smc_high_exits [THEN exits_by_may_exit] main_tls_high_exits [THEN exits_by_may_exit])

end
