(* ===== verification/Hardening.thy ===== *)
theory Hardening
  imports Memory_Models
begin

text \<open>
  The control run of the differential test: the script \<open>run_genmc_eval.sh\<close> replaces every
  \<open>memory_order_relaxed\<close> of a sample by \<open>memory_order_seq_cst\<close> and checks the result again. The
  replacement as a function on programs, and why its verdict is the verdict of the original
  under sequential consistency, whatever machine it is checked on.
\<close>

section \<open>The replacement\<close>

definition seq_cst_order :: "memory_order \<Rightarrow> memory_order" where
  "seq_cst_order mo = (if mo = memory_order_relaxed then memory_order_seq_cst else mo)"

primcorec harden :: "('l, 'v) prog \<Rightarrow> ('l, 'v) prog" where
  "harden p = (case p of
     Return n \<Rightarrow> Return n
   | Abort \<Rightarrow> Abort
   | Blocked \<Rightarrow> Blocked
   | Load mo l k \<Rightarrow> Load (seq_cst_order mo) l (\<lambda>v. harden (k v))
   | Store mo l v q \<Rightarrow> Store (seq_cst_order mo) l v (harden q)
   | Rmw mo l f k \<Rightarrow> Rmw (seq_cst_order mo) l f (\<lambda>v. harden (k v))
   | Fence mo q \<Rightarrow> Fence (seq_cst_order mo) (harden q)
   | Choose q r \<Rightarrow> Choose (harden q) (harden r)
   | Create q k \<Rightarrow> Create (harden q) (\<lambda>t. harden (k t))
   | Join t q \<Rightarrow> Join t (harden q))"

lemma harden_simps [simp]:
  "harden (Return n) = Return n" "harden Abort = Abort" "harden Blocked = Blocked"
  "harden (Load mo l k) = Load (seq_cst_order mo) l (\<lambda>v. harden (k v))"
  "harden (Store mo l v p) = Store (seq_cst_order mo) l v (harden p)"
  "harden (Rmw mo l f k) = Rmw (seq_cst_order mo) l f (\<lambda>v. harden (k v))"
  "harden (Fence mo p) = Fence (seq_cst_order mo) (harden p)"
  "harden (Choose p q) = Choose (harden p) (harden q)"
  "harden (Create p c) = Create (harden p) (\<lambda>t. harden (c t))"
  "harden (Join t p) = Join t (harden p)"
  by (subst harden.code; simp)+

lemma harden_if: "harden (if b then p else q) = (if b then harden p else harden q)"
  by simp

lemma returned_harden [simp]: "returned (harden p) \<longleftrightarrow> returned p"
  by (cases p) simp_all

lemma aborted_harden [simp]: "aborted (harden p) \<longleftrightarrow> aborted p"
  by (cases p) simp_all

section \<open>Memory orders do not matter under sequential consistency\<close>

definition harden_thread :: "('l, 'v) thread \<Rightarrow> ('l, 'v) thread" where
  "harden_thread t = t\<lparr>code := harden (code t)\<rparr>"

definition harden_config :: "('l, 'v) config \<Rightarrow> ('l, 'v) config" where
  "harden_config c = c\<lparr>threads := map harden_thread (threads c)\<rparr>"

lemma harden_thread_simps [simp]:
  "code (harden_thread t) = harden (code t)" "buf (harden_thread t) = buf t"
  "finished (harden_thread t) \<longleftrightarrow> finished t"
  "harden_thread (new_thread p) = new_thread (harden p)"
  "harden_thread \<lparr>code = p, buf = b\<rparr> = \<lparr>code = harden p, buf = b\<rparr>"
  by (simp_all add: harden_thread_def finished_def new_thread_def)

lemma harden_config_simps [simp]:
  "mem (harden_config c) = mem c" "threads (harden_config c) = map harden_thread (threads c)"
  "harden_config (c\<lparr>mem := m\<rparr>) = (harden_config c)\<lparr>mem := m\<rparr>"
  by (simp_all add: harden_config_def)

lemma harden_put: "harden_config (put i p b c) = put i (harden p) b (harden_config c)"
  by (simp add: harden_config_def put_def map_update)

lemma harden_boot: "harden_config (boot m p) = boot m (harden p)"
  by (simp add: harden_config_def boot_def)

lemma failed_harden: "failed (harden_config c) \<longleftrightarrow> failed c"
  by (simp add: failed_def list_ex_iff)

lemma sc_orders: "write_through SC mo" "barrier SC mo = []" "rmw_ready SC mo l []" "commits SC b = []"
  by (simp_all add: write_through_def barrier_def rmw_ready_def commits_def)

lemma run_thread_harden:
  assumes "i < length (threads c)" and "buf (threads c ! i) = []"
  shows "run_thread SC i (harden_config c) = map_option harden_config (run_thread SC i c)"
proof (cases "code (threads c ! i)")
  case (Create p k)
  then show ?thesis using assms
    by (simp add: run_thread_def harden_config_def map_update)
qed (use assms in \<open>auto simp: run_thread_def sc_orders harden_put\<close>)

lemma perform_harden:
  assumes "buffers_empty c"
  shows "perform SC a (harden_config c) = map_option harden_config (perform SC a c)"
proof (cases a)
  case (Run i)
  then show ?thesis using assms by (simp add: run_thread_harden buffers_empty_def)
next
  case (Alt i)
  show ?thesis
  proof (cases "i < length (threads c)")
    case True
    then show ?thesis using Alt
      by (cases "code (threads c ! i)") (simp_all add: alt_thread_def harden_put)
  qed (simp add: Alt)
next
  case (Commit i n)
  then show ?thesis by (simp add: commit_thread_def sc_orders)
qed

text \<open>Under sequential consistency buffers stay empty.\<close>

lemma step_sc_buffers: "step SC c c' \<Longrightarrow> buffers_empty c \<Longrightarrow> buffers_empty c'"
  using step_sc_tso by blast

interpretation hardened_sc: simulation "step SC" "step SC" "\<lambda>h c. h = harden_config c \<and> buffers_empty c"
proof
  fix h c h' :: "('l, 'v) config"
  assume "h = harden_config c \<and> buffers_empty c" and "step SC h h'"
  then show "\<exists>c'. (step SC)\<^sup>*\<^sup>* c c' \<and> h' = harden_config c' \<and> buffers_empty c'"
    by (auto simp: step_iff_perform perform_harden dest: perform_step step_sc_buffers)
qed

interpretation sc_hardened: simulation "step SC" "step SC" "\<lambda>c h. h = harden_config c \<and> buffers_empty c"
proof
  fix h c c' :: "('l, 'v) config"
  assume c: "h = harden_config c \<and> buffers_empty c" and s: "step SC c c'"
  from s obtain a where "perform SC a c = Some c'" by (auto simp: step_iff_perform)
  with c have "perform SC a h = Some (harden_config c')" by (simp add: perform_harden)
  with c s show "\<exists>h'. (step SC)\<^sup>*\<^sup>* h h' \<and> h' = harden_config c' \<and> buffers_empty c'"
    by (auto dest: perform_step step_sc_buffers)
qed

theorem safe_sc_harden: "safe SC m (harden p) \<longleftrightarrow> safe SC m p"
proof
  assume "safe SC m (harden p)"
  then show "safe SC m p" unfolding safe_def
    by (rule sc_hardened.always_transfer) (auto simp: harden_boot failed_harden)
next
  assume "safe SC m p"
  then show "safe SC m (harden p)" unfolding safe_def
    by (rule hardened_sc.always_transfer) (auto simp: harden_boot failed_harden)
qed

section \<open>Programs whose stores are sequentially consistent\<close>

text \<open>A \<open>strong\<close> program never has anything to put into a store buffer.\<close>

coinductive strong :: "('l, 'v) prog \<Rightarrow> bool" where
  strong_Return: "strong (Return n)"
| strong_Abort: "strong Abort"
| strong_Blocked: "strong Blocked"
| strong_Load: "(\<And>v. strong (k v)) \<Longrightarrow> strong (Load mo l k)"
| strong_Store: "strong p \<Longrightarrow> strong (Store memory_order_seq_cst l v p)"
| strong_Rmw: "(\<And>v. strong (k v)) \<Longrightarrow> strong (Rmw mo l f k)"
| strong_Fence: "strong p \<Longrightarrow> strong (Fence memory_order_seq_cst p)"
| strong_Choose: "strong p \<Longrightarrow> strong q \<Longrightarrow> strong (Choose p q)"
| strong_Create: "strong p \<Longrightarrow> (\<And>t. strong (c t)) \<Longrightarrow> strong (Create p c)"
| strong_Join: "strong p \<Longrightarrow> strong (Join t p)"

inductive_simps strong_simps [simp]:
  "strong (Return n)" "strong Abort" "strong Blocked" "strong (Load mo l k)"
  "strong (Store mo l v p)" "strong (Rmw mo l f k)" "strong (Fence mo p)"
  "strong (Choose p q)" "strong (Create p c)" "strong (Join t p)"

definition strong_config :: "('l, 'v) config \<Rightarrow> bool" where
  "strong_config c \<longleftrightarrow> buffers_empty c \<and> (\<forall>i<length (threads c). strong (code (threads c ! i)))"

lemma strong_config_boot [simp]: "strong_config (boot m p) \<longleftrightarrow> strong p"
  by (simp add: strong_config_def) (simp add: boot_def new_thread_def)

lemma strong_config_nth:
  assumes "strong_config c" "i < length (threads c)" "threads c ! i = \<lparr>code = p, buf = b\<rparr>"
  shows "strong p" and "b = []"
  using assms by (auto simp: strong_config_def dest: buffers_empty_nth)

lemma strong_config_put: "strong_config c \<Longrightarrow> strong p \<Longrightarrow> strong_config (put i p [] c)"
  by (auto simp: strong_config_def buffers_empty_put nth_list_update_within)

lemma strong_config_mem [simp]: "strong_config (c\<lparr>mem := m\<rparr>) \<longleftrightarrow> strong_config c"
  by (simp add: strong_config_def)

lemma strong_config_create:
  "strong_config c \<Longrightarrow> strong p \<Longrightarrow> strong q \<Longrightarrow>
   strong_config (c\<lparr>threads := (threads c)[i := new_thread p] @ [new_thread q]\<rparr>)"
  unfolding strong_config_def
  by (rule conjI, blast intro: buffers_empty_create)
    (auto simp: nth_append_last nth_list_update_within less_Suc_eq new_thread_def)

text \<open>On any machine, a step of a strong configuration is one of the sequentially consistent machine.\<close>

lemma strong_perform:
  assumes "strong_config c"
  shows "perform M a c = perform SC a c"
proof (cases a)
  case (Run i)
  show ?thesis
  proof (cases "i < length (threads c)")
    case True
    obtain p b where t: "threads c ! i = \<lparr>code = p, buf = b\<rparr>" by (metis thread_eta)
    note s = strong_config_nth [OF assms True t]
    then show ?thesis using Run True t
      by (cases p) (simp_all add: run_thread_def rmw_ready_def write_through_def)
  qed (simp add: Run)
next
  case (Commit i n)
  show ?thesis
  proof (cases "i < length (threads c)")
    case True
    then have "buf (threads c ! i) = []" using assms by (simp add: strong_config_def buffers_empty_def)
    then show ?thesis using Commit True
      by (cases M) (simp_all add: commit_thread_def commits_def)
  qed (simp add: Commit)
qed simp

lemma strong_step: "step SC c c' \<Longrightarrow> strong_config c \<Longrightarrow> strong_config c'"
  by (induction rule: step.induct; frule (2) strong_config_nth(1); frule (2) strong_config_nth(2))
    (simp_all add: sc_orders strong_config_put strong_config_create)

interpretation strong_sc: simulation "step M" "step SC" "\<lambda>c a. a = c \<and> strong_config c" for M
proof
  fix c a c' :: "('l, 'v) config"
  assume "a = c \<and> strong_config c" and "step M c c'"
  then show "\<exists>a'. (step SC)\<^sup>*\<^sup>* a a' \<and> a' = c' \<and> strong_config c'"
    using strong_perform [of c M] by (metis r_into_rtranclp step_iff_perform strong_step)
qed

theorem safe_strong: "strong p \<Longrightarrow> safe M m p \<longleftrightarrow> safe SC m p"
proof
  show "strong p \<Longrightarrow> safe SC m p \<Longrightarrow> safe M m p"
    unfolding safe_def by (rule strong_sc.always_transfer) auto
qed (rule safe_antimono, simp)

text \<open>The control run therefore decides whether the bug is one of logic.\<close>

lemma safe_harden: "strong (harden p) \<Longrightarrow> safe M m (harden p) \<longleftrightarrow> safe SC m p"
  by (simp add: safe_strong safe_sc_harden)

end
