(* ===== verification/Merging.thy ===== *)
theory Merging
  imports Spinning
begin

text \<open>
  Exploration that merges equal configurations. A program is a function, so two configurations
  cannot be compared for equality by evaluation; but a thread's code is determined by the path
  it has taken through the program text of \<open>main\<close>, which is a list of observations. The
  exploration carries the paths along and merges configurations that agree on paths, buffers
  and the memory that is written, layer by layer.
\<close>

section \<open>Layered exploration\<close>

text \<open>Keep one representative of each class of states that \<open>eq\<close> identifies.\<close>

fun representatives :: "('s \<Rightarrow> 's \<Rightarrow> bool) \<Rightarrow> 's list \<Rightarrow> 's list \<Rightarrow> 's list" where
  "representatives eq [] seen = []"
| "representatives eq (s # ss) seen =
     (if list_ex (eq s) seen then representatives eq ss seen
      else s # representatives eq ss (s # seen))"

lemma representatives_subset: "s \<in> set (representatives eq ss seen) \<Longrightarrow> s \<in> set ss"
  by (induction ss arbitrary: seen) (auto split: if_splits)

lemma representatives_cover:
  assumes "\<And>s t. s \<in> A \<Longrightarrow> t \<in> A \<Longrightarrow> eq s t \<Longrightarrow> s = t" "set ss \<subseteq> A" "set seen \<subseteq> A"
  shows "set ss \<subseteq> set (representatives eq ss seen) \<union> set seen"
  using assms(2,3)
proof (induction ss arbitrary: seen)
  case (Cons s ss)
  show ?case
  proof (cases "list_ex (eq s) seen")
    case True
    then have "s \<in> set seen" using Cons.prems assms(1) by (force simp: list_ex_iff)
    with True Cons show ?thesis by auto
  next
    case False
    with Cons.IH [of "s # seen"] Cons.prems show ?thesis by auto
  qed
qed simp

text \<open>All successors of a layer, unless some state of it is bad or wrongly stuck.\<close>

fun expand :: "('s \<Rightarrow> 's list) \<Rightarrow> ('s \<Rightarrow> bool) \<Rightarrow> ('s \<Rightarrow> bool) \<Rightarrow> 's list \<Rightarrow> 's list option" where
  "expand nexts ok fin [] = Some []"
| "expand nexts ok fin (s # F) =
     (if ok s then
        (case nexts s of
           [] \<Rightarrow> if fin s then expand nexts ok fin F else None
         | t # ts \<Rightarrow> (case expand nexts ok fin F of None \<Rightarrow> None | Some G \<Rightarrow> Some (t # ts @ G)))
      else None)"

lemma expand_Some:
  "expand nexts ok fin F = Some G \<longleftrightarrow>
     list_all (\<lambda>s. ok s \<and> (nexts s = [] \<longrightarrow> fin s)) F \<and> G = concat (map nexts F)"
proof (induction F arbitrary: G)
  case (Cons s F)
  show ?case
  proof (cases "expand nexts ok fin F")
    case None
    with Cons.IH [of "concat (map nexts F)"]
    have "\<not> list_all (\<lambda>s. ok s \<and> (nexts s = [] \<longrightarrow> fin s)) F" by simp
    with None show ?thesis by (simp split: list.split)
  next
    case (Some H)
    with Cons.IH [of H] show ?thesis by (cases "nexts s") auto
  qed
qed auto

fun layers ::
  "('s \<Rightarrow> 's list) \<Rightarrow> ('s \<Rightarrow> 's \<Rightarrow> bool) \<Rightarrow> ('s \<Rightarrow> bool) \<Rightarrow> ('s \<Rightarrow> bool) \<Rightarrow> nat \<Rightarrow> 's list \<Rightarrow> bool"
where
  "layers nexts eq ok fin 0 F = (F = [])"
| "layers nexts eq ok fin (Suc n) F =
     (case expand nexts ok fin F of
        None \<Rightarrow> False
      | Some G \<Rightarrow> layers nexts eq ok fin n (representatives eq G []))"

text \<open>
  The interface: a transition system with a test that identifies only equal states, as far as
  they satisfy an invariant of the system.
\<close>

locale mergeable =
  fixes nexts :: "'s \<Rightarrow> 's list" and eq :: "'s \<Rightarrow> 's \<Rightarrow> bool" and ok fin inv :: "'s \<Rightarrow> bool"
  assumes inv_nexts: "inv s \<Longrightarrow> ok s \<Longrightarrow> t \<in> set (nexts s) \<Longrightarrow> inv t"
    and eq_sound: "inv s \<Longrightarrow> inv t \<Longrightarrow> eq s t \<Longrightarrow> s = t"
begin

lemma layers_Suc:
  "layers nexts eq ok fin (Suc n) F \<longleftrightarrow>
     list_all (\<lambda>s. ok s \<and> (nexts s = [] \<longrightarrow> fin s)) F \<and>
     layers nexts eq ok fin n (representatives eq (concat (map nexts F)) [])"
proof (cases "expand nexts ok fin F")
  case None
  with expand_Some [of nexts ok fin F "concat (map nexts F)"] show ?thesis by simp
next
  case (Some G)
  with expand_Some [of nexts ok fin F G] show ?thesis by simp
qed

declare layers.simps(2) [simp del] layers_Suc [simp]

lemma layer_next:
  assumes "layers nexts eq ok fin (Suc n) F" "\<forall>s\<in>set F. inv s"
  shows "\<forall>t\<in>set (concat (map nexts F)). inv t"
    and "set (representatives eq (concat (map nexts F)) []) = set (concat (map nexts F))"
proof -
  show i: "\<forall>t\<in>set (concat (map nexts F)). inv t"
    using assms inv_nexts by (fastforce simp: list_all_iff)
  show "set (representatives eq (concat (map nexts F)) []) = set (concat (map nexts F))"
    using representatives_cover [of "{t. inv t}" eq "concat (map nexts F)" "[]"] i eq_sound
    by (auto dest: representatives_subset)
qed

theorem layers_sound:
  assumes "layers nexts eq ok fin n F" "\<forall>s\<in>set F. inv s" "s \<in> set F"
    and "((\<lambda>s t. t \<in> set (nexts s)) ^^ k) s t"
  shows "k < n \<and> inv t \<and> ok t \<and> (nexts t = [] \<longrightarrow> fin t)"
  using assms
proof (induction n arbitrary: k s F)
  case (Suc n)
  show ?case
  proof (cases k)
    case 0
    then show ?thesis using Suc.prems by (auto simp: list_all_iff)
  next
    case (Suc k')
    with Suc.prems(4) obtain u where u: "u \<in> set (nexts s)" "((\<lambda>s t. t \<in> set (nexts s)) ^^ k') u t"
      by (meson relpowp_Suc_D2)
    let ?G = "representatives eq (concat (map nexts F)) []"
    note l = layer_next [OF Suc.prems(1,2)]
    have "u \<in> set ?G" using l(2) u(1) Suc.prems(3) by auto
    moreover have "layers nexts eq ok fin n ?G" "\<forall>s\<in>set ?G. inv s" using Suc.prems(1) l by auto
    ultimately have "k' < n \<and> inv t \<and> ok t \<and> (nexts t = [] \<longrightarrow> fin t)" using Suc.IH u(2) by blast
    with Suc show ?thesis by simp
  qed
qed simp

end

section \<open>Paths through a program\<close>

text \<open>
  What a step shows of itself: the value read, the new thread's number, or only that it was
  taken. A created thread's path is its creator's, up to the creation.
\<close>

datatype 'v obs = Got 'v | Went | Other | Child | Tid nat

fun advance :: "('l, 'v) prog \<Rightarrow> 'v obs \<Rightarrow> ('l, 'v) prog" where
  "advance p (Got v) = (case p of Load mo l k \<Rightarrow> k v | Rmw mo l f k \<Rightarrow> k v | _ \<Rightarrow> p)"
| "advance p Went = (case p of Store mo l v q \<Rightarrow> q | Fence mo q \<Rightarrow> q | Choose q r \<Rightarrow> q | Join t q \<Rightarrow> q | _ \<Rightarrow> p)"
| "advance p Other = (case p of Choose q r \<Rightarrow> r | _ \<Rightarrow> p)"
| "advance p Child = (case p of Create q k \<Rightarrow> q | _ \<Rightarrow> p)"
| "advance p (Tid t) = (case p of Create q k \<Rightarrow> k t | _ \<Rightarrow> p)"

text \<open>
  A path has the last observation first; its length is kept with it, as a quick test that two
  paths differ.
\<close>

fun follow :: "('l, 'v) prog \<Rightarrow> 'v obs list \<Rightarrow> ('l, 'v) prog" where
  "follow p [] = p"
| "follow p (x # xs) = advance (follow p xs) x"

type_synonym 'v path = "nat \<times> 'v obs list"

definition extend :: "'v obs \<Rightarrow> 'v path \<Rightarrow> 'v path" where
  "extend x h = (case h of (n, xs) \<Rightarrow> (n + 1, x # xs))"

section \<open>A machine for evaluation\<close>

text \<open>
  The machine again, in a form that evaluates quickly: the memory is the list of the values of
  the objects \<open>ls\<close> that the program writes, a thread carries its path, and the steps of a
  thread are computed from its code by cases.
\<close>

type_synonym ('l, 'v) path_thread = "'v path \<times> ('l, 'v) prog \<times> ('l, 'v) buffer"
type_synonym ('l, 'v) path_state = "'v list \<times> ('l, 'v) path_thread list"

fun mem_get :: "('l \<Rightarrow> 'v) \<Rightarrow> 'l list \<Rightarrow> 'v list \<Rightarrow> 'l \<Rightarrow> 'v" where
  "mem_get m (x # xs) (v # vs) l = (if l = x then v else mem_get m xs vs l)"
| "mem_get m _ _ l = m l"

fun mem_put :: "'l list \<Rightarrow> 'v list \<Rightarrow> 'l \<Rightarrow> 'v \<Rightarrow> 'v list" where
  "mem_put (x # xs) (v # vs) l w = (if l = x then w # vs else v # mem_put xs vs l w)"
| "mem_put _ vs l w = vs"

lemma length_mem_put [simp]: "length (mem_put ls vs l w) = length vs"
  by (induction ls vs l w rule: mem_put.induct) auto

lemma mem_get_put:
  "length vs = length ls \<Longrightarrow> l \<in> set ls \<Longrightarrow> mem_get m ls (mem_put ls vs l w) = (mem_get m ls vs)(l := w)"
proof (rule ext)
  fix x
  show "length vs = length ls \<Longrightarrow> l \<in> set ls \<Longrightarrow>
    mem_get m ls (mem_put ls vs l w) x = ((mem_get m ls vs)(l := w)) x"
    by (induction ls vs l w rule: mem_put.induct) auto
qed

lemma mem_get_init: "mem_get m ls (map m ls) = m"
proof (rule ext)
  fix l show "mem_get m ls (map m ls) l = m l" by (induction ls) auto
qed

text \<open>The newest store to \<open>l\<close> in a buffer.\<close>

fun newest :: "('l, 'v) buffer \<Rightarrow> 'l \<Rightarrow> 'v option" where
  "newest [] l = None"
| "newest (e # b) l = (case newest b l of
     Some v \<Rightarrow> Some v
   | None \<Rightarrow> (case e of Pending mo l' v \<Rightarrow> if l = l' then Some v else None | Barrier \<Rightarrow> None))"

lemma view_by_newest: "view m b l = (case newest b l of Some v \<Rightarrow> v | None \<Rightarrow> m l)"
  by (induction b arbitrary: m) (auto split: option.splits entry.splits)

definition path_finished :: "('l, 'v) path_thread \<Rightarrow> bool" where
  "path_finished t = (case t of (h, p, b) \<Rightarrow> if b = [] then returned p else False)"

definition path_commit :: "'l list \<Rightarrow> 'v list \<Rightarrow> ('l, 'v) entry \<Rightarrow> 'v list" where
  "path_commit ls vs e = (case e of Pending mo l v \<Rightarrow> mem_put ls vs l v | Barrier \<Rightarrow> vs)"

text \<open>What one thread can do: the new memory, its new state, and the thread it creates.\<close>

definition thread_steps ::
  "memory_model \<Rightarrow> ('l \<Rightarrow> 'v) \<Rightarrow> 'l list \<Rightarrow> 'v list \<Rightarrow> ('l, 'v) path_thread list \<Rightarrow> ('l, 'v) path_thread
   \<Rightarrow> ('v list \<times> ('l, 'v) path_thread \<times> ('l, 'v) path_thread list) list" where
  "thread_steps M m ls vs ts t = (case t of (h, p, b) \<Rightarrow>
     (case p of
        Return n \<Rightarrow> []
      | Abort \<Rightarrow> []
      | Blocked \<Rightarrow> []
      | Load mo l k \<Rightarrow>
          (case (case newest b l of Some v \<Rightarrow> v | None \<Rightarrow> mem_get m ls vs l) of v \<Rightarrow>
             [(vs, (extend (Got v) h, k v, b), [])])
      | Store mo l v q \<Rightarrow>
          if write_through M mo
          then if M = SC \<or> b = [] then [(mem_put ls vs l v, (extend Went h, q, b), [])] else []
          else [(vs, (extend Went h, q, b @ barrier M mo @ [Pending mo l v]), [])]
      | Rmw mo l f k \<Rightarrow>
          if rmw_ready M mo l b
          then (case mem_get m ls vs l of v \<Rightarrow> [(mem_put ls vs l (f v), (extend (Got v) h, k v, b), [])])
          else []
      | Fence mo q \<Rightarrow>
          if mo = memory_order_seq_cst then if b = [] then [(vs, (extend Went h, q, []), [])] else []
          else [(vs, (extend Went h, q, b @ barrier M mo), [])]
      | Choose q r \<Rightarrow> [(vs, (extend Went h, q, b), []), (vs, (extend Other h, r, b), [])]
      | Create q k \<Rightarrow>
          if b = [] then [(vs, (extend (Tid (length ts)) h, k (length ts), []), [(extend Child h, q, [])])] else []
      | Join j q \<Rightarrow>
          if (if j < length ts then path_finished (ts ! j) else False)
          then [(vs, (extend Went h, q, b), [])] else [])
     @ map (\<lambda>(e, b'). (path_commit ls vs e, (h, p, b'), [])) (commits M b))"

fun sweep ::
  "memory_model \<Rightarrow> ('l \<Rightarrow> 'v) \<Rightarrow> 'l list \<Rightarrow> 'v list \<Rightarrow> ('l, 'v) path_thread list \<Rightarrow> ('l, 'v) path_thread list
   \<Rightarrow> ('l, 'v) path_thread list \<Rightarrow> ('l, 'v) path_state list" where
  "sweep M m ls vs ts pre [] = []"
| "sweep M m ls vs ts pre (t # post) =
     map (\<lambda>(vs', t', new). (vs', rev pre @ t' # post @ new)) (thread_steps M m ls vs ts t)
     @ sweep M m ls vs ts (t # pre) post"

definition path_succs :: "memory_model \<Rightarrow> ('l \<Rightarrow> 'v) \<Rightarrow> 'l list \<Rightarrow> ('l, 'v) path_state \<Rightarrow> ('l, 'v) path_state list" where
  "path_succs M m ls s = (case s of (vs, ts) \<Rightarrow> sweep M m ls vs ts [] ts)"

lemma map_steps_iff:
  "s \<in> set (map (\<lambda>(vs', t', new). f vs' t' new) xs) \<longleftrightarrow>
     (\<exists>vs' t' new. (vs', t', new) \<in> set xs \<and> s = f vs' t' new)"
  by force

lemma sweep_iff:
  "s \<in> set (sweep M m ls vs ts pre post) \<longleftrightarrow>
     (\<exists>i<length post. \<exists>vs' t' new. (vs', t', new) \<in> set (thread_steps M m ls vs ts (post ! i)) \<and>
        s = (vs', rev pre @ post[i := t'] @ new))"
proof (induction post arbitrary: pre)
  case (Cons t post)
  show ?case
    unfolding sweep.simps set_append Un_iff map_steps_iff Cons.IH length_Cons Ex_less_Suc2 by simp
qed simp

lemma path_succs_iff:
  "s \<in> set (path_succs M m ls (vs, ts)) \<longleftrightarrow>
     (\<exists>i<length ts. \<exists>vs' t' new. (vs', t', new) \<in> set (thread_steps M m ls vs ts (ts ! i)) \<and>
        s = (vs', ts[i := t'] @ new))"
  unfolding path_succs_def by (simp add: sweep_iff)

section \<open>It is the machine\<close>

definition plain_thread :: "('l, 'v) path_thread \<Rightarrow> ('l, 'v) thread" where
  "plain_thread t = (case t of (h, p, b) \<Rightarrow> \<lparr>code = p, buf = b\<rparr>)"

definition plain :: "('l \<Rightarrow> 'v) \<Rightarrow> 'l list \<Rightarrow> ('l, 'v) path_state \<Rightarrow> ('l, 'v) config" where
  "plain m ls s = \<lparr>mem = mem_get m ls (fst s), threads = map plain_thread (snd s)\<rparr>"

lemma plain_thread_simps [simp]:
  "plain_thread (h, p, b) = \<lparr>code = p, buf = b\<rparr>" "finished (plain_thread t) \<longleftrightarrow> path_finished t"
  by (cases t; simp add: plain_thread_def finished_def path_finished_def)+

lemma plain_update: "plain m ls (vs, ts[i := (h, p, b)]) = put i p b (plain m ls (vs, ts))"
  by (simp add: plain_def put_def map_update)

lemma plain_simps [simp]:
  "mem (plain m ls (vs, ts)) = mem_get m ls vs" "threads (plain m ls (vs, ts)) = map plain_thread ts"
  by (simp_all add: plain_def)

lemma plain_mem: "(plain m ls (vs, ts))\<lparr>mem := mem_get m ls vs'\<rparr> = plain m ls (vs', ts)"
  by (simp add: plain_def)

lemma plain_mem_put [simp]:
  "(put i p b (plain m ls (vs, ts)))\<lparr>mem := mem_get m ls vs'\<rparr> = put i p b (plain m ls (vs', ts))"
  by (simp add: plain_def put_def)

text \<open>The objects that the next steps of a state may write are among \<open>ls\<close>.\<close>

definition writes_code :: "'l list \<Rightarrow> ('l, 'v) prog \<Rightarrow> bool" where
  "writes_code ls p = (case p of
     Store mo l v q \<Rightarrow> list_ex (\<lambda>x. l = x) ls | Rmw mo l f k \<Rightarrow> list_ex (\<lambda>x. l = x) ls | _ \<Rightarrow> True)"

lemma writes_code_simps:
  "writes_code ls (Store mo l v q) \<longleftrightarrow> l \<in> set ls" "writes_code ls (Rmw mo l f k) \<longleftrightarrow> l \<in> set ls"
  by (auto simp: writes_code_def list_ex_iff)

definition writes_entry :: "'l list \<Rightarrow> ('l, 'v) entry \<Rightarrow> bool" where
  "writes_entry ls e = (case e of Pending mo l v \<Rightarrow> list_ex (\<lambda>x. l = x) ls | Barrier \<Rightarrow> True)"

lemma writes_entry_simps: "writes_entry ls (Pending mo l v) \<longleftrightarrow> l \<in> set ls"
  by (auto simp: writes_entry_def list_ex_iff)

definition writes_thread :: "'l list \<Rightarrow> ('l, 'v) path_thread \<Rightarrow> bool" where
  "writes_thread ls t = (case t of (h, p, b) \<Rightarrow> writes_code ls p \<and> list_all (writes_entry ls) b)"

lemma tso_commits_entry: "(e, b') \<in> set (tso_commits b) \<Longrightarrow> e \<in> set b"
  by (cases b) auto

lemma pso_commits_entry: "(e, b') \<in> set (pso_commits b) \<Longrightarrow> e \<in> set b"
  by (induction b arbitrary: b' rule: pso_commits.induct) auto

lemma commits_entry: "(e, b') \<in> set (commits M b) \<Longrightarrow> e \<in> set b"
  by (cases M) (auto simp: commits_def dest: tso_commits_entry pso_commits_entry)

lemma path_commit_plain:
  assumes "length vs = length ls" "writes_entry ls e"
  shows "mem_get m ls (path_commit ls vs e) = apply_entry e (mem_get m ls vs)"
  using assms by (cases e) (auto simp: path_commit_def writes_entry_simps mem_get_put)

lemma thread_steps_sound:
  assumes i: "i < length ts" and w: "length vs = length ls" "list_all (writes_thread ls) ts"
    and s: "(vs', t', new) \<in> set (thread_steps M m ls vs ts (ts ! i))"
  shows "step M (plain m ls (vs, ts)) (plain m ls (vs', ts[i := t'] @ new))"
proof -
  let ?c = "plain m ls (vs, ts)"
  obtain h p b where t: "ts ! i = (h, p, b)" by (metis surj_pair)
  have i': "i < length (threads ?c)" and t': "threads ?c ! i = \<lparr>code = p, buf = b\<rparr>" using i t by simp_all
  have wt: "writes_code ls p" "list_all (writes_entry ls) b"
    using w(2) i t by (auto simp: list_all_length writes_thread_def)
  consider (commit) e b' where "(e, b') \<in> set (commits M b)" "vs' = path_commit ls vs e" "t' = (h, p, b')" "new = []"
    | (own) "(vs', t', new) \<in> set (thread_steps M m ls vs ts (h, p, b))"
        "(vs', t', new) \<notin> set (map (\<lambda>(e, b'). (path_commit ls vs e, (h, p, b'), [])) (commits M b))"
    using s t by fastforce
  then show ?thesis
  proof cases
    case commit
    then have e: "writes_entry ls e" using wt(2) commits_entry by (fastforce simp: list_all_iff)
    from step_commit [OF i' t' commit(1)] show ?thesis
      by (simp add: commit path_commit_plain [OF w(1) e, symmetric] plain_update)
  next
    case own
    show ?thesis
    proof (cases p)
      case (Load mo l k)
      with own step_load [OF i' t' [unfolded Load], of M] show ?thesis
        by (auto simp: thread_steps_def view_by_newest plain_update)
    next
      case (Store mo l v q)
      with wt have "l \<in> set ls" by (simp add: writes_code_simps)
      with own Store step_write [OF i' t' [unfolded Store], of M] step_enqueue [OF i' t' [unfolded Store], of M]
      show ?thesis
        by (auto simp: thread_steps_def mem_get_put [OF w(1), symmetric] plain_update
            split: if_splits)
    next
      case (Rmw mo l f k)
      with wt have "l \<in> set ls" by (simp add: writes_code_simps)
      with own Rmw step_rmw [OF i' t' [unfolded Rmw], of M] show ?thesis
        by (auto simp: thread_steps_def mem_get_put [OF w(1), symmetric] plain_update
            split: if_splits)
    next
      case (Fence mo q)
      with own step_full_fence [of i ?c q M] step_fence [OF i' t' [unfolded Fence], of M] i' t' show ?thesis
        by (auto simp: thread_steps_def plain_update split: if_splits)
    next
      case (Choose q r)
      with own step_left [OF i' t' [unfolded Choose], of M] step_right [OF i' t' [unfolded Choose], of M]
      show ?thesis by (auto simp: thread_steps_def plain_update)
    next
      case (Create q k)
      with own step_create [of i ?c q k M] i' t' show ?thesis
        by (auto simp: thread_steps_def plain_def map_update new_thread_def split: if_splits)
    next
      case (Join j q)
      with own step_join [OF i' t' [unfolded Join], of M] show ?thesis
        by (auto simp: thread_steps_def plain_update split: if_splits)
    qed (use own in \<open>auto simp: thread_steps_def\<close>)
  qed
qed

lemma plain_nth:
  assumes "i < length (threads (plain m ls (vs, ts)))" "threads (plain m ls (vs, ts)) ! i = \<lparr>code = p, buf = b\<rparr>"
  obtains h where "i < length ts" "ts ! i = (h, p, b)"
  using assms by (cases "ts ! i") auto

lemma thread_steps_complete:
  assumes s: "step M (plain m ls (vs, ts)) c'"
    and w: "length vs = length ls" "list_all (writes_thread ls) ts"
  shows "\<exists>i<length ts. \<exists>vs' t' new. (vs', t', new) \<in> set (thread_steps M m ls vs ts (ts ! i)) \<and>
    c' = plain m ls (vs', ts[i := t'] @ new)"
proof -
  let ?c = "plain m ls (vs, ts)"
  have wt: "writes_code ls p \<and> list_all (writes_entry ls) b" if "i < length ts" "ts ! i = (h, p, b)" for i h p b
    using w(2) that by (auto simp: list_all_length writes_thread_def)
  have found: ?thesis if "i < length ts" "(vs', t', []) \<in> set (thread_steps M m ls vs ts (ts ! i))"
    "c' = plain m ls (vs', ts[i := t'])" for i vs' t'
    using that by (metis append_Nil2)
  from s show ?thesis
  proof cases
    case (step_load i mo l k b)
    then obtain h where "i < length ts" "ts ! i = (h, Load mo l k, b)" by (blast elim: plain_nth)
    with step_load show ?thesis
      by (intro found [of i vs "(extend (Got (view (mem ?c) b l)) h, k (view (mem ?c) b l), b)"])
        (simp_all add: thread_steps_def view_by_newest plain_update)
  next
    case (step_write i mo l v p b)
    then obtain h where t: "i < length ts" "ts ! i = (h, Store mo l v p, b)" by (blast elim: plain_nth)
    with wt have "l \<in> set ls" by (fastforce simp: writes_code_simps)
    with t step_write show ?thesis
      by (intro found [of i "mem_put ls vs l v" "(extend Went h, p, b)"])
        (auto simp: thread_steps_def mem_get_put [OF w(1), symmetric] plain_update)
  next
    case (step_enqueue i mo l v p b)
    then obtain h where "i < length ts" "ts ! i = (h, Store mo l v p, b)" by (blast elim: plain_nth)
    with step_enqueue show ?thesis
      by (intro found [of i vs "(extend Went h, p, b @ barrier M mo @ [Pending mo l v])"])
        (simp_all add: thread_steps_def plain_update)
  next
    case (step_rmw i mo l f k b)
    then obtain h where t: "i < length ts" "ts ! i = (h, Rmw mo l f k, b)" by (blast elim: plain_nth)
    with wt have "l \<in> set ls" by (fastforce simp: writes_code_simps)
    with t step_rmw show ?thesis
      by (intro found [of i "mem_put ls vs l (f (mem ?c l))" "(extend (Got (mem ?c l)) h, k (mem ?c l), b)"])
        (simp_all add: thread_steps_def mem_get_put [OF w(1), symmetric] plain_update)
  next
    case (step_full_fence i p)
    then obtain h where "i < length ts" "ts ! i = (h, Fence memory_order_seq_cst p, [])" by (blast elim: plain_nth)
    with step_full_fence show ?thesis
      by (intro found [of i vs "(extend Went h, p, [])"]) (simp_all add: thread_steps_def plain_update)
  next
    case (step_fence i mo p b)
    then obtain h where "i < length ts" "ts ! i = (h, Fence mo p, b)" by (blast elim: plain_nth)
    with step_fence show ?thesis
      by (intro found [of i vs "(extend Went h, p, b @ barrier M mo)"]) (simp_all add: thread_steps_def plain_update)
  next
    case (step_left i p q b)
    then obtain h where "i < length ts" "ts ! i = (h, Choose p q, b)" by (blast elim: plain_nth)
    with step_left show ?thesis
      by (intro found [of i vs "(extend Went h, p, b)"]) (simp_all add: thread_steps_def plain_update)
  next
    case (step_right i p q b)
    then obtain h where "i < length ts" "ts ! i = (h, Choose p q, b)" by (blast elim: plain_nth)
    with step_right show ?thesis
      by (intro found [of i vs "(extend Other h, q, b)"]) (simp_all add: thread_steps_def plain_update)
  next
    case (step_create i p k)
    then obtain h where t: "i < length ts" "ts ! i = (h, Create p k, [])" by (blast elim: plain_nth)
    then have "(vs, (extend (Tid (length ts)) h, k (length ts), []), [(extend Child h, p, [])])
        \<in> set (thread_steps M m ls vs ts (ts ! i))"
      by (simp add: thread_steps_def)
    moreover have "c' = plain m ls (vs, ts[i := (extend (Tid (length ts)) h, k (length ts), [])] @ [(extend Child h, p, [])])"
      using step_create by (simp add: plain_def map_update new_thread_def)
    ultimately show ?thesis using t(1) by blast
  next
    case (step_join i j p b)
    then obtain h where "i < length ts" "ts ! i = (h, Join j p, b)" by (blast elim: plain_nth)
    with step_join show ?thesis
      by (intro found [of i vs "(extend Went h, p, b)"]) (simp_all add: thread_steps_def plain_update)
  next
    case (step_commit i p b e b')
    then obtain h where t: "i < length ts" "ts ! i = (h, p, b)" by (blast elim: plain_nth)
    with wt step_commit have "writes_entry ls e" by (fastforce simp: list_all_iff dest: commits_entry)
    from path_commit_plain [OF w(1) this] step_commit t show ?thesis
      by (intro found [of i "path_commit ls vs e" "(h, p, b')"])
        (auto simp: thread_steps_def plain_update image_iff intro!: bexI [of _ "(e, b')"])
  qed
qed

lemma all_finished_stuck: "all_finished c \<Longrightarrow> \<not> step M c c'"
proof
  assume f: "all_finished c" and "step M c c'"
  have t: "returned p \<and> b = []" if "i < length (threads c)" "threads c ! i = \<lparr>code = p, buf = b\<rparr>" for i p b
    using f that by (auto simp: all_finished_def list_all_length finished_def)
  from \<open>step M c c'\<close> show False
  proof cases
    case (step_commit i p b e b')
    with t have "b = []" by blast
    with step_commit commits_entry show ?thesis by fastforce
  qed (auto dest: t)
qed

section \<open>Merging exploration\<close>

text \<open>Comparison of states by memory, paths and buffers, stopping at the first difference.\<close>

fun same_list :: "('a \<Rightarrow> 'a \<Rightarrow> bool) \<Rightarrow> 'a list \<Rightarrow> 'a list \<Rightarrow> bool" where
  "same_list eq [] [] = True"
| "same_list eq (x # xs) (y # ys) = (if eq x y then same_list eq xs ys else False)"
| "same_list eq _ _ = False"

lemma same_list_iff: "same_list eq xs ys \<longleftrightarrow> list_all2 eq xs ys"
  by (induction eq xs ys rule: same_list.induct) auto

definition same_thread :: "('l, 'v) path_thread \<Rightarrow> ('l, 'v) path_thread \<Rightarrow> bool" where
  "same_thread t u = (case t of (h, p, b) \<Rightarrow> case u of (h', p', b') \<Rightarrow>
     if fst h = fst h' then if same_list (=) (snd h) (snd h') then same_list (=) b b' else False
     else False)"

definition same_state :: "('l, 'v) path_state \<Rightarrow> ('l, 'v) path_state \<Rightarrow> bool" where
  "same_state s t = (case s of (vs, ts) \<Rightarrow> case t of (vs', ts') \<Rightarrow>
     if same_list (\<lambda>t u. fst (fst t) = fst (fst u)) ts ts'
     then if same_list (=) vs vs' then same_list same_thread ts ts' else False
     else False)"

definition on_path :: "('l, 'v) prog \<Rightarrow> ('l, 'v) path_thread \<Rightarrow> bool" where
  "on_path p0 t \<longleftrightarrow> follow p0 (snd (fst t)) = fst (snd t)"

definition path_inv :: "('l, 'v) prog \<Rightarrow> 'l list \<Rightarrow> ('l, 'v) path_state \<Rightarrow> bool" where
  "path_inv p0 ls s \<longleftrightarrow> length (fst s) = length ls \<and> list_all (on_path p0) (snd s)"

lemma same_thread_sound: "same_thread t u \<Longrightarrow> on_path p0 t \<Longrightarrow> on_path p0 u \<Longrightarrow> t = u"
  by (auto simp: same_thread_def same_list_iff on_path_def list.rel_eq prod_eq_iff split: prod.splits if_splits)

lemma same_state_sound:
  assumes "path_inv p0 ls s" "path_inv p0 ls t" "same_state s t"
  shows "s = t"
proof -
  obtain vs ts vs' ts' where st: "s = (vs, ts)" "t = (vs', ts')" by (metis surj_pair)
  with assms(3) have "vs = vs'" and a: "list_all2 same_thread ts ts'"
    by (auto simp: same_state_def same_list_iff list.rel_eq split: if_splits)
  from st assms(1,2) have "list_all (on_path p0) ts" "list_all (on_path p0) ts'"
    by (simp_all add: path_inv_def)
  with a have "ts = ts'"
  proof (induction rule: list_all2_induct)
    case (Cons t ts u us)
    then show ?case using same_thread_sound [of t u] by simp
  qed simp
  with \<open>vs = vs'\<close> st show ?thesis by simp
qed

lemma thread_steps_path:
  assumes "(vs', t', new) \<in> set (thread_steps M m ls vs ts t)" "on_path p0 t" "length vs = length ls"
  shows "length vs' = length ls \<and> on_path p0 t' \<and> list_all (on_path p0) new"
proof -
  obtain h p b where "t = (h, p, b)" by (metis surj_pair)
  with assms show ?thesis
    by (cases p) (auto simp: thread_steps_def path_commit_def on_path_def extend_def
        split: if_splits entry.splits prod.splits)
qed

lemma path_inv_succs:
  assumes "path_inv p0 ls s" "t \<in> set (path_succs M m ls s)"
  shows "path_inv p0 ls t"
proof -
  obtain vs ts where s: "s = (vs, ts)" by (metis surj_pair)
  with assms(2) obtain i vs' t' new where i: "i < length ts"
    and n: "(vs', t', new) \<in> set (thread_steps M m ls vs ts (ts ! i))" and t: "t = (vs', ts[i := t'] @ new)"
    by (auto simp: path_succs_iff)
  from assms(1) s have ts: "length vs = length ls" "list_all (on_path p0) ts" by (simp_all add: path_inv_def)
  with i have "on_path p0 (ts ! i)" by (simp add: list_all_length)
  from thread_steps_path [OF n this ts(1)] ts(2) t show ?thesis
    by (auto simp: path_inv_def list_all_iff dest: set_update_subset_insert [THEN subsetD])
qed

text \<open>
  The exploration of \<open>p\<close>: \<open>ls\<close> lists the objects it writes, \<open>fin\<close> is what has to hold of the
  threads where nothing more can happen.
\<close>

definition path_ok :: "'l list \<Rightarrow> ('l, 'v) path_state \<Rightarrow> bool" where
  "path_ok ls s \<longleftrightarrow> list_all (\<lambda>t. writes_thread ls t \<and> \<not> aborted (fst (snd t))) (snd s)"

definition explore_merging ::
  "(('l, 'v) path_thread list \<Rightarrow> bool) \<Rightarrow> memory_model \<Rightarrow> 'l list \<Rightarrow> nat \<Rightarrow> ('l \<Rightarrow> 'v) \<Rightarrow> ('l, 'v) prog \<Rightarrow> bool" where
  "explore_merging fin M ls n m p =
     layers (path_succs M m ls) same_state (path_ok ls) (\<lambda>s. fin (snd s)) n [(map m ls, [((0, []), p, [])])]"

interpretation path: mergeable "path_succs M m ls" same_state "path_ok ls" "\<lambda>s. fin (snd s)" "path_inv p0 ls"
  for M m ls and fin :: "('l, 'v) path_thread list \<Rightarrow> bool" and p0
  by unfold_locales (blast intro: path_inv_succs, blast intro: same_state_sound)

lemma path_step:
  assumes "path_inv p0 ls s" "path_ok ls s"
  shows "step M (plain m ls s) c' \<longleftrightarrow> (\<exists>t\<in>set (path_succs M m ls s). c' = plain m ls t)"
proof -
  obtain vs ts where s: "s = (vs, ts)" by (metis surj_pair)
  with assms have w: "length vs = length ls" "list_all (writes_thread ls) ts"
    by (auto simp: path_inv_def path_ok_def list_all_iff)
  from thread_steps_complete [OF _ w] thread_steps_sound [OF _ w] show ?thesis
    unfolding s by (fastforce simp: path_succs_iff)
qed

lemma path_failed: "path_ok ls s \<Longrightarrow> \<not> failed (plain m ls s)"
  by (auto simp: path_ok_def plain_def failed_def list_ex_iff list_all_iff plain_thread_def split: prod.splits)

lemma plain_boot: "plain m ls (map m ls, [((0, []), p, [])]) = boot m p"
  by (simp add: plain_def mem_get_init boot_def new_thread_def)

lemma explore_merging_steps:
  assumes e: "explore_merging fin M ls n m p" and s: "(step M ^^ k) (boot m p) c"
  shows "\<exists>t. c = plain m ls t \<and> k < n \<and> path_inv p ls t \<and> path_ok ls t \<and>
    (path_succs M m ls t = [] \<longrightarrow> fin (snd t))"
proof -
  let ?R = "\<lambda>s t. t \<in> set (path_succs M m ls s)" and ?s0 = "(map m ls, [((0, []), p, [])])"
  have i: "\<forall>s\<in>set [?s0]. path_inv p ls s" by (simp add: path_inv_def on_path_def)
  note sound = path.layers_sound [OF e [unfolded explore_merging_def] i]
  have "\<exists>t. c = plain m ls t \<and> (?R ^^ k) ?s0 t"
    using s
  proof (induction k arbitrary: c)
    case 0
    then show ?case by (metis plain_boot relpowp_0_E relpowp_0_I)
  next
    case (Suc k)
    then obtain d u where d: "step M d c" "d = plain m ls u" "(?R ^^ k) ?s0 u" by (metis relpowp_Suc_E)
    have "path_inv p ls u" "path_ok ls u" using sound [OF _ d(3)] by simp_all
    from path_step [OF this] d(1,2) obtain t where "t \<in> set (path_succs M m ls u)" "c = plain m ls t"
      by blast
    with relpowp_Suc_I [OF d(3)] show ?case by blast
  qed
  then obtain t where t: "c = plain m ls t" "(?R ^^ k) ?s0 t" by blast
  have "k < n \<and> path_inv p ls t \<and> path_ok ls t \<and> (path_succs M m ls t = [] \<longrightarrow> fin (snd t))"
    by (rule sound [OF _ t(2)]) simp
  with t(1) show ?thesis by blast
qed

text \<open>Where nothing more can happen all threads have returned: the program always completes.\<close>

theorem explore_merging_completes:
  assumes "explore_merging (list_all path_finished) M ls n m p"
  shows "completes M n m p"
proof -
  have "k < n \<and> \<not> failed c \<and> ((\<exists>c'. step M c c') \<or> all_finished c)"
    if "(step M ^^ k) (boot m p) c" for k c
  proof -
    from explore_merging_steps [OF assms that] obtain t where t: "c = plain m ls t" "k < n"
      "path_inv p ls t" "path_ok ls t" "path_succs M m ls t = [] \<longrightarrow> list_all path_finished (snd t)"
      by blast
    then show ?thesis
      using path_step [OF t(3,4), of M m] path_failed [OF t(4), of m]
      by (cases "path_succs M m ls t") (auto simp: all_finished_def plain_def list_all_iff)
  qed
  then show ?thesis unfolding completes_def always_def by (metis rtranclp_imp_relpowp)
qed

theorem explore_merging_safe:
  assumes "explore_merging fin M ls n m p"
  shows "safe M m p"
  using explore_merging_steps [OF assms] path_failed unfolding safe_def always_def
  by (metis rtranclp_imp_relpowp)

text \<open>Where nothing more can happen some thread is stuck: the program never completes.\<close>

definition never_completes :: "memory_model \<Rightarrow> ('l \<Rightarrow> 'v) \<Rightarrow> ('l, 'v) prog \<Rightarrow> bool" where
  "never_completes M m p \<longleftrightarrow> always (step M) (boot m p) (\<lambda>c. \<not> all_finished c)"

theorem explore_merging_stuck:
  assumes "explore_merging (\<lambda>ts. \<not> list_all path_finished ts) M ls n m p"
  shows "never_completes M m p"
  unfolding never_completes_def
proof (rule alwaysI)
  fix c assume "(step M)\<^sup>*\<^sup>* (boot m p) c"
  then obtain k where "(step M ^^ k) (boot m p) c" by (metis rtranclp_imp_relpowp)
  from explore_merging_steps [OF assms this] obtain t where t: "c = plain m ls t"
      "path_inv p ls t" "path_ok ls t" "path_succs M m ls t = [] \<longrightarrow> \<not> list_all path_finished (snd t)"
    by blast
  show "\<not> all_finished c"
  proof
    assume f: "all_finished c"
    have "path_succs M m ls t = []"
    proof (rule ccontr)
      assume "path_succs M m ls t \<noteq> []"
      then obtain u where "u \<in> set (path_succs M m ls t)" by (meson list.set_sel(1))
      then have "step M c (plain m ls u)" using path_step [OF t(2,3)] t(1) by blast
      with f show False by (simp add: all_finished_stuck)
    qed
    with t f show False by (auto simp: all_finished_def plain_def list_all_iff)
  qed
qed

text \<open>The stronger model has fewer executions; a complete one, as a schedule, refutes it.\<close>

lemma never_completes_sc: "never_completes TSO m p \<Longrightarrow> never_completes SC m p"
  unfolding never_completes_def by (rule sc_tso.always_transfer) auto

definition completes_by :: "memory_model \<Rightarrow> act list \<Rightarrow> ('l \<Rightarrow> 'v) \<Rightarrow> ('l, 'v) prog \<Rightarrow> bool" where
  "completes_by M as m p = (case replay M as (boot m p) of None \<Rightarrow> False | Some c \<Rightarrow> all_finished c)"

lemma completes_by_may: "completes_by M as m p \<Longrightarrow> \<not> never_completes M m p"
  by (auto simp: completes_by_def never_completes_def always_def dest: replay_reach split: option.splits)

end
