(* ===== verification/Pointers.thy ===== *)
theory Pointers
  imports C11_Programs
begin

text \<open>
  Samples with pointers: an object is a variable or a field of a structure, a value is an
  integer, the null pointer or the address of a structure. The identifiers are those of the
  samples; the local variable of a thread function is one object per thread.
\<close>

datatype ident =
  cs_id | tail_id | next_id | locked_id | my_lock_id | global_lock_id | dummy_node_id
| mynode1_id | mynode2_id | node1_id | node2_id | save_me1_id | save_me2_id
| current_pos_id | point_id | x_id | y_id | init_flag_id | package_table_id | dummy_id

datatype obj = Var ident | Field ident ident

datatype c_value = IntV c_int | Null | Addr ident

type_synonym ptr_prog = "(obj, c_value) prog"

text \<open>Dereferencing anything but the address of an object is a fault, counted as a failure.\<close>

definition deref :: "c_value \<Rightarrow> (ident \<Rightarrow> ptr_prog) \<Rightarrow> ptr_prog" where
  "deref p k = (case p of Addr s \<Rightarrow> k s | Null \<Rightarrow> Abort | IntV n \<Rightarrow> Abort)"

lemma deref_simps [simp]: "deref (Addr s) k = k s" "deref Null k = Abort" "deref (IntV n) k = Abort"
  by (simp_all add: deref_def)

text \<open>Arithmetic is on integers only.\<close>

definition plus_int :: "c_value \<Rightarrow> c_int \<Rightarrow> c_value" where
  "plus_int v n = (case v of IntV k \<Rightarrow> IntV (k + n) | Null \<Rightarrow> Null | Addr s \<Rightarrow> Addr s)"

lemma plus_int_simps [simp]: "plus_int (IntV k) n = IntV (k + n)"
  by (simp add: plus_int_def)

end
