(* ===== verification/Genmc_Silent.thy ===== *)
theory Genmc_Silent
  imports Merging Pointers
begin

text \<open>
  The five samples of \<open>GENMC&Nidhugg/Layer1\<close> whose assertions, if they have any, cannot detect
  the bug that they are about: two publications of a structure whose reader asserts nothing, the
  queue of the DPDK lock, the CLH lock, and the buffer pool of OpenBLAS.
\<close>

section \<open>\<open>unsafe_publish_genmc.c\<close>\<close>

datatype publish_obj = p_x | p_y | current_pos

definition globals_publish :: "publish_obj \<Rightarrow> c_int" where [model_defs]:
  "globals_publish = (\<lambda>_. 0)"

definition thread_writer_publish :: "(publish_obj, c_int) prog" where [model_defs]:
  "thread_writer_publish =
     assign p_x 42 (
     assign p_y 43 (
     atomic_store_explicit current_pos 1 memory_order_relaxed return_NULL))"

definition thread_reader_publish :: "(publish_obj, c_int) prog" where [model_defs]:
  "thread_reader_publish =
     atomic_load_explicit current_pos memory_order_relaxed (\<lambda>pos.
     if pos = 1 then
       fetch p_x (\<lambda>read_x.
       fetch p_y (\<lambda>read_y. return_NULL))
     else return_NULL)"

definition main_publish :: "(publish_obj, c_int) prog" where [model_defs]:
  "main_publish = run_two thread_writer_publish thread_reader_publish (Return 0)"

section \<open>\<open>5-StackOverFlowEasy_genmc.c\<close>\<close>

definition globals_point :: "obj \<Rightarrow> c_value" where [model_defs]:
  "globals_point = (\<lambda>_. IntV 0)(Var current_pos_id := Null)"

definition writer_thread_point :: ptr_prog where [model_defs]:
  "writer_thread_point =
     assign (Field point_id x_id) (IntV 1) (
     assign (Field point_id y_id) (IntV 2) (
     atomic_store_explicit (Var current_pos_id) (Addr point_id) memory_order_relaxed return_NULL))"

definition reader_thread_point :: ptr_prog where [model_defs]:
  "reader_thread_point =
     atomic_load_explicit (Var current_pos_id) memory_order_relaxed (\<lambda>p.
     if p \<noteq> Null then
       deref p (\<lambda>s.
       fetch (Field s x_id) (\<lambda>val_x.
       fetch (Field s y_id) (\<lambda>val_y. return_NULL)))
     else return_NULL)"

definition main_point :: ptr_prog where [model_defs]:
  "main_point = run_two writer_thread_point reader_thread_point (Return 0)"

section \<open>\<open>2-DPDK_genmc.c\<close>\<close>

definition globals_dpdk2 :: "obj \<Rightarrow> c_value" where [model_defs]:
  "globals_dpdk2 = (\<lambda>_. IntV 0)(Var tail_id := Null, Field node1_id next_id := Null, Field node2_id next_id := Null)"

definition thread_1_dpdk2 :: ptr_prog where [model_defs]:
  "thread_1_dpdk2 =
     atomic_store_explicit (Field node1_id next_id) Null memory_order_relaxed (
     atomic_store_explicit (Field node1_id locked_id) (IntV 1) memory_order_relaxed (
     atomic_exchange_explicit (Var tail_id) (Addr node1_id) memory_order_relaxed (\<lambda>prev.
     if prev \<noteq> Null then
       deref prev (\<lambda>s.
       atomic_store_explicit (Field s next_id) (Addr node1_id) memory_order_relaxed return_NULL)
     else return_NULL)))"

definition thread_2_dpdk2 :: ptr_prog where [model_defs]:
  "thread_2_dpdk2 =
     atomic_store_explicit (Field node2_id next_id) Null memory_order_relaxed (
     atomic_store_explicit (Field node2_id locked_id) (IntV 1) memory_order_relaxed (
     atomic_exchange_explicit (Var tail_id) (Addr node2_id) memory_order_relaxed (\<lambda>prev.
     if prev \<noteq> Null then
       deref prev (\<lambda>s.
       atomic_store_explicit (Field s next_id) (Addr node2_id) memory_order_relaxed (
       atomic_load_explicit (Field node1_id next_id) memory_order_relaxed (\<lambda>check_next.
       return_NULL)))
     else return_NULL)))"

definition main_dpdk2 :: ptr_prog where [model_defs]:
  "main_dpdk2 = run_two thread_1_dpdk2 thread_2_dpdk2 (Return 0)"

section \<open>\<open>3-sel4_genmc.c\<close>\<close>

text \<open>The objects: the elements of the array \<open>nodes_locked\<close> and two variables; thread numbers are 1 and 2.\<close>

datatype sel4_obj = nodes_locked c_int | lock_tail | in_cs

definition globals_sel4 :: "sel4_obj \<Rightarrow> c_int" where [model_defs]:
  "globals_sel4 = (\<lambda>_. 0)"

definition thread_clh_sel4 :: "c_int \<Rightarrow> (sel4_obj, c_int) prog" where [model_defs]:
  "thread_clh_sel4 me =
     atomic_store_explicit (nodes_locked me) 1 memory_order_relaxed (
     atomic_exchange_explicit lock_tail me memory_order_acquire (\<lambda>pred.
     let unlock = atomic_store_explicit (nodes_locked me) 0 memory_order_release return_NULL in
     if pred \<noteq> 0 then
       atomic_load_explicit (nodes_locked pred) memory_order_relaxed (\<lambda>locked.
       if locked = 0 then
         atomic_fetch_add_explicit in_cs 1 memory_order_relaxed (\<lambda>cs.
         c_assert (cs = 0)
           (atomic_fetch_sub_explicit in_cs 1 memory_order_relaxed (\<lambda>_. unlock)))
       else unlock)
     else unlock))"

definition main_sel4 :: "(sel4_obj, c_int) prog" where [model_defs]:
  "main_sel4 =
     atomic_store_explicit (nodes_locked 1) 0 memory_order_relaxed (
     atomic_store_explicit (nodes_locked 2) 0 memory_order_relaxed (
     run_two (thread_clh_sel4 1) (thread_clh_sel4 2) (Return 0)))"

section \<open>\<open>7-OpenBLAS_genmc.c\<close>\<close>

datatype blas_obj = memory_pool nat

definition globals_blas :: "blas_obj \<Rightarrow> c_int" where [model_defs]:
  "globals_blas = (\<lambda>_. 0)"

text \<open>The search, from the index given in the list of those that are left.\<close>

primrec allocate_blas :: "nat list \<Rightarrow> (blas_obj, c_int) prog" where
  "allocate_blas [] = return_NULL"
| "allocate_blas (i # is) =
     atomic_load_explicit (memory_pool i) memory_order_relaxed (\<lambda>state.
     if state = 0 then
       atomic_store_explicit (memory_pool i) 1 memory_order_relaxed (
       atomic_load_explicit (memory_pool i) memory_order_relaxed (\<lambda>now.
       c_assert (now = 1) return_NULL))
     else allocate_blas is)"

definition thread_allocate_blas :: "(blas_obj, c_int) prog" where [model_defs]:
  "thread_allocate_blas = allocate_blas [0, 1]"

definition main_blas :: "(blas_obj, c_int) prog" where [model_defs]:
  "main_blas =
     atomic_store_explicit (memory_pool 0) 0 memory_order_relaxed (
     atomic_store_explicit (memory_pool 1) 0 memory_order_relaxed (
     run_two thread_allocate_blas thread_allocate_blas (Return 0)))"

section \<open>The samples with an assertion\<close>

text \<open>
  To say that a sample has its bug although it cannot report it, an assertion is added that does:
  that the reader has read what was published; that the load at the end of the second thread of
  the DPDK queue, which the sample makes for this purpose and does not use, finds a successor;
  that the thread which finds the CLH lock free is in the critical section too.
\<close>

definition checked_publish :: "(publish_obj, c_int) prog" where [model_defs]:
  "checked_publish = run_two thread_writer_publish
     (atomic_load_explicit current_pos memory_order_relaxed (\<lambda>pos.
      if pos = 1 then
        fetch p_x (\<lambda>read_x.
        fetch p_y (\<lambda>read_y. c_assert (read_x = 42 \<and> read_y = 43) return_NULL))
      else return_NULL)) (Return 0)"

definition checked_point :: ptr_prog where [model_defs]:
  "checked_point = run_two writer_thread_point
     (atomic_load_explicit (Var current_pos_id) memory_order_relaxed (\<lambda>p.
      if p \<noteq> Null then
        deref p (\<lambda>s.
        fetch (Field s x_id) (\<lambda>val_x.
        fetch (Field s y_id) (\<lambda>val_y. c_assert (val_x = IntV 1 \<and> val_y = IntV 2) return_NULL)))
      else return_NULL)) (Return 0)"

definition checked_dpdk2 :: ptr_prog where [model_defs]:
  "checked_dpdk2 = run_two thread_1_dpdk2
     (atomic_store_explicit (Field node2_id next_id) Null memory_order_relaxed (
      atomic_store_explicit (Field node2_id locked_id) (IntV 1) memory_order_relaxed (
      atomic_exchange_explicit (Var tail_id) (Addr node2_id) memory_order_relaxed (\<lambda>prev.
      if prev \<noteq> Null then
        deref prev (\<lambda>s.
        atomic_store_explicit (Field s next_id) (Addr node2_id) memory_order_relaxed (
        atomic_load_explicit (Field node1_id next_id) memory_order_relaxed (\<lambda>check_next.
        c_assert (check_next \<noteq> Null) return_NULL)))
      else return_NULL)))) (Return 0)"

definition checked_clh_sel4 :: "c_int \<Rightarrow> (sel4_obj, c_int) prog" where [model_defs]:
  "checked_clh_sel4 me =
     atomic_store_explicit (nodes_locked me) 1 memory_order_relaxed (
     atomic_exchange_explicit lock_tail me memory_order_acquire (\<lambda>pred.
     let unlock = atomic_store_explicit (nodes_locked me) 0 memory_order_release return_NULL;
         critical = atomic_fetch_add_explicit in_cs 1 memory_order_relaxed (\<lambda>cs.
           c_assert (cs = 0) (atomic_fetch_sub_explicit in_cs 1 memory_order_relaxed (\<lambda>_. unlock))) in
     if pred \<noteq> 0 then
       atomic_load_explicit (nodes_locked pred) memory_order_relaxed (\<lambda>locked.
       if locked = 0 then critical else unlock)
     else critical))"

definition checked_sel4 :: "(sel4_obj, c_int) prog" where [model_defs]:
  "checked_sel4 =
     atomic_store_explicit (nodes_locked 1) 0 memory_order_relaxed (
     atomic_store_explicit (nodes_locked 2) 0 memory_order_relaxed (
     run_two (checked_clh_sel4 1) (checked_clh_sel4 2) (Return 0)))"

section \<open>Verdicts\<close>

lemma main_publish_completes: "completes PSO 20 globals_publish main_publish"
  by (rule explore_merging_completes [of _ "[p_x, p_y, current_pos]"]) code_simp

lemma main_point_completes: "completes PSO 20 globals_point main_point"
  by (rule explore_merging_completes [of _ "[Field point_id x_id, Field point_id y_id, Var current_pos_id]"]) code_simp

lemma main_blas_completes: "completes PSO 40 globals_blas main_blas"
  by (rule explore_merging_completes [of _ "[memory_pool 0, memory_pool 1]"]) code_simp

lemma main_dpdk2_completes: "completes PSO 40 globals_dpdk2 main_dpdk2"
  by (rule explore_merging_completes [of _ "[Field node1_id next_id, Field node1_id locked_id,
      Field node2_id next_id, Field node2_id locked_id, Var tail_id]"]) code_simp

lemma main_sel4_completes: "completes PSO 50 globals_sel4 main_sel4"
  by (rule explore_merging_completes [of _ "[nodes_locked 0, nodes_locked 1, nodes_locked 2, lock_tail, in_cs]"]) code_simp

lemma silent_safe:
  "safe M globals_publish main_publish" "safe M globals_point main_point" "safe M globals_blas main_blas"
  "safe M globals_dpdk2 main_dpdk2" "safe M globals_sel4 main_sel4"
  by (rule pso_verdict, rule completes_safe, rule main_publish_completes main_point_completes main_blas_completes
      main_dpdk2_completes main_sel4_completes)+

lemma checked_publish_tso: "safe TSO globals_publish checked_publish"
  by (rule explore_merging_safe [of "list_all path_finished" _ "[p_x, p_y, current_pos]" 30]) code_simp

lemma checked_publish_pso: "\<not> safe PSO globals_publish checked_publish"
  by (rule fails_by_unsafe [of _ "[Run 0, Run 0, Run 1, Run 1, Run 1, Commit 1 2, Run 2, Run 2, Run 2]"]) code_simp

lemma checked_point_tso: "safe TSO globals_point checked_point"
  by (rule explore_merging_safe [of "list_all path_finished" _
      "[Field point_id x_id, Field point_id y_id, Var current_pos_id]" 30]) code_simp

lemma checked_point_pso: "\<not> safe PSO globals_point checked_point"
  by (rule fails_by_unsafe [of _ "[Run 0, Run 0, Run 1, Run 1, Run 1, Commit 1 2, Run 2, Run 2, Run 2]"]) code_simp

lemma checked_dpdk2_tso: "safe TSO globals_dpdk2 checked_dpdk2"
  by (rule explore_merging_safe [of "list_all path_finished" _ "[Field node1_id next_id, Field node1_id locked_id,
      Field node2_id next_id, Field node2_id locked_id, Var tail_id]" 40]) code_simp

lemma checked_dpdk2_pso: "\<not> safe PSO globals_dpdk2 checked_dpdk2"
  by (rule fails_by_unsafe [of _ "[Run 0, Run 0, Run 1, Run 1, Run 1, Run 2, Run 2, Run 2, Run 2, Commit 2 2,
      Commit 1 0, Run 2]"]) code_simp

lemma checked_sel4_tso: "safe TSO globals_sel4 checked_sel4"
  by (rule explore_merging_safe [of "list_all path_finished" _
      "[nodes_locked 0, nodes_locked 1, nodes_locked 2, lock_tail, in_cs]" 50]) code_simp

lemma checked_sel4_pso: "\<not> safe PSO globals_sel4 checked_sel4"
  by (rule fails_by_unsafe [of _ "[Run 0, Run 0, Commit 0 0, Commit 0 0, Run 0, Run 0, Run 1, Run 1, Run 1,
      Run 2, Run 2, Run 2, Run 2]"]) code_simp

lemmas checked_verdicts =
  tso_verdict [OF checked_publish_tso checked_publish_pso] tso_verdict [OF checked_point_tso checked_point_pso]
  tso_verdict [OF checked_dpdk2_tso checked_dpdk2_pso] tso_verdict [OF checked_sel4_tso checked_sel4_pso]

text \<open>A thread that has taken buffer \<open>i\<close>: it is about to assert that the buffer is marked.\<close>

definition has_taken :: "nat \<Rightarrow> (blas_obj, c_int) prog \<Rightarrow> bool" where
  "has_taken i p \<longleftrightarrow> (case p of Load mo l k \<Rightarrow> l = memory_pool i \<and> aborted (k 0) | _ \<Rightarrow> False)"

lemma both_take:
  "case replay SC [Run 0, Run 0, Run 0, Run 0, Run 1, Run 2, Run 1, Run 2] (boot globals_blas main_blas) of
     None \<Rightarrow> False
   | Some c \<Rightarrow> has_taken 0 (code (threads c ! 1)) \<and> has_taken 0 (code (threads c ! 2))"
  by code_simp

lemma replayed: "(case replay M as (boot m p) of None \<Rightarrow> False | Some c \<Rightarrow> P c) \<Longrightarrow>
    \<exists>c. (step M)\<^sup>*\<^sup>* (boot m p) c \<and> P c"
  using replay_reach [of M as "boot m p"] by (auto split: option.splits)

section \<open>Data races\<close>

text \<open>
  Two of the samples have plain accesses, and what a tool can report of them is a data race: a
  thread has a store that is not yet in memory, in its buffer or as its next operation, while
  another one is about to access the same object, and one of the two accesses is not atomic.
\<close>

definition stores_of :: "('l, 'v) thread \<Rightarrow> ('l \<times> memory_order) list" where
  "stores_of t = List.map_filter (\<lambda>e. case e of Pending mo l v \<Rightarrow> Some (l, mo) | Barrier \<Rightarrow> None) (buf t) @
     (case code t of Store mo l v p \<Rightarrow> [(l, mo)] | Rmw mo l f k \<Rightarrow> [(l, mo)] | _ \<Rightarrow> [])"

definition next_access :: "('l, 'v) thread \<Rightarrow> ('l \<times> memory_order) list" where
  "next_access t = (case code t of Load mo l k \<Rightarrow> [(l, mo)] | Store mo l v p \<Rightarrow> [(l, mo)]
     | Rmw mo l f k \<Rightarrow> [(l, mo)] | _ \<Rightarrow> [])"

definition conflict :: "('l, 'v) thread \<Rightarrow> ('l, 'v) thread \<Rightarrow> bool" where
  "conflict t u \<longleftrightarrow> list_ex (\<lambda>(l, mo). list_ex (\<lambda>(l', mo'). l = l' \<and> (mo = non_atomic \<or> mo' = non_atomic)) (next_access u))
     (stores_of t)"

definition data_race :: "('l, 'v) config \<Rightarrow> bool" where
  "data_race c \<longleftrightarrow> list_ex (\<lambda>i. list_ex (\<lambda>j. i \<noteq> j \<and> conflict (threads c ! i) (threads c ! j)) [0..<length (threads c)])
     [0..<length (threads c)]"

definition race_reachable :: "memory_model \<Rightarrow> ('l \<Rightarrow> 'v) \<Rightarrow> ('l, 'v) prog \<Rightarrow> bool" where
  "race_reachable M m p \<longleftrightarrow> (\<exists>c. (step M)\<^sup>*\<^sup>* (boot m p) c \<and> data_race c)"

lemma race_free:
  assumes "explore (succs M) (\<lambda>c. \<not> data_race c) (\<lambda>_. True) n (boot m p)"
  shows "\<not> race_reachable M m p"
  using alwaysD [OF machine.explore_always [OF assms]] unfolding race_reachable_def by blast

lemma main_publish_race:
  "case replay PSO [Run 0, Run 0, Run 1, Run 1, Run 1, Commit 1 2, Run 2] (boot globals_publish main_publish) of
     None \<Rightarrow> False | Some c \<Rightarrow> data_race c"
  by code_simp

lemma main_point_race:
  "case replay PSO [Run 0, Run 0, Run 1, Run 1, Run 1, Commit 1 2, Run 2] (boot globals_point main_point) of
     None \<Rightarrow> False | Some c \<Rightarrow> data_race c"
  by code_simp

lemma main_publish_race_free: "M \<le> TSO \<Longrightarrow> \<not> race_reachable M globals_publish main_publish"
proof (cases M)
  case SC
  have "\<not> race_reachable SC globals_publish main_publish" by (rule race_free [of _ 20]) code_simp
  with SC show ?thesis by simp
next
  case TSO
  have "\<not> race_reachable TSO globals_publish main_publish" by (rule race_free [of _ 20]) code_simp
  with TSO show ?thesis by simp
qed simp

lemma main_point_race_free: "M \<le> TSO \<Longrightarrow> \<not> race_reachable M globals_point main_point"
proof (cases M)
  case SC
  have "\<not> race_reachable SC globals_point main_point" by (rule race_free [of _ 20]) code_simp
  with SC show ?thesis by simp
next
  case TSO
  have "\<not> race_reachable TSO globals_point main_point" by (rule race_free [of _ 20]) code_simp
  with TSO show ?thesis by simp
qed simp

lemma silent_races:
  "race_reachable M globals_publish main_publish \<longleftrightarrow> M = PSO" "race_reachable M globals_point main_point \<longleftrightarrow> M = PSO"
  using replayed [OF main_publish_race] replayed [OF main_point_race] main_publish_race_free [of M]
    main_point_race_free [of M] unfolding race_reachable_def by (cases M; simp)+

text \<open>
  C40. Five samples cannot report the bug that they are about: none of them fails an assertion on SC,
  TSO or PSO, and each runs to completion on PSO within the steps given. The bug is there all the
  same. In the buffer pool both threads can take the same buffer, already under sequential
  consistency. The other four, with an assertion added that says what the sample is about, are
  correct on SC and TSO and fail on PSO: the published structure is read before it is written,
  the second node of the DPDK queue is lost, and two threads are in the critical section of the
  CLH lock.
\<close>

theorem silent_samples:
  "(\<forall>M. safe M globals_publish main_publish \<and> safe M globals_point main_point \<and>
      safe M globals_dpdk2 main_dpdk2 \<and> safe M globals_sel4 main_sel4 \<and> safe M globals_blas main_blas) \<and>
   completes PSO 20 globals_publish main_publish \<and> completes PSO 20 globals_point main_point \<and>
   completes PSO 40 globals_dpdk2 main_dpdk2 \<and> completes PSO 50 globals_sel4 main_sel4 \<and>
   completes PSO 40 globals_blas main_blas \<and>
   (\<forall>M. (safe M globals_publish checked_publish \<longleftrightarrow> M \<le> TSO) \<and> (safe M globals_point checked_point \<longleftrightarrow> M \<le> TSO) \<and>
      (safe M globals_dpdk2 checked_dpdk2 \<longleftrightarrow> M \<le> TSO) \<and> (safe M globals_sel4 checked_sel4 \<longleftrightarrow> M \<le> TSO)) \<and>
   (\<exists>c. (step SC)\<^sup>*\<^sup>* (boot globals_blas main_blas) c \<and>
      has_taken 0 (code (threads c ! 1)) \<and> has_taken 0 (code (threads c ! 2)))"
  using silent_safe main_publish_completes main_point_completes main_dpdk2_completes main_sel4_completes
    main_blas_completes checked_verdicts replayed [OF both_take] by blast

end
