(* ===== verification/Cbmc_Publication.thy ===== *)
theory Cbmc_Publication
  imports Litmus
begin

text \<open>
  The samples of \<open>CBMC/Layer1\<close> that publish data through a flag with ordinary accesses, with
  and without a full barrier (\<open>__sync_synchronize\<close>) between the two stores. Three of them do
  not join their threads, three load both objects before testing the flag.
\<close>

section \<open>The samples\<close>

subsection \<open>\<open>CBMC/Layer1/7-OpenBLAS.c\<close>\<close>

definition globals_cb7 :: "loc \<Rightarrow> c_int" where [model_defs]:
  "globals_cb7 = (\<lambda>_. 0)(''memory_buffer[0]'' := 0, ''memory_flag'' := 0)"

definition thread_alloc_cb7 :: int_prog where [model_defs]:
  "thread_alloc_cb7 =
     assign ''memory_buffer[0]'' 42 (
     sync_synchronize (
     assign ''memory_flag'' 1 (
     return_NULL)))"

definition thread_use_cb7 :: int_prog where [model_defs]:
  "thread_use_cb7 =
     fetch ''memory_flag'' (\<lambda>v.
     if v = 1 then
       fetch ''memory_buffer[0]'' (\<lambda>v2.
       c_assert (v2 = 42) return_NULL)
     else return_NULL)"

definition main_cb7 :: int_prog where [model_defs]:
  "main_cb7 = run_detached thread_alloc_cb7 thread_use_cb7"

interpretation mp_cb7: message_passing globals_cb7 "''memory_buffer[0]''" "''memory_flag''" "42" "1"
    "\<lambda>x. x = 1" "\<lambda>x. x \<noteq> 42"
  by unfold_locales (simp_all add: model_defs signed_less_def)

lemma main_cb7_publishes:
  "main_cb7 = run_detached
     (publish_fenced non_atomic non_atomic ''memory_buffer[0]'' 42 ''memory_flag'' 1)
     (consume non_atomic non_atomic ''memory_flag'' (\<lambda>x. x = 1) ''memory_buffer[0]'' (\<lambda>x. x \<noteq> 42))"
  by (simp add: model_defs publish_fenced_def consume_def run_detached_def if_neg cong: if_cong)

subsection \<open>\<open>CBMC/Layer1/9-CVE-2020-25603-Xen.c\<close>\<close>

definition globals_cb9 :: "loc \<Rightarrow> c_int" where [model_defs]:
  "globals_cb9 = (\<lambda>_. 0)(''evtchn'' := 0, ''valid_evtchns'' := 0)"

definition thread_allocate_cb9 :: int_prog where [model_defs]:
  "thread_allocate_cb9 =
     assign ''evtchn'' 1 (
     assign ''valid_evtchns'' 1 (
     return_NULL))"

definition thread_access_cb9 :: int_prog where [model_defs]:
  "thread_access_cb9 =
     fetch ''valid_evtchns'' (\<lambda>v.
     if v = 1 then
       fetch ''evtchn'' (\<lambda>v2.
       c_assert (v2 = 1) return_NULL)
     else return_NULL)"

definition main_cb9 :: int_prog where [model_defs]:
  "main_cb9 = run_detached thread_allocate_cb9 thread_access_cb9"

interpretation mp_cb9: message_passing globals_cb9 "''evtchn''" "''valid_evtchns''" "1" "1"
    "\<lambda>x. x = 1" "\<lambda>x. x \<noteq> 1"
  by unfold_locales (simp_all add: model_defs signed_less_def)

lemma main_cb9_publishes:
  "main_cb9 = run_detached
     (publish non_atomic non_atomic ''evtchn'' 1 ''valid_evtchns'' 1)
     (consume non_atomic non_atomic ''valid_evtchns'' (\<lambda>x. x = 1) ''evtchn'' (\<lambda>x. x \<noteq> 1))"
  by (simp add: model_defs publish_def consume_def run_detached_def if_neg cong: if_cong)

subsection \<open>\<open>CBMC/Layer1/10-ceph.c\<close>\<close>

definition globals_cb10 :: "loc \<Rightarrow> c_int" where [model_defs]:
  "globals_cb10 = (\<lambda>_. 0)(''nlock'' := 0, ''locked_by'' := 0)"

definition lock_thread_cb10 :: int_prog where [model_defs]:
  "lock_thread_cb10 =
     assign ''locked_by'' 1 (
     sync_synchronize (
     assign ''nlock'' 1 (
     return_NULL)))"

definition check_thread_cb10 :: int_prog where [model_defs]:
  "check_thread_cb10 =
     fetch ''nlock'' (\<lambda>v.
     if signed_less 0 v then
       fetch ''locked_by'' (\<lambda>v2.
       c_assert (v2 = 1) return_NULL)
     else return_NULL)"

definition main_cb10 :: int_prog where [model_defs]:
  "main_cb10 = run_detached lock_thread_cb10 check_thread_cb10"

interpretation mp_cb10: message_passing globals_cb10 "''locked_by''" "''nlock''" "1" "1"
    "signed_less 0" "\<lambda>x. x \<noteq> 1"
  by unfold_locales (simp_all add: model_defs signed_less_def)

lemma main_cb10_publishes:
  "main_cb10 = run_detached
     (publish_fenced non_atomic non_atomic ''locked_by'' 1 ''nlock'' 1)
     (consume non_atomic non_atomic ''nlock'' (signed_less 0) ''locked_by'' (\<lambda>x. x \<noteq> 1))"
  by (simp add: model_defs publish_fenced_def consume_def run_detached_def if_neg cong: if_cong)

subsection \<open>\<open>CBMC/Layer1/11-MariaDBEasy.c\<close>\<close>

definition globals_cb11 :: "loc \<Rightarrow> c_int" where [model_defs]:
  "globals_cb11 = (\<lambda>_. 0)(''node_key'' := 1, ''node_link'' := 1)"

definition thread_delete_cb11 :: int_prog where [model_defs]:
  "thread_delete_cb11 =
     assign ''node_link'' 0 (
     assign ''node_key'' 0 (
     return_NULL))"

definition thread_find_cb11 :: int_prog where [model_defs]:
  "thread_find_cb11 =
     fetch ''node_key'' (\<lambda>k.
     fetch ''node_link'' (\<lambda>l.
     if l = 1 then
       c_assert (k = 1) return_NULL
     else return_NULL))"

definition main_cb11 :: int_prog where [model_defs]:
  "main_cb11 = run_two thread_delete_cb11 thread_find_cb11 (Return 0)"

interpretation mp_cb11: message_passing globals_cb11 "''node_link''" "''node_key''" "0" "0"
    "\<lambda>x. x \<noteq> 1" "\<lambda>x. x = 1"
  by unfold_locales (simp_all add: model_defs signed_less_def)

lemma main_cb11_publishes:
  "main_cb11 = run_two
     (publish non_atomic non_atomic ''node_link'' 0 ''node_key'' 0)
     (consume_both non_atomic non_atomic ''node_key'' (\<lambda>x. x \<noteq> 1) ''node_link'' (\<lambda>x. x = 1)) return_NULL"
  by (simp add: model_defs publish_def consume_both_def run_two_def fun_eq_iff)

subsection \<open>\<open>CBMC/Layer1/14-libfabric.c\<close>\<close>

definition globals_cb14 :: "loc \<Rightarrow> c_int" where [model_defs]:
  "globals_cb14 = (\<lambda>_. 0)(''cmd_data'' := 0, ''resp_status'' := 0)"

definition thread_progress_cb14 :: int_prog where [model_defs]:
  "thread_progress_cb14 =
     assign ''cmd_data'' 2 (
     sync_synchronize (
     assign ''resp_status'' (- 1) (
     return_NULL)))"

definition thread_check_cb14 :: int_prog where [model_defs]:
  "thread_check_cb14 =
     fetch ''resp_status'' (\<lambda>v.
     if v = - 1 then
       fetch ''cmd_data'' (\<lambda>v2.
       c_assert (v2 = 2) return_NULL)
     else return_NULL)"

definition main_cb14 :: int_prog where [model_defs]:
  "main_cb14 = run_two thread_progress_cb14 thread_check_cb14 (Return 0)"

interpretation mp_cb14: message_passing globals_cb14 "''cmd_data''" "''resp_status''" "2" "- 1"
    "\<lambda>x. x = - 1" "\<lambda>x. x \<noteq> 2"
  by unfold_locales (simp_all add: model_defs signed_less_def)

lemma main_cb14_publishes:
  "main_cb14 = run_two
     (publish_fenced non_atomic non_atomic ''cmd_data'' 2 ''resp_status'' (- 1))
     (consume non_atomic non_atomic ''resp_status'' (\<lambda>x. x = - 1) ''cmd_data'' (\<lambda>x. x \<noteq> 2)) return_NULL"
  by (simp add: model_defs publish_fenced_def consume_def run_two_def if_neg cong: if_cong)

subsection \<open>\<open>CBMC/Layer1/15-openmpi.c\<close>\<close>

definition globals_cb15 :: "loc \<Rightarrow> c_int" where [model_defs]:
  "globals_cb15 = (\<lambda>_. 0)(''list_data'' := 0, ''head_ptr'' := 0)"

definition thread_push_cb15 :: int_prog where [model_defs]:
  "thread_push_cb15 =
     assign ''list_data'' 42 (
     assign ''head_ptr'' 1 (
     return_NULL))"

definition thread_pop_cb15 :: int_prog where [model_defs]:
  "thread_pop_cb15 =
     fetch ''head_ptr'' (\<lambda>v.
     if v = 1 then
       fetch ''list_data'' (\<lambda>v2.
       c_assert (v2 = 42) return_NULL)
     else return_NULL)"

definition main_cb15 :: int_prog where [model_defs]:
  "main_cb15 = run_two thread_push_cb15 thread_pop_cb15 (Return 0)"

interpretation mp_cb15: message_passing globals_cb15 "''list_data''" "''head_ptr''" "42" "1"
    "\<lambda>x. x = 1" "\<lambda>x. x \<noteq> 42"
  by unfold_locales (simp_all add: model_defs signed_less_def)

lemma main_cb15_publishes:
  "main_cb15 = run_two
     (publish non_atomic non_atomic ''list_data'' 42 ''head_ptr'' 1)
     (consume non_atomic non_atomic ''head_ptr'' (\<lambda>x. x = 1) ''list_data'' (\<lambda>x. x \<noteq> 42)) return_NULL"
  by (simp add: model_defs publish_def consume_def run_two_def if_neg cong: if_cong)

subsection \<open>\<open>CBMC/Layer1/16-includeos.c\<close>\<close>

text \<open>
  The file does not compile: a stray \<open>/\<close> follows the call of \<open>__sync_synchronize\<close>. It is read
  without it.
\<close>

definition globals_cb16 :: "loc \<Rightarrow> c_int" where [model_defs]:
  "globals_cb16 = (\<lambda>_. 0)(''desc_address'' := 0, ''product_count'' := 0)"

definition thread_produce_cb16 :: int_prog where [model_defs]:
  "thread_produce_cb16 =
     assign ''desc_address'' 1111 (
     sync_synchronize (
     assign ''product_count'' 1 (
     return_NULL)))"

definition thread_consume_cb16 :: int_prog where [model_defs]:
  "thread_consume_cb16 =
     fetch ''product_count'' (\<lambda>v.
     if v = 1 then
       fetch ''desc_address'' (\<lambda>v2.
       c_assert (v2 = 1111) return_NULL)
     else return_NULL)"

definition main_cb16 :: int_prog where [model_defs]:
  "main_cb16 = run_two thread_produce_cb16 thread_consume_cb16 (Return 0)"

interpretation mp_cb16: message_passing globals_cb16 "''desc_address''" "''product_count''" "1111" "1"
    "\<lambda>x. x = 1" "\<lambda>x. x \<noteq> 1111"
  by unfold_locales (simp_all add: model_defs signed_less_def)

lemma main_cb16_publishes:
  "main_cb16 = run_two
     (publish_fenced non_atomic non_atomic ''desc_address'' 1111 ''product_count'' 1)
     (consume non_atomic non_atomic ''product_count'' (\<lambda>x. x = 1) ''desc_address'' (\<lambda>x. x \<noteq> 1111)) return_NULL"
  by (simp add: model_defs publish_fenced_def consume_def run_two_def if_neg cong: if_cong)

subsection \<open>\<open>CBMC/Layer1/17-mysql.c\<close>\<close>

definition globals_cb17 :: "loc \<Rightarrow> c_int" where [model_defs]:
  "globals_cb17 = (\<lambda>_. 0)(''data'' := 0, ''lock_released'' := 0)"

definition thread_exit_lock_cb17 :: int_prog where [model_defs]:
  "thread_exit_lock_cb17 =
     assign ''data'' 1 (
     assign ''lock_released'' 1 (
     return_NULL))"

definition thread_enter_lock_cb17 :: int_prog where [model_defs]:
  "thread_enter_lock_cb17 =
     fetch ''lock_released'' (\<lambda>v.
     if v = 1 then
       fetch ''data'' (\<lambda>v2.
       c_assert (v2 = 1) return_NULL)
     else return_NULL)"

definition main_cb17 :: int_prog where [model_defs]:
  "main_cb17 = run_two thread_exit_lock_cb17 thread_enter_lock_cb17 (Return 0)"

interpretation mp_cb17: message_passing globals_cb17 "''data''" "''lock_released''" "1" "1"
    "\<lambda>x. x = 1" "\<lambda>x. x \<noteq> 1"
  by unfold_locales (simp_all add: model_defs signed_less_def)

lemma main_cb17_publishes:
  "main_cb17 = run_two
     (publish non_atomic non_atomic ''data'' 1 ''lock_released'' 1)
     (consume non_atomic non_atomic ''lock_released'' (\<lambda>x. x = 1) ''data'' (\<lambda>x. x \<noteq> 1)) return_NULL"
  by (simp add: model_defs publish_def consume_def run_two_def if_neg cong: if_cong)

subsection \<open>\<open>CBMC/Layer1/20-barrier.c\<close>\<close>

definition globals_cb20 :: "loc \<Rightarrow> c_int" where [model_defs]:
  "globals_cb20 = (\<lambda>_. 0)(''data'' := 0, ''flag'' := 0)"

definition writer_thread_cb20 :: int_prog where [model_defs]:
  "writer_thread_cb20 =
     assign ''data'' 42 (
     assign ''flag'' 1 (
     return_NULL))"

definition reader_thread_cb20 :: int_prog where [model_defs]:
  "reader_thread_cb20 =
     fetch ''flag'' (\<lambda>v.
     if v = 1 then
       fetch ''data'' (\<lambda>v2.
       c_assert (v2 = 42) return_NULL)
     else return_NULL)"

definition main_cb20 :: int_prog where [model_defs]:
  "main_cb20 = run_two writer_thread_cb20 reader_thread_cb20 (Return 0)"

interpretation mp_cb20: message_passing globals_cb20 "''data''" "''flag''" "42" "1"
    "\<lambda>x. x = 1" "\<lambda>x. x \<noteq> 42"
  by unfold_locales (simp_all add: model_defs signed_less_def)

lemma main_cb20_publishes:
  "main_cb20 = run_two
     (publish non_atomic non_atomic ''data'' 42 ''flag'' 1)
     (consume non_atomic non_atomic ''flag'' (\<lambda>x. x = 1) ''data'' (\<lambda>x. x \<noteq> 42)) return_NULL"
  by (simp add: model_defs publish_def consume_def run_two_def if_neg cong: if_cong)

subsection \<open>\<open>CBMC/Layer1/22-MariaDB.c\<close>\<close>

definition globals_cb22 :: "loc \<Rightarrow> c_int" where [model_defs]:
  "globals_cb22 = (\<lambda>_. 0)(''db_data'' := 0, ''db_flag'' := 0)"

definition writer_cb22 :: int_prog where [model_defs]:
  "writer_cb22 =
     assign ''db_data'' 42 (
     sync_synchronize (
     assign ''db_flag'' 1 (
     return_NULL)))"

definition reader_cb22 :: int_prog where [model_defs]:
  "reader_cb22 =
     fetch ''db_flag'' (\<lambda>f.
     fetch ''db_data'' (\<lambda>d.
     if f = 1 then
       c_assert (d = 42) return_NULL
     else return_NULL))"

definition main_cb22 :: int_prog where [model_defs]:
  "main_cb22 = run_two writer_cb22 reader_cb22 (Return 0)"

interpretation mp_cb22: message_passing globals_cb22 "''db_data''" "''db_flag''" "42" "1"
    "\<lambda>x. x = 1" "\<lambda>x. x \<noteq> 42"
  by unfold_locales (simp_all add: model_defs signed_less_def)

lemma main_cb22_publishes:
  "main_cb22 = run_two
     (publish_fenced non_atomic non_atomic ''db_data'' 42 ''db_flag'' 1)
     (consume_both non_atomic non_atomic ''db_flag'' (\<lambda>x. x = 1) ''db_data'' (\<lambda>x. x \<noteq> 42)) return_NULL"
  by (simp add: model_defs publish_fenced_def consume_both_def run_two_def if_neg cong: if_cong)

subsection \<open>\<open>CBMC/Layer1/23-mcs.c\<close>\<close>

definition globals_cb23 :: "loc \<Rightarrow> c_int" where [model_defs]:
  "globals_cb23 = (\<lambda>_. 0)(''me_locked'' := 0, ''prev_next'' := 0)"

definition thread_successor_lock_cb23 :: int_prog where [model_defs]:
  "thread_successor_lock_cb23 =
     assign ''me_locked'' 1 (
     assign ''prev_next'' 1 (
     return_NULL))"

definition thread_predecessor_unlock_cb23 :: int_prog where [model_defs]:
  "thread_predecessor_unlock_cb23 =
     fetch ''prev_next'' (\<lambda>v.
     if v = 1 then
       fetch ''me_locked'' (\<lambda>v2.
       c_assert (v2 = 1) return_NULL)
     else return_NULL)"

definition main_cb23 :: int_prog where [model_defs]:
  "main_cb23 = run_two thread_successor_lock_cb23 thread_predecessor_unlock_cb23 (Return 0)"

interpretation mp_cb23: message_passing globals_cb23 "''me_locked''" "''prev_next''" "1" "1"
    "\<lambda>x. x = 1" "\<lambda>x. x \<noteq> 1"
  by unfold_locales (simp_all add: model_defs signed_less_def)

lemma main_cb23_publishes:
  "main_cb23 = run_two
     (publish non_atomic non_atomic ''me_locked'' 1 ''prev_next'' 1)
     (consume non_atomic non_atomic ''prev_next'' (\<lambda>x. x = 1) ''me_locked'' (\<lambda>x. x \<noteq> 1)) return_NULL"
  by (simp add: model_defs publish_def consume_def run_two_def if_neg cong: if_cong)

subsection \<open>\<open>CBMC/Layer1/24-mysql_rwlock_deadlock.c\<close>\<close>

definition globals_cb24 :: "loc \<Rightarrow> c_int" where [model_defs]:
  "globals_cb24 = (\<lambda>_. 0)(''lock_recursive'' := 0, ''lock_writer_thread'' := 0)"

definition thread_writer_cb24 :: int_prog where [model_defs]:
  "thread_writer_cb24 =
     assign ''lock_writer_thread'' 1001 (
     assign ''lock_recursive'' 1 (
     return_NULL))"

definition thread_reader_cb24 :: int_prog where [model_defs]:
  "thread_reader_cb24 =
     fetch ''lock_recursive'' (\<lambda>r_recursive.
     fetch ''lock_writer_thread'' (\<lambda>r_writer.
     if r_recursive = 1 then
       c_assert (r_writer = 1001) return_NULL
     else return_NULL))"

definition main_cb24 :: int_prog where [model_defs]:
  "main_cb24 = run_two thread_writer_cb24 thread_reader_cb24 (Return 0)"

interpretation mp_cb24: message_passing globals_cb24 "''lock_writer_thread''" "''lock_recursive''" "1001" "1"
    "\<lambda>x. x = 1" "\<lambda>x. x \<noteq> 1001"
  by unfold_locales (simp_all add: model_defs signed_less_def)

lemma main_cb24_publishes:
  "main_cb24 = run_two
     (publish non_atomic non_atomic ''lock_writer_thread'' 1001 ''lock_recursive'' 1)
     (consume_both non_atomic non_atomic ''lock_recursive'' (\<lambda>x. x = 1) ''lock_writer_thread'' (\<lambda>x. x \<noteq> 1001)) return_NULL"
  by (simp add: model_defs publish_def consume_both_def run_two_def if_neg cong: if_cong)

subsection \<open>\<open>CBMC/Layer1/25-mysql_volatile_bug.c\<close>\<close>

definition globals_cb25 :: "loc \<Rightarrow> c_int" where [model_defs]:
  "globals_cb25 = (\<lambda>_. 0)(''log_state'' := 0, ''log_file_data'' := 0)"

definition thread_open_binlog_cb25 :: int_prog where [model_defs]:
  "thread_open_binlog_cb25 =
     assign ''log_file_data'' 999 (
     assign ''log_state'' 1 (
     return_NULL))"

definition thread_use_binlog_cb25 :: int_prog where [model_defs]:
  "thread_use_binlog_cb25 =
     fetch ''log_state'' (\<lambda>v.
     if v = 1 then
       fetch ''log_file_data'' (\<lambda>v2.
       c_assert (v2 = 999) return_NULL)
     else return_NULL)"

definition main_cb25 :: int_prog where [model_defs]:
  "main_cb25 = run_two thread_open_binlog_cb25 thread_use_binlog_cb25 (Return 0)"

interpretation mp_cb25: message_passing globals_cb25 "''log_file_data''" "''log_state''" "999" "1"
    "\<lambda>x. x = 1" "\<lambda>x. x \<noteq> 999"
  by unfold_locales (simp_all add: model_defs signed_less_def)

lemma main_cb25_publishes:
  "main_cb25 = run_two
     (publish non_atomic non_atomic ''log_file_data'' 999 ''log_state'' 1)
     (consume non_atomic non_atomic ''log_state'' (\<lambda>x. x = 1) ''log_file_data'' (\<lambda>x. x \<noteq> 999)) return_NULL"
  by (simp add: model_defs publish_def consume_def run_two_def if_neg cong: if_cong)

subsection \<open>\<open>CBMC/Layer1/32-datarace.c\<close>\<close>

definition globals_cb32 :: "loc \<Rightarrow> c_int" where [model_defs]:
  "globals_cb32 = (\<lambda>_. 0)(''data'' := 0, ''flag'' := 0)"

definition writer_thread_cb32 :: int_prog where [model_defs]:
  "writer_thread_cb32 =
     assign ''data'' 42 (
     assign ''flag'' 1 (
     return_NULL))"

definition reader_thread_cb32 :: int_prog where [model_defs]:
  "reader_thread_cb32 =
     fetch ''flag'' (\<lambda>v.
     if v = 1 then
       fetch ''data'' (\<lambda>v2.
       c_assert (v2 = 42) return_NULL)
     else return_NULL)"

definition main_cb32 :: int_prog where [model_defs]:
  "main_cb32 = run_two writer_thread_cb32 reader_thread_cb32 (Return 0)"

interpretation mp_cb32: message_passing globals_cb32 "''data''" "''flag''" "42" "1"
    "\<lambda>x. x = 1" "\<lambda>x. x \<noteq> 42"
  by unfold_locales (simp_all add: model_defs signed_less_def)

lemma main_cb32_publishes:
  "main_cb32 = run_two
     (publish non_atomic non_atomic ''data'' 42 ''flag'' 1)
     (consume non_atomic non_atomic ''flag'' (\<lambda>x. x = 1) ''data'' (\<lambda>x. x \<noteq> 42)) return_NULL"
  by (simp add: model_defs publish_def consume_def run_two_def if_neg cong: if_cong)

section \<open>The suites\<close>

definition cbmc_plain_samples :: "((loc \<Rightarrow> c_int) \<times> int_prog) list" where
  "cbmc_plain_samples = [
    (globals_cb9, main_cb9), (globals_cb11, main_cb11), (globals_cb15, main_cb15),
    (globals_cb17, main_cb17), (globals_cb20, main_cb20), (globals_cb23, main_cb23),
    (globals_cb24, main_cb24), (globals_cb25, main_cb25), (globals_cb32, main_cb32)]"

definition cbmc_fenced_samples :: "((loc \<Rightarrow> c_int) \<times> int_prog) list" where
  "cbmc_fenced_samples = [
    (globals_cb7, main_cb7), (globals_cb10, main_cb10), (globals_cb14, main_cb14),
    (globals_cb16, main_cb16), (globals_cb22, main_cb22)]"

lemmas cbmc_plain_equations =
  main_cb9_publishes main_cb11_publishes main_cb15_publishes main_cb17_publishes
  main_cb20_publishes main_cb23_publishes main_cb24_publishes main_cb25_publishes
  main_cb32_publishes

lemmas cbmc_fenced_equations =
  main_cb7_publishes main_cb10_publishes main_cb14_publishes main_cb16_publishes
  main_cb22_publishes

lemmas cbmc_plain_verdicts =
  mp_cb9.publish_detached_verdict mp_cb11.publish_both_verdict mp_cb15.publish_verdict
  mp_cb17.publish_verdict mp_cb20.publish_verdict mp_cb23.publish_verdict
  mp_cb24.publish_both_verdict mp_cb25.publish_verdict mp_cb32.publish_verdict

lemmas cbmc_plain_completes =
  mp_cb9.publish_detached_completes_tso mp_cb11.publish_both_completes_tso
  mp_cb15.publish_completes_tso mp_cb17.publish_completes_tso mp_cb20.publish_completes_tso
  mp_cb23.publish_completes_tso mp_cb24.publish_both_completes_tso mp_cb25.publish_completes_tso
  mp_cb32.publish_completes_tso

lemmas cbmc_fenced_completes =
  mp_cb7.publish_fenced_detached_completes_pso mp_cb10.publish_fenced_detached_completes_pso
  mp_cb14.publish_fenced_completes_pso mp_cb16.publish_fenced_completes_pso
  mp_cb22.publish_fenced_both_completes_pso

text \<open>
  The CBMC versions of the publication bugs, with ordinary accesses and no barrier, satisfy
  their assertion exactly on SC and TSO.
\<close>

theorem cbmc_plain_bug:
  "list_all (\<lambda>(m, p). \<forall>M. safe M m p \<longleftrightarrow> M \<le> TSO) cbmc_plain_samples"
  by (simp add: cbmc_plain_samples_def cbmc_plain_equations cbmc_plain_verdicts)

text \<open>
  The CBMC versions with a full barrier between the data and the flag are repaired: on every
  memory model each execution runs to completion within 20 steps and no assertion fails.
\<close>

theorem cbmc_fenced_correct:
  "list_all (\<lambda>(m, p). completes PSO 20 m p \<and> (\<forall>M. safe M m p)) cbmc_fenced_samples"
proof -
  have "list_all (\<lambda>(m, p). completes PSO 20 m p) cbmc_fenced_samples"
    by (simp add: cbmc_fenced_samples_def cbmc_fenced_equations cbmc_fenced_completes)
  then show ?thesis
    by (rule list.pred_mono_strong) (auto dest: completes_safe intro: pso_verdict)
qed

end
