(* ===== verification/Cbmc_Misc.thy ===== *)
theory Cbmc_Misc
  imports Merging
begin

text \<open>
  The samples of \<open>CBMC/Layer1\<close> over plain integers that are not simple publications: store
  buffering, bugs of logic, and reorderings that need an exploration of their own.
\<close>

section \<open>Store buffering\<close>

subsection \<open>\<open>CBMC/Layer1/18-JDK-8179954.c\<close>\<close>

definition globals_cb18 :: "loc \<Rightarrow> c_int" where [model_defs]:
  "globals_cb18 = (\<lambda>_. 0)(''x'' := 0, ''y'' := 0, ''r1'' := 0, ''r2'' := 0)"

definition thread1_func_cb18 :: int_prog where [model_defs]:
  "thread1_func_cb18 =
     assign ''x'' 1 (
     fetch ''y'' (\<lambda>v.
     assign ''r1'' v (
     return_NULL)))"

definition thread2_func_cb18 :: int_prog where [model_defs]:
  "thread2_func_cb18 =
     assign ''y'' 1 (
     fetch ''x'' (\<lambda>v.
     assign ''r2'' v (
     return_NULL)))"

definition main_cb18 :: int_prog where [model_defs]:
  "main_cb18 =
     run_two thread1_func_cb18 thread2_func_cb18
     (fetch ''r1'' (\<lambda>v.
     if v = 0 then
       fetch ''r2'' (\<lambda>v2.
       if v2 = 0 then
         Abort
       else Return 0)
     else Return 0))"

interpretation sb_cb18: store_buffering globals_cb18 "''x''" "''y''" "''r1''" "''r2''" "1" "1"
    "\<lambda>x. x = 0" "\<lambda>x. x = 0"
  by unfold_locales (simp_all add: model_defs)

lemma main_cb18_buffers:
  "main_cb18 = run_two
     (store_then_load non_atomic ''x'' 1 ''y'' ''r1'')
     (store_then_load non_atomic ''y'' 1 ''x'' ''r2'')
     (inspect non_atomic ''r1'' (\<lambda>x. x = 0) ''r2'' (\<lambda>x. x = 0))"
  by (simp add: model_defs store_then_load_def inspect_def run_two_def cong: if_cong)

subsection \<open>\<open>CBMC/Layer1/29-sofa_pbrpc_hang.c\<close>\<close>

definition globals_cb29 :: "loc \<Rightarrow> c_int" where [model_defs]:
  "globals_cb29 = (\<lambda>_. 0)(''pending_message_count'' := 0, ''send_token'' := 1, ''t1_token'' := - 1, ''t2_count'' := - 1)"

definition thread_try_start_send_cb29 :: int_prog where [model_defs]:
  "thread_try_start_send_cb29 =
     assign ''pending_message_count'' 1 (
     fetch ''send_token'' (\<lambda>v.
     assign ''t1_token'' v (
     return_NULL)))"

definition thread_get_from_queue_cb29 :: int_prog where [model_defs]:
  "thread_get_from_queue_cb29 =
     assign ''send_token'' 0 (
     fetch ''pending_message_count'' (\<lambda>v.
     assign ''t2_count'' v (
     return_NULL)))"

definition main_cb29 :: int_prog where [model_defs]:
  "main_cb29 =
     run_two thread_try_start_send_cb29 thread_get_from_queue_cb29
     (fetch ''t1_token'' (\<lambda>v.
     if v = 1 then
       fetch ''t2_count'' (\<lambda>v2.
       if v2 = 0 then
         Abort
       else Return 0)
     else Return 0))"

interpretation sb_cb29: store_buffering globals_cb29 "''pending_message_count''" "''send_token''" "''t1_token''" "''t2_count''" "1" "0"
    "\<lambda>x. x = 1" "\<lambda>x. x = 0"
  by unfold_locales (simp_all add: model_defs)

lemma main_cb29_buffers:
  "main_cb29 = run_two
     (store_then_load non_atomic ''pending_message_count'' 1 ''send_token'' ''t1_token'')
     (store_then_load non_atomic ''send_token'' 0 ''pending_message_count'' ''t2_count'')
     (inspect non_atomic ''t1_token'' (\<lambda>x. x = 1) ''t2_count'' (\<lambda>x. x = 0))"
  by (simp add: model_defs store_then_load_def inspect_def run_two_def cong: if_cong)

subsection \<open>\<open>CBMC/Layer1/30-tso_test.c\<close>\<close>

definition globals_cb30 :: "loc \<Rightarrow> c_int" where [model_defs]:
  "globals_cb30 = (\<lambda>_. 0)(''tso_x'' := 0, ''tso_y'' := 0, ''tso_r1'' := 0, ''tso_r2'' := 0)"

definition thread_1_cb30 :: int_prog where [model_defs]:
  "thread_1_cb30 =
     assign ''tso_x'' 1 (
     fetch ''tso_y'' (\<lambda>v.
     assign ''tso_r1'' v (
     return_NULL)))"

definition thread_2_cb30 :: int_prog where [model_defs]:
  "thread_2_cb30 =
     assign ''tso_y'' 1 (
     fetch ''tso_x'' (\<lambda>v.
     assign ''tso_r2'' v (
     return_NULL)))"

definition main_cb30 :: int_prog where [model_defs]:
  "main_cb30 =
     run_two thread_1_cb30 thread_2_cb30
     (fetch ''tso_r1'' (\<lambda>v.
     if v = 0 then
       fetch ''tso_r2'' (\<lambda>v2.
       if v2 = 0 then
         Abort
       else Return 0)
     else Return 0))"

interpretation sb_cb30: store_buffering globals_cb30 "''tso_x''" "''tso_y''" "''tso_r1''" "''tso_r2''" "1" "1"
    "\<lambda>x. x = 0" "\<lambda>x. x = 0"
  by unfold_locales (simp_all add: model_defs)

lemma main_cb30_buffers:
  "main_cb30 = run_two
     (store_then_load non_atomic ''tso_x'' 1 ''tso_y'' ''tso_r1'')
     (store_then_load non_atomic ''tso_y'' 1 ''tso_x'' ''tso_r2'')
     (inspect non_atomic ''tso_r1'' (\<lambda>x. x = 0) ''tso_r2'' (\<lambda>x. x = 0))"
  by (simp add: model_defs store_then_load_def inspect_def run_two_def cong: if_cong)

text \<open>
  The CBMC versions of the store-buffering samples are correct exactly under sequential
  consistency.
\<close>

theorem cbmc_buffering_bug:
  "list_all (\<lambda>(m, p). \<forall>M. safe M m p \<longleftrightarrow> M = SC)
     [(globals_cb18, main_cb18), (globals_cb29, main_cb29), (globals_cb30, main_cb30)]"
  by (simp add: main_cb18_buffers sb_cb18.buffering_verdict main_cb29_buffers sb_cb29.buffering_verdict main_cb30_buffers sb_cb30.buffering_verdict)

section \<open>Bugs of logic\<close>

subsection \<open>\<open>CBMC/Layer1/4-MySQL.c\<close>\<close>

definition globals_cb4 :: "loc \<Rightarrow> c_int" where [model_defs]:
  "globals_cb4 = (\<lambda>_. 0)(''lock_word'' := 0, ''writer_thread'' := 0, ''recursive'' := 0)"

definition thread_writer_cb4 :: int_prog where [model_defs]:
  "thread_writer_cb4 =
     assign ''writer_thread'' 1 (
     assign ''lock_word'' 1 (
     assign ''recursive'' 1 (
     return_NULL)))"

definition thread_reader_cb4 :: int_prog where [model_defs]:
  "thread_reader_cb4 =
     fetch ''writer_thread'' (\<lambda>v.
     if v = 1 then
       fetch ''recursive'' (\<lambda>v2.
       c_assert (v2 = 1) return_NULL)
     else return_NULL)"

definition main_cb4 :: int_prog where [model_defs]:
  "main_cb4 = run_detached thread_writer_cb4 thread_reader_cb4"

lemma main_cb4_fails: "fails_by SC [Run 0, Run 0, Run 1, Run 2, Run 2] globals_cb4 main_cb4"
  by code_simp

subsection \<open>\<open>CBMC/Layer1/13-JDK.c\<close>\<close>

definition globals_cb13 :: "loc \<Rightarrow> c_int" where [model_defs]:
  "globals_cb13 = (\<lambda>_. 0)(''semaphore'' := 0, ''w_state'' := 0)"

definition thread_enter_cb13 :: int_prog where [model_defs]:
  "thread_enter_cb13 =
     fetch ''semaphore'' (\<lambda>v.
     CPROVER_assume (v = 1)
       (fetch ''w_state'' (\<lambda>v2.
       c_assert (v2 = 1) return_NULL)))"

definition thread_exit_cb13 :: int_prog where [model_defs]:
  "thread_exit_cb13 =
     assign ''semaphore'' 1 (
     assign ''w_state'' 1 (
     return_NULL))"

definition main_cb13 :: int_prog where [model_defs]:
  "main_cb13 = run_two thread_enter_cb13 thread_exit_cb13 (Return 0)"

lemma main_cb13_fails: "fails_by SC [Run 0, Run 0, Run 2, Run 1, Run 1] globals_cb13 main_cb13"
  by code_simp

subsection \<open>\<open>CBMC/Layer1/21-crossbeam.c\<close>\<close>

definition globals_cb21 :: "loc \<Rightarrow> c_int" where [model_defs]:
  "globals_cb21 = (\<lambda>_. 0)(''seq_state'' := 0, ''shared_data'' := 0)"

definition reader_cb21 :: int_prog where [model_defs]:
  "reader_cb21 =
     fetch ''seq_state'' (\<lambda>stamp.
     fetch ''shared_data'' (\<lambda>val.
     fetch ''seq_state'' (\<lambda>new_stamp.
     if stamp = 0 \<and> new_stamp = 0 then
       c_assert (val = 0) return_NULL
     else return_NULL)))"

definition writer_cb21 :: int_prog where [model_defs]:
  "writer_cb21 =
     assign ''shared_data'' 1 (
     assign ''seq_state'' 1 (
     return_NULL))"

definition main_cb21 :: int_prog where [model_defs]:
  "main_cb21 = run_two reader_cb21 writer_cb21 (Return 0)"

lemma main_cb21_fails: "fails_by SC [Run 0, Run 0, Run 1, Run 2, Run 1, Run 1] globals_cb21 main_cb21"
  by code_simp

subsection \<open>\<open>CBMC/Layer1/27-mysql-ut-realx.c\<close>\<close>

definition globals_cb27 :: "loc \<Rightarrow> c_int" where [model_defs]:
  "globals_cb27 = (\<lambda>_. 0)(''inno_data'' := 0, ''inno_data_ready'' := 0)"

definition thread_writer_cb27 :: int_prog where [model_defs]:
  "thread_writer_cb27 =
     assign ''inno_data_ready'' 1 (
     assign ''inno_data'' 1 (
     return_NULL))"

definition thread_reader_cb27 :: int_prog where [model_defs]:
  "thread_reader_cb27 =
     fetch ''inno_data_ready'' (\<lambda>v.
     if v = 1 then
       fetch ''inno_data'' (\<lambda>v2.
       c_assert (v2 = 1) return_NULL)
     else return_NULL)"

definition main_cb27 :: int_prog where [model_defs]:
  "main_cb27 = run_two thread_writer_cb27 thread_reader_cb27 (Return 0)"

lemma main_cb27_fails: "fails_by SC [Run 0, Run 0, Run 1, Run 2, Run 2] globals_cb27 main_cb27"
  by code_simp

text \<open>
  Four CBMC samples fail their assertion on every memory model, the sequentially consistent
  one included.
\<close>

theorem cbmc_logic_bugs:
  "list_all (\<lambda>(m, p). \<forall>M. \<not> safe M m p)
     [(globals_cb4, main_cb4), (globals_cb13, main_cb13), (globals_cb21, main_cb21), (globals_cb27, main_cb27)]"
  by (simp add: main_cb4_fails [THEN fails_by_unsafe, THEN logic_verdict] main_cb13_fails [THEN fails_by_unsafe, THEN logic_verdict] main_cb21_fails [THEN fails_by_unsafe, THEN logic_verdict] main_cb27_fails [THEN fails_by_unsafe, THEN logic_verdict])

section \<open>Other reorderings of stores\<close>

subsection \<open>\<open>CBMC/Layer1/6-ompi.c\<close>\<close>

definition globals_cb6 :: "loc \<Rightarrow> c_int" where [model_defs]:
  "globals_cb6 = (\<lambda>_. 0)(''active'' := 0, ''status'' := - 1)"

definition thread_wait_cb6 :: int_prog where [model_defs]:
  "thread_wait_cb6 =
     assign ''active'' 1 (
     fetch ''active'' (\<lambda>v.
     if v \<noteq> 0 then
       Blocked
     else
       fetch ''status'' (\<lambda>v4.
       c_assert (v4 = 0) return_NULL)))"

definition thread_callback_cb6 :: int_prog where [model_defs]:
  "thread_callback_cb6 =
     assign ''status'' 0 (
     assign ''active'' 0 (
     return_NULL))"

definition main_cb6 :: int_prog where [model_defs]:
  "main_cb6 = run_detached thread_wait_cb6 thread_callback_cb6"

text \<open>
  The waiting thread may block for ever in its assumption, if the callback runs first; so only
  the assertion is claimed, not that the program runs to completion.
\<close>

lemma main_cb6_safe_tso: "safe TSO globals_cb6 main_cb6"
  by (rule halts_safely_safe [of _ 40]) code_simp

lemma main_cb6_unsafe_pso: "\<not> safe PSO globals_cb6 main_cb6"
  by (rule fails_by_unsafe [of _ "[Run 0, Run 0, Run 1, Commit 1 0, Run 2, Run 2, Commit 2 1, Run 1, Run 1]"]) code_simp

subsection \<open>\<open>CBMC/Layer1/19-ompi.c\<close>\<close>

definition globals_cb19 :: "loc \<Rightarrow> c_int" where [model_defs]:
  "globals_cb19 = (\<lambda>_. 0)(''tag'' := 0, ''size'' := 0, ''global_hdr_ready'' := 0)"

definition writer_thread_cb19 :: int_prog where [model_defs]:
  "writer_thread_cb19 =
     assign ''tag'' 1 (
     assign ''size'' 1024 (
     assign ''global_hdr_ready'' 1 (
     return_NULL)))"

definition reader_thread_cb19 :: int_prog where [model_defs]:
  "reader_thread_cb19 =
     fetch ''global_hdr_ready'' (\<lambda>v.
     if v = 1 then
       fetch ''tag'' (\<lambda>v2.
       c_assert (v2 = 1)
         (fetch ''size'' (\<lambda>v3.
         c_assert (v3 = 1024) return_NULL)))
     else return_NULL)"

definition main_cb19 :: int_prog where [model_defs]:
  "main_cb19 = run_two writer_thread_cb19 reader_thread_cb19 (Return 0)"

lemma main_cb19_completes_tso: "completes TSO 40 globals_cb19 main_cb19"
  unfolding check_iff_completes [symmetric] by code_simp

lemmas main_cb19_safe_tso = completes_safe [OF main_cb19_completes_tso]

lemma main_cb19_unsafe_pso: "\<not> safe PSO globals_cb19 main_cb19"
  by (rule fails_by_unsafe [of _ "[Run 0, Run 0, Run 1, Run 1, Run 1, Commit 1 2, Run 2, Run 2]"]) code_simp

subsection \<open>\<open>CBMC/Layer1/26-mysql-99556.c\<close>\<close>

definition globals_cb26 :: "loc \<Rightarrow> c_int" where [model_defs]:
  "globals_cb26 = (\<lambda>_. 0)(''gtid_mode'' := 0, ''gtid_mode_counter'' := 0)"

definition writer_cb26 :: int_prog where [model_defs]:
  "writer_cb26 =
     assign ''gtid_mode'' 1 (
     assign ''gtid_mode_counter'' 1 (
     return_NULL))"

definition reader_cb26 :: int_prog where [model_defs]:
  "reader_cb26 =
     fetch ''gtid_mode_counter'' (\<lambda>cur_counter.
     fetch ''gtid_mode'' (\<lambda>mode.
     if cur_counter = 1 then
       c_assert (mode = 1) return_NULL
     else return_NULL))"

definition main_cb26 :: int_prog where [model_defs]:
  "main_cb26 =
     pthread_create reader_cb26 (\<lambda>rt.
     pthread_create writer_cb26 (\<lambda>wt.
     pthread_join wt (
     pthread_join rt (
     Return 0))))"

lemma main_cb26_completes_tso: "completes TSO 40 globals_cb26 main_cb26"
  unfolding check_iff_completes [symmetric] by code_simp

lemmas main_cb26_safe_tso = completes_safe [OF main_cb26_completes_tso]

lemma main_cb26_unsafe_pso: "\<not> safe PSO globals_cb26 main_cb26"
  by (rule fails_by_unsafe [of _ "[Run 0, Run 0, Run 2, Run 2, Commit 2 1, Run 1, Run 1]"]) code_simp

subsection \<open>\<open>CBMC/Layer1/28-pso_test.c\<close>\<close>

definition globals_cb28 :: "loc \<Rightarrow> c_int" where [model_defs]:
  "globals_cb28 = (\<lambda>_. 0)(''pso_x'' := 0, ''pso_y'' := 0, ''pso_r1'' := 0, ''pso_r2'' := 0)"

definition thread_writer_cb28 :: int_prog where [model_defs]:
  "thread_writer_cb28 =
     assign ''pso_x'' 1 (
     assign ''pso_y'' 1 (
     return_NULL))"

definition thread_reader_cb28 :: int_prog where [model_defs]:
  "thread_reader_cb28 =
     fetch ''pso_y'' (\<lambda>v.
     assign ''pso_r1'' v (
     fetch ''pso_x'' (\<lambda>v2.
     assign ''pso_r2'' v2 (
     return_NULL))))"

definition main_cb28 :: int_prog where [model_defs]:
  "main_cb28 =
     run_two thread_writer_cb28 thread_reader_cb28
     (fetch ''pso_r1'' (\<lambda>v.
     if v = 1 then
       fetch ''pso_r2'' (\<lambda>v2.
       if v2 = 0 then
         Abort
       else Return 0)
     else Return 0))"

lemma main_cb28_completes_tso: "completes TSO 40 globals_cb28 main_cb28"
  by (rule explore_merging_completes [of _ "[''pso_x'', ''pso_y'', ''pso_r1'', ''pso_r2'']"]) code_simp

lemmas main_cb28_safe_tso = completes_safe [OF main_cb28_completes_tso]

lemma main_cb28_unsafe_pso: "\<not> safe PSO globals_cb28 main_cb28"
  by (rule fails_by_unsafe [of _ "[Run 0, Run 0, Run 1, Run 1, Commit 1 1, Run 2, Run 2, Run 2, Run 2, Commit 1 0, Commit 2 0, Commit 2 0, Run 0, Run 0, Run 0, Run 0]"]) code_simp

text \<open>
  The Open MPI registration and header samples, the MySQL GTID sample (whose reader is
  created first) and the PSO test are correct exactly on SC and TSO.
\<close>

theorem cbmc_reorder_bug:
  "list_all (\<lambda>(m, p). \<forall>M. safe M m p \<longleftrightarrow> M \<le> TSO)
     [(globals_cb6, main_cb6), (globals_cb19, main_cb19), (globals_cb26, main_cb26), (globals_cb28, main_cb28)]"
  by (simp add: tso_verdict [OF main_cb6_safe_tso main_cb6_unsafe_pso] tso_verdict [OF main_cb19_safe_tso main_cb19_unsafe_pso] tso_verdict [OF main_cb26_safe_tso main_cb26_unsafe_pso] tso_verdict [OF main_cb28_safe_tso main_cb28_unsafe_pso])

end
