(* ===== verification/Cbmc_Pointers.thy ===== *)
theory Cbmc_Pointers
  imports Merging Pointers
begin

text \<open>
  The samples of \<open>CBMC/Layer1\<close> that publish a structure through a pointer: the point of
  Stack Overflow's question on unsafe publication, in two versions, and the module table of
  the JDK. The pointer is null until the structure is ready, and the reader follows it.
\<close>

section \<open>\<open>5-StackOverFlowEasy.c\<close>\<close>

definition globals_cb5 :: "obj \<Rightarrow> c_value" where [model_defs]:
  "globals_cb5 = (\<lambda>_. IntV 0)(Var current_pos_id := Null)"

definition thread_write_cb5 :: ptr_prog where [model_defs]:
  "thread_write_cb5 =
     assign (Field point_id x_id) (IntV 1) (
     assign (Field point_id y_id) (IntV 2) (
     assign (Var current_pos_id) (Addr point_id) return_NULL))"

definition thread_read_cb5 :: ptr_prog where [model_defs]:
  "thread_read_cb5 =
     fetch (Var current_pos_id) (\<lambda>local.
     if local \<noteq> Null then
       deref local (\<lambda>s.
       fetch (Field s x_id) (\<lambda>x.
       fetch (Field s y_id) (\<lambda>y.
       c_assert (plus_int x 1 = y) return_NULL)))
     else return_NULL)"

definition main_cb5 :: ptr_prog where [model_defs]:
  "main_cb5 = run_detached thread_write_cb5 thread_read_cb5"

section \<open>\<open>31-unsafe_publish.c\<close>\<close>

definition globals_cb31 :: "obj \<Rightarrow> c_value" where [model_defs]:
  "globals_cb31 = (\<lambda>_. IntV 0)(Var current_pos_id := Null)"

definition writer_cb31 :: ptr_prog where [model_defs]:
  "writer_cb31 =
     assign (Field point_id x_id) (IntV 1) (
     assign (Field point_id y_id) (IntV 2) (
     assign (Var current_pos_id) (Addr point_id) return_NULL))"

definition reader_cb31 :: ptr_prog where [model_defs]:
  "reader_cb31 =
     fetch (Var current_pos_id) (\<lambda>p.
     if p \<noteq> Null then
       deref p (\<lambda>s.
       fetch (Field s x_id) (\<lambda>x.
       fetch (Field s y_id) (\<lambda>y.
       c_assert (plus_int x 1 = y) return_NULL)))
     else return_NULL)"

definition main_cb31 :: ptr_prog where [model_defs]:
  "main_cb31 = run_two writer_cb31 reader_cb31 (Return 0)"

section \<open>\<open>12-DragonWell8Easy.c\<close>\<close>

definition globals_cb12 :: "obj \<Rightarrow> c_value" where [model_defs]:
  "globals_cb12 = (\<lambda>_. IntV 0)(Var package_table_id := Null, Field dummy_id init_flag_id := IntV 0)"

definition thread_init_cb12 :: ptr_prog where [model_defs]:
  "thread_init_cb12 =
     fetch (Var package_table_id) (\<lambda>table.
     if table = Null then
       assign (Field dummy_id init_flag_id) (IntV 1) (
       assign (Var package_table_id) (Addr dummy_id) return_NULL)
     else return_NULL)"

definition thread_use_cb12 :: ptr_prog where [model_defs]:
  "thread_use_cb12 =
     fetch (Var package_table_id) (\<lambda>table.
     if table \<noteq> Null then
       deref table (\<lambda>s.
       fetch (Field s init_flag_id) (\<lambda>flag. c_assert (flag = IntV 1) return_NULL))
     else return_NULL)"

definition main_cb12 :: ptr_prog where [model_defs]:
  "main_cb12 = run_two thread_init_cb12 thread_use_cb12 (Return 0)"

section \<open>Verdicts\<close>

lemma main_cb5_completes: "completes TSO 30 globals_cb5 main_cb5"
  by (rule explore_merging_completes
      [of _ "[Field point_id x_id, Field point_id y_id, Var current_pos_id]"]) code_simp

lemma main_cb31_completes: "completes TSO 30 globals_cb31 main_cb31"
  by (rule explore_merging_completes
      [of _ "[Field point_id x_id, Field point_id y_id, Var current_pos_id]"]) code_simp

lemma main_cb12_completes: "completes TSO 30 globals_cb12 main_cb12"
  by (rule explore_merging_completes
      [of _ "[Field dummy_id init_flag_id, Var package_table_id]"]) code_simp

lemma main_cb5_unsafe: "\<not> safe PSO globals_cb5 main_cb5"
  by (rule fails_by_unsafe
      [of _ "[Run 0, Run 0, Run 1, Run 1, Run 1, Commit 1 2, Run 2, Run 2, Run 2]"]) code_simp

lemma main_cb31_unsafe: "\<not> safe PSO globals_cb31 main_cb31"
  by (rule fails_by_unsafe
      [of _ "[Run 0, Run 0, Run 1, Run 1, Run 1, Commit 1 2, Run 2, Run 2, Run 2]"]) code_simp

lemma main_cb12_unsafe: "\<not> safe PSO globals_cb12 main_cb12"
  by (rule fails_by_unsafe
      [of _ "[Run 0, Run 0, Run 1, Run 1, Run 1, Commit 1 1, Run 2, Run 2]"]) code_simp

text \<open>
  The pointer samples are correct exactly on SC and TSO, where every
  execution returns within 30 steps and the pointer is never followed before the structure it
  leads to is complete; on PSO the pointer can be published first.
\<close>

theorem unsafe_publication:
  "list_all (\<lambda>(m, p). completes TSO 30 m p \<and> (\<forall>M. safe M m p \<longleftrightarrow> M \<le> TSO))
     [(globals_cb5, main_cb5), (globals_cb31, main_cb31), (globals_cb12, main_cb12)]"
  by (simp add: main_cb5_completes main_cb31_completes main_cb12_completes
      tso_verdict [OF completes_safe [OF main_cb5_completes] main_cb5_unsafe]
      tso_verdict [OF completes_safe [OF main_cb31_completes] main_cb31_unsafe]
      tso_verdict [OF completes_safe [OF main_cb12_completes] main_cb12_unsafe])

end
