(* ===== verification/Cbmc_Locks.thy ===== *)
theory Cbmc_Locks
  imports Merging Pointers
begin

text \<open>
  The lock samples of \<open>CBMC/Layer1\<close>: the MCS queue lock of Linux, the one of DPDK, the CLH
  lock of seL4 and the write lock of Xen. Waiting is an assumption (\<open>__CPROVER_assume\<close>): an
  execution in which the awaited condition does not hold when it is read stops there. A node
  on the stack of a thread is an object of its own, named when the thread is created.
\<close>

section \<open>\<open>1-Linuxeasy.c\<close>\<close>

definition globals_cb1 :: "obj \<Rightarrow> c_value" where [model_defs]:
  "globals_cb1 = (\<lambda>_. IntV 0)(Field my_lock_id tail_id := Null, Var cs_id := IntV 0)"

definition qspin_lock_cb1 :: "ident \<Rightarrow> ident \<Rightarrow> ptr_prog \<Rightarrow> ptr_prog" where [model_defs]:
  "qspin_lock_cb1 lock mynode k =
     assign (Field mynode next_id) Null (
     assign (Field mynode locked_id) (IntV 1) (
     sync_lock_test_and_set (Field lock tail_id) (Addr mynode) (\<lambda>prev.
     if prev \<noteq> Null then
       deref prev (\<lambda>pred.
       assign (Field pred next_id) (Addr mynode) (
       fetch (Field mynode locked_id) (\<lambda>locked.
       CPROVER_assume (locked = IntV 0) k)))
     else k)))"

definition qspin_unlock_cb1 :: "ident \<Rightarrow> ident \<Rightarrow> ptr_prog \<Rightarrow> ptr_prog" where [model_defs]:
  "qspin_unlock_cb1 lock mynode k =
     (let release = fetch (Field mynode next_id) (\<lambda>succ.
        deref succ (\<lambda>node. assign (Field node locked_id) (IntV 0) k))
      in fetch (Field mynode next_id) (\<lambda>next.
        if next = Null then
          sync_bool_compare_and_swap (Field lock tail_id) (Addr mynode) Null (\<lambda>swapped.
          if swapped then k
          else fetch (Field mynode next_id) (\<lambda>next'.
            CPROVER_assume (next' \<noteq> Null) release))
        else release))"

definition thread_func_cb1 :: "ident \<Rightarrow> ptr_prog" where [model_defs]:
  "thread_func_cb1 mynode =
     qspin_lock_cb1 my_lock_id mynode (
     fetch (Var cs_id) (\<lambda>v. assign (Var cs_id) (plus_int v 1) (
     fetch (Var cs_id) (\<lambda>v. c_assert (v = IntV 1)
       (fetch (Var cs_id) (\<lambda>v. assign (Var cs_id) (plus_int v (- 1)) (
        qspin_unlock_cb1 my_lock_id mynode return_NULL)))))))"

definition main_cb1 :: ptr_prog where [model_defs]:
  "main_cb1 = run_two (thread_func_cb1 mynode1_id) (thread_func_cb1 mynode2_id) (Return 0)"

section \<open>\<open>2-DPDK.c\<close>\<close>

definition globals_cb2 :: "obj \<Rightarrow> c_value" where [model_defs]:
  "globals_cb2 = (\<lambda>_. IntV 0)(Var global_lock_id := Null, Var cs_id := IntV 0)"

definition rte_mcslock_lock_cb2 :: "obj \<Rightarrow> ident \<Rightarrow> ptr_prog \<Rightarrow> ptr_prog" where [model_defs]:
  "rte_mcslock_lock_cb2 msl me k =
     assign (Field me locked_id) (IntV 1) (
     assign (Field me next_id) Null (
     sync_lock_test_and_set msl (Addr me) (\<lambda>prev.
     if prev = Null then k
     else deref prev (\<lambda>pred.
       assign (Field pred next_id) (Addr me) (
       fetch (Field me locked_id) (\<lambda>locked.
       CPROVER_assume (locked = IntV 0) k))))))"

text \<open>
  The unlock compares the lock with the address of its own local variable \<open>save_me\<close>, an object
  \<open>save_me\<close> distinct from every node.
\<close>

definition rte_mcslock_unlock_cb2 :: "obj \<Rightarrow> ident \<Rightarrow> ident \<Rightarrow> ptr_prog \<Rightarrow> ptr_prog" where [model_defs]:
  "rte_mcslock_unlock_cb2 msl me save_me k =
     (let release = fetch (Field me next_id) (\<lambda>succ.
        deref succ (\<lambda>node. assign (Field node locked_id) (IntV 0) k))
      in fetch (Field me next_id) (\<lambda>next.
        if next = Null then
          sync_bool_compare_and_swap msl (Addr save_me) Null (\<lambda>swapped.
          if swapped then k
          else fetch (Field me next_id) (\<lambda>next'.
            CPROVER_assume (next' \<noteq> Null) release))
        else release))"

definition thread_func_cb2 :: "ident \<Rightarrow> ident \<Rightarrow> ptr_prog" where [model_defs]:
  "thread_func_cb2 node save_me =
     rte_mcslock_lock_cb2 (Var global_lock_id) node (
     fetch (Var cs_id) (\<lambda>v. assign (Var cs_id) (plus_int v 1) (
     fetch (Var cs_id) (\<lambda>v. c_assert (v = IntV 1)
       (fetch (Var cs_id) (\<lambda>v. assign (Var cs_id) (plus_int v (- 1)) (
        rte_mcslock_unlock_cb2 (Var global_lock_id) node save_me return_NULL)))))))"

definition main_cb2 :: ptr_prog where [model_defs]:
  "main_cb2 = run_detached (thread_func_cb2 node1_id save_me1_id) (thread_func_cb2 node2_id save_me2_id)"

section \<open>\<open>3-sel4-dynamic.c\<close>\<close>

definition globals_cb3 :: "obj \<Rightarrow> c_value" where [model_defs]:
  "globals_cb3 = (\<lambda>_. IntV 0)
     (Field global_lock_id tail_id := Null, Field dummy_node_id locked_id := IntV 0, Var cs_id := IntV 0)"

definition clh_lock_init_cb3 :: "ident \<Rightarrow> ptr_prog \<Rightarrow> ptr_prog" where [model_defs]:
  "clh_lock_init_cb3 lock k = assign (Field lock tail_id) (Addr dummy_node_id) k"

definition clh_lock_cb3 :: "ident \<Rightarrow> ident \<Rightarrow> ptr_prog \<Rightarrow> ptr_prog" where [model_defs]:
  "clh_lock_cb3 lock my_node k =
     assign (Field my_node locked_id) (IntV 1) (
     sync_lock_test_and_set (Field lock tail_id) (Addr my_node) (\<lambda>pred.
     deref pred (\<lambda>node.
     fetch (Field node locked_id) (\<lambda>locked.
     CPROVER_assume (locked = IntV 0) k))))"

definition clh_unlock_cb3 :: "ident \<Rightarrow> ptr_prog \<Rightarrow> ptr_prog" where [model_defs]:
  "clh_unlock_cb3 my_node k = assign (Field my_node locked_id) (IntV 0) k"

definition thread_func_cb3 :: "ident \<Rightarrow> ptr_prog" where [model_defs]:
  "thread_func_cb3 node =
     clh_lock_cb3 global_lock_id node (
     fetch (Var cs_id) (\<lambda>v. assign (Var cs_id) (plus_int v 1) (
     fetch (Var cs_id) (\<lambda>v. c_assert (v = IntV 1)
       (fetch (Var cs_id) (\<lambda>v. assign (Var cs_id) (plus_int v (- 1)) (
        clh_unlock_cb3 node return_NULL)))))))"

definition main_cb3 :: ptr_prog where [model_defs]:
  "main_cb3 = clh_lock_init_cb3 global_lock_id
     (run_detached (thread_func_cb3 node1_id) (thread_func_cb3 node2_id))"

section \<open>\<open>8-CVE-2020-11739-Xen.c\<close>\<close>

definition globals_cb8 :: "loc \<Rightarrow> c_int" where [model_defs]:
  "globals_cb8 = (\<lambda>_. 0)(''cnts'' := 0, ''cs'' := 0)"

definition write_lock_cb8 :: "int_prog \<Rightarrow> int_prog" where [model_defs]:
  "write_lock_cb8 k = sync_bool_compare_and_swap ''cnts'' 0 255 (\<lambda>swapped. CPROVER_assume swapped k)"

definition write_unlock_cb8 :: "int_prog \<Rightarrow> int_prog" where [model_defs]:
  "write_unlock_cb8 k = assign ''cnts'' 0 k"

definition thread_func_cb8 :: int_prog where [model_defs]:
  "thread_func_cb8 =
     write_lock_cb8 (
     fetch ''cs'' (\<lambda>v. assign ''cs'' (v + 1) (
     fetch ''cs'' (\<lambda>v. c_assert (v = 1)
       (fetch ''cs'' (\<lambda>v. assign ''cs'' (v - 1) (
        write_unlock_cb8 return_NULL)))))))"

definition main_cb8 :: int_prog where [model_defs]:
  "main_cb8 = run_detached thread_func_cb8 thread_func_cb8"

section \<open>Mutual exclusion on SC and TSO\<close>

text \<open>The objects a queue lock's threads write.\<close>

definition queue_objects :: "ident \<Rightarrow> ident \<Rightarrow> obj \<Rightarrow> obj list" where
  "queue_objects n1 n2 lk =
     [Field n1 next_id, Field n1 locked_id, Field n2 next_id, Field n2 locked_id, lk, Var cs_id]"

lemma main_cb1_safe: "safe TSO globals_cb1 main_cb1"
  by (rule explore_merging_safe [of "\<lambda>_. True" _ "queue_objects mynode1_id mynode2_id (Field my_lock_id tail_id)" 50])
    code_simp

lemma main_cb3_safe: "safe TSO globals_cb3 main_cb3"
  by (rule explore_merging_safe [of "\<lambda>_. True" _ "queue_objects node1_id node2_id (Field global_lock_id tail_id)" 50])
    code_simp

lemma main_cb8_safe: "safe TSO globals_cb8 main_cb8"
  by (rule explore_merging_safe [of "\<lambda>_. True" _ "[''cnts'', ''cs'']" 50]) code_simp

section \<open>The unlock overtakes the critical section on PSO\<close>

lemma main_cb1_unsafe: "\<not> safe PSO globals_cb1 main_cb1"
  by (rule fails_by_unsafe [of _
      "[Run 0, Run 0, Run 1, Run 1, Run 1, Run 1, Run 1, Run 1, Run 1, Run 1,
        Commit 1 0, Commit 1 0, Commit 1 0, Run 2, Run 2, Run 2, Run 2,
        Commit 2 0, Commit 2 0, Commit 2 0, Run 1, Run 1, Run 1, Commit 1 1, Run 2, Run 2, Run 2, Run 2]"])
    code_simp

lemma main_cb3_unsafe: "\<not> safe PSO globals_cb3 main_cb3"
  by (rule fails_by_unsafe [of _
      "[Run 0, Commit 0 0, Run 0, Run 0, Run 1, Run 1, Run 1, Run 1, Run 1, Run 1, Run 1, Run 1, Run 1,
        Commit 1 0, Commit 1 0, Commit 1 1, Run 2, Run 2, Run 2, Run 2, Run 2, Run 2]"])
    code_simp

lemma main_cb8_unsafe: "\<not> safe PSO globals_cb8 main_cb8"
  by (rule fails_by_unsafe [of _
      "[Run 0, Run 0, Run 1, Run 1, Run 1, Run 1, Run 1, Run 1, Run 1,
        Commit 1 0, Commit 1 1, Run 2, Run 2, Run 2, Run 2]"])
    code_simp

text \<open>
  The MCS lock, the CLH lock and the Xen write lock exclude the second
  thread exactly on SC and TSO. On PSO the store that hands the lock over leaves the buffer
  before the stores of the critical section, and the next owner finds \<open>cs\<close> raised.
\<close>

theorem queue_lock_mutex:
  "(safe M globals_cb1 main_cb1 \<longleftrightarrow> M \<le> TSO) \<and> (safe M globals_cb3 main_cb3 \<longleftrightarrow> M \<le> TSO) \<and>
   (safe M globals_cb8 main_cb8 \<longleftrightarrow> M \<le> TSO)"
  by (simp add: tso_verdict [OF main_cb1_safe main_cb1_unsafe] tso_verdict [OF main_cb3_safe main_cb3_unsafe]
      tso_verdict [OF main_cb8_safe main_cb8_unsafe])

section \<open>The DPDK lock is never given back\<close>

lemma main_cb2_explored:
  "explore_merging (\<lambda>ts. \<not> list_all path_finished ts) TSO
     (queue_objects node1_id node2_id (Var global_lock_id)) 50 globals_cb2 main_cb2"
  by code_simp

lemma main_cb1_completes_by: "completes_by SC
   [Run 0, Run 0, Run 1, Run 1, Run 1, Run 1, Run 1, Run 1, Run 1, Run 1, Run 1, Run 1,
    Run 2, Run 2, Run 2, Run 2, Run 2, Run 2, Run 2, Run 2, Run 2, Run 2, Run 0, Run 0] globals_cb1 main_cb1"
  by code_simp

text \<open>
  The unlock of the DPDK sample compares the lock with the address of
  its own local variable, so the compare-and-swap never succeeds: on SC and TSO no assertion
  fails, but no execution ends with both threads returned, the last owner of the lock waiting
  for a successor that never comes. The Linux lock, which compares with the node, completes.
\<close>

theorem dpdk_lock_stuck:
  "safe TSO globals_cb2 main_cb2 \<and> never_completes TSO globals_cb2 main_cb2 \<and>
   never_completes SC globals_cb2 main_cb2 \<and> \<not> never_completes SC globals_cb1 main_cb1"
  using explore_merging_safe [OF main_cb2_explored] explore_merging_stuck [OF main_cb2_explored]
    never_completes_sc completes_by_may [OF main_cb1_completes_by] by blast

text \<open>
  C12. The four queue and write locks written for CBMC. The MCS lock, the CLH lock and the Xen
  write lock exclude the second thread exactly on the memory models that keep stores in order.
  The DPDK lock compares the lock with the address of a local variable when it is released, so
  on SC and TSO no assertion fails but no execution ends with both threads returned, while the
  Linux lock can complete.
\<close>

theorem cbmc_lock_verdicts:
  "(safe M globals_cb1 main_cb1 \<longleftrightarrow> M \<le> TSO) \<and> (safe M globals_cb3 main_cb3 \<longleftrightarrow> M \<le> TSO) \<and>
   (safe M globals_cb8 main_cb8 \<longleftrightarrow> M \<le> TSO) \<and>
   safe TSO globals_cb2 main_cb2 \<and> never_completes TSO globals_cb2 main_cb2 \<and>
   never_completes SC globals_cb2 main_cb2 \<and> \<not> never_completes SC globals_cb1 main_cb1"
  using queue_lock_mutex dpdk_lock_stuck by blast

end
