(* ===== verification/Fifo_Lock.thy ===== *)
theory Fifo_Lock
  imports Transition_Systems
begin

text \<open>
  What a queue lock promises: threads get the lock one at a time, in the order in which they
  asked for it. The specification is a queue of the threads that asked and have not yet
  released, and whether the first of them has entered; a lock implements it if its steps
  simulate the queue's.
\<close>

section \<open>The specification\<close>

record fifo =
  queue :: "nat list"
  inside :: bool

inductive fifo_step :: "fifo \<Rightarrow> fifo \<Rightarrow> bool" where
  request: "i \<notin> set (queue a) \<Longrightarrow> fifo_step a (a\<lparr>queue := queue a @ [i]\<rparr>)"
| enter: "queue a \<noteq> [] \<Longrightarrow> \<not> inside a \<Longrightarrow> fifo_step a (a\<lparr>inside := True\<rparr>)"
| leave: "queue a \<noteq> [] \<Longrightarrow> inside a \<Longrightarrow> fifo_step a (a\<lparr>queue := tl (queue a), inside := False\<rparr>)"

definition fifo_free :: fifo where
  "fifo_free = \<lparr>queue = [], inside = False\<rparr>"

text \<open>A thread that is served directly, the queue being empty, makes two steps at once.\<close>

lemma fifo_request_enter:
  assumes "queue a = []" "\<not> inside a"
  shows "fifo_step\<^sup>*\<^sup>* a \<lparr>queue = [i], inside = True\<rparr>"
proof (rule converse_rtranclp_into_rtranclp)
  show "fifo_step a (a\<lparr>queue := [i]\<rparr>)" using request [of i a] assms(1) by simp
  show "fifo_step\<^sup>*\<^sup>* (a\<lparr>queue := [i]\<rparr>) \<lparr>queue = [i], inside = True\<rparr>"
    using enter [of "a\<lparr>queue := [i]\<rparr>"] assms(2) by (cases a) auto
qed

section \<open>The interface of an implementation\<close>

text \<open>
  \<open>holds c i\<close> says that thread \<open>i\<close> is between the end of its locking and the end of its
  unlocking, which only the first thread of the queue may be.
\<close>

locale queue_lock =
  fixes step :: "'c \<Rightarrow> 'c \<Rightarrow> bool" and rel :: "'c \<Rightarrow> fifo \<Rightarrow> bool" and holds :: "'c \<Rightarrow> nat \<Rightarrow> bool"
  assumes implements: "rel c a \<Longrightarrow> step c c' \<Longrightarrow> \<exists>a'. fifo_step\<^sup>*\<^sup>* a a' \<and> rel c' a'"
    and holder_first: "rel c a \<Longrightarrow> holds c i \<Longrightarrow> inside a \<and> queue a \<noteq> [] \<and> i = hd (queue a)"

sublocale queue_lock \<subseteq> simulation step fifo_step rel
  by unfold_locales (rule implements)

context queue_lock
begin

lemma reachable_queue:
  assumes "rel c0 fifo_free"
  shows "always step c0 (\<lambda>c. \<exists>a. fifo_step\<^sup>*\<^sup>* fifo_free a \<and> rel c a)"
  using reach_match [OF _ assms] by (auto intro: alwaysI)

lemma mutual_exclusion:
  assumes "rel c0 fifo_free"
  shows "always step c0 (\<lambda>c. \<forall>i j. holds c i \<longrightarrow> holds c j \<longrightarrow> i = j)"
  by (rule always_mono [OF reachable_queue [OF assms]]) (metis holder_first)

end

end
