(* ===== verification/Mcs_Lock.thy ===== *)
theory Mcs_Lock
  imports Fifo_Lock
begin

text \<open>
  The queue spinlock of \<open>Layer1/1-Linuxeasy.c\<close>, as an interleaving of any number of threads
  that each run \<open>thread_func\<close> once, under sequential consistency. Thread \<open>i\<close> owns the node
  \<open>i\<close>, a local variable of its \<open>thread_func\<close>; a program counter stands before each access to
  shared memory, and a busy-wait loop is a step that changes nothing while it waits.
\<close>

section \<open>State\<close>

datatype mcs_pc =
  Set_next | Set_locked | Swap_tail | Link_prev nat | Wait_locked
| Critical
| Test_next | Swap_null | Wait_next | Get_next | Clear_locked nat
| Returned

record mcs =
  tail :: "nat option"
  next_node :: "nat \<Rightarrow> nat option"
  locked :: "nat \<Rightarrow> bool"
  pc :: "nat \<Rightarrow> mcs_pc"
  created :: nat
  joined :: nat

definition goto :: "nat \<Rightarrow> mcs_pc \<Rightarrow> mcs \<Rightarrow> mcs" where
  "goto i p s = s\<lparr>pc := (pc s)(i := p)\<rparr>"

section \<open>Operations\<close>

definition qspinlock_init :: "mcs \<Rightarrow> mcs" where
  "qspinlock_init s = s\<lparr>tail := None\<rparr>"

fun qspin_lock :: "nat \<Rightarrow> mcs \<Rightarrow> mcs" where
  "qspin_lock i s = (case pc s i of
     Set_next \<Rightarrow> goto i Set_locked (s\<lparr>next_node := (next_node s)(i := None)\<rparr>)
   | Set_locked \<Rightarrow> goto i Swap_tail (s\<lparr>locked := (locked s)(i := True)\<rparr>)
   | Swap_tail \<Rightarrow>
       (case tail s of
          None \<Rightarrow> goto i Critical (s\<lparr>tail := Some i\<rparr>)
        | Some prev \<Rightarrow> goto i (Link_prev prev) (s\<lparr>tail := Some i\<rparr>))
   | Link_prev prev \<Rightarrow> goto i Wait_locked (s\<lparr>next_node := (next_node s)(prev := Some i)\<rparr>)
   | Wait_locked \<Rightarrow> if locked s i then s else goto i Critical s
   | _ \<Rightarrow> s)"

fun qspin_unlock :: "nat \<Rightarrow> mcs \<Rightarrow> mcs" where
  "qspin_unlock i s = (case pc s i of
     Test_next \<Rightarrow> if next_node s i = None then goto i Swap_null s else goto i Get_next s
   | Swap_null \<Rightarrow>
       if tail s = Some i then goto i Returned (s\<lparr>tail := None\<rparr>) else goto i Wait_next s
   | Wait_next \<Rightarrow> if next_node s i = None then s else goto i Get_next s
   | Get_next \<Rightarrow> (case next_node s i of None \<Rightarrow> s | Some succ \<Rightarrow> goto i (Clear_locked succ) s)
   | Clear_locked succ \<Rightarrow> goto i Returned (s\<lparr>locked := (locked s)(succ := False)\<rparr>)
   | _ \<Rightarrow> s)"

definition locking :: "mcs_pc \<Rightarrow> bool" where
  "locking p = (case p of Set_next \<Rightarrow> True | Set_locked \<Rightarrow> True | Swap_tail \<Rightarrow> True
     | Link_prev _ \<Rightarrow> True | Wait_locked \<Rightarrow> True | _ \<Rightarrow> False)"

fun thread_func :: "nat \<Rightarrow> mcs \<Rightarrow> mcs" where
  "thread_func i s =
     (if locking (pc s i) then qspin_lock i s
      else if pc s i = Critical then goto i Test_next s
      else qspin_unlock i s)"

text \<open>
  \<open>main\<close> initialises the lock, creates \<open>n\<close> threads (two in the source) and joins them in order.
\<close>

definition main_init :: "mcs \<Rightarrow> mcs" where
  "main_init s = (qspinlock_init s)\<lparr>pc := (\<lambda>_. Set_next), created := 0, joined := 0\<rparr>"

inductive mcs_step :: "nat \<Rightarrow> mcs \<Rightarrow> mcs \<Rightarrow> bool" for n where
  run: "i < created s \<Longrightarrow> pc s i \<noteq> Returned \<Longrightarrow> mcs_step n s (thread_func i s)"
| create: "created s < n \<Longrightarrow> mcs_step n s (s\<lparr>created := created s + 1\<rparr>)"
| join: "created s = n \<Longrightarrow> joined s < n \<Longrightarrow> pc s (joined s) = Returned \<Longrightarrow>
    mcs_step n s (s\<lparr>joined := joined s + 1\<rparr>)"

section \<open>The queue in memory\<close>

text \<open>
  A thread is queued from its exchange on the tail to the step by which it gives the lock up.
  In the queue \<open>Q\<close>, first thread first, each thread after the first waits for its own flag
  or has still to link itself to its predecessor, whose \<open>next\<close> says which.
\<close>

definition queued :: "mcs_pc \<Rightarrow> bool" where
  "queued p = (case p of Set_next \<Rightarrow> False | Set_locked \<Rightarrow> False | Swap_tail \<Rightarrow> False
     | Returned \<Rightarrow> False | _ \<Rightarrow> True)"

definition holding :: "mcs_pc \<Rightarrow> bool" where
  "holding p = (case p of Critical \<Rightarrow> True | Test_next \<Rightarrow> True | Swap_null \<Rightarrow> True
     | Wait_next \<Rightarrow> True | Get_next \<Rightarrow> True | Clear_locked _ \<Rightarrow> True | _ \<Rightarrow> False)"

definition linked :: "mcs \<Rightarrow> nat list \<Rightarrow> bool" where
  "linked s Q \<longleftrightarrow> (Q \<noteq> [] \<longrightarrow> next_node s (last Q) = None) \<and>
     (\<forall>k. Suc k < length Q \<longrightarrow> locked s (Q ! Suc k) \<and>
        (pc s (Q ! Suc k) = Link_prev (Q ! k) \<and> next_node s (Q ! k) = None \<or>
         pc s (Q ! Suc k) = Wait_locked \<and> next_node s (Q ! k) = Some (Q ! Suc k)))"

text \<open>The first thread holds the lock, or its flag has been cleared for it.\<close>

definition head_ok :: "mcs \<Rightarrow> nat list \<Rightarrow> bool" where
  "head_ok s Q \<longleftrightarrow> (Q \<noteq> [] \<longrightarrow>
     (holding (pc s (hd Q)) \<or> pc s (hd Q) = Wait_locked \<and> \<not> locked s (hd Q)) \<and>
     (pc s (hd Q) = Wait_next \<longrightarrow> tl Q \<noteq> []) \<and>
     (pc s (hd Q) = Get_next \<longrightarrow> next_node s (hd Q) \<noteq> None) \<and>
     (\<forall>y. pc s (hd Q) = Clear_locked y \<longrightarrow> next_node s (hd Q) = Some y))"

definition outside_ok :: "mcs \<Rightarrow> nat \<Rightarrow> bool" where
  "outside_ok s i \<longleftrightarrow> (pc s i = Set_locked \<or> pc s i = Swap_tail \<longrightarrow> next_node s i = None) \<and>
     (pc s i = Swap_tail \<longrightarrow> locked s i)"

definition represents :: "nat \<Rightarrow> mcs \<Rightarrow> nat list \<Rightarrow> bool" where
  "represents n s Q \<longleftrightarrow>
     distinct Q \<and> set Q = {i. queued (pc s i)} \<and> tail s = (if Q = [] then None else Some (last Q)) \<and>
     linked s Q \<and> head_ok s Q \<and> (\<forall>i. outside_ok s i) \<and>
     created s \<le> n \<and> joined s \<le> n \<and> (\<forall>i\<ge>created s. pc s i = Set_next)"

definition mcs_rel :: "nat \<Rightarrow> mcs \<Rightarrow> fifo \<Rightarrow> bool" where
  "mcs_rel n s a \<longleftrightarrow> represents n s (queue a) \<and> inside a = (\<exists>i. holding (pc s i))"

lemma pc_simps [simp]:
  "queued (Link_prev p)" "queued Wait_locked" "queued Critical" "queued Test_next" "queued Swap_null"
  "queued Wait_next" "queued Get_next" "queued (Clear_locked q)" "\<not> queued Set_next"
  "\<not> queued Set_locked" "\<not> queued Swap_tail" "\<not> queued Returned"
  "holding Critical" "holding Test_next" "holding Swap_null" "holding Wait_next" "holding Get_next"
  "holding (Clear_locked q)" "\<not> holding (Link_prev p)" "\<not> holding Wait_locked" "\<not> holding Set_next"
  "\<not> holding Set_locked" "\<not> holding Swap_tail" "\<not> holding Returned"
  "locking Set_next" "locking Set_locked" "locking Swap_tail" "locking (Link_prev p)" "locking Wait_locked"
  "\<not> locking Critical" "\<not> locking Test_next" "\<not> locking Swap_null" "\<not> locking Wait_next"
  "\<not> locking Get_next" "\<not> locking (Clear_locked q)" "\<not> locking Returned"
  by (simp_all add: queued_def holding_def locking_def)

lemma holding_queued: "holding p \<Longrightarrow> queued p"
  by (cases p) simp_all

section \<open>Positions in the queue\<close>

lemma in_queue: "represents n s Q \<Longrightarrow> i \<in> set Q \<longleftrightarrow> queued (pc s i)"
  by (simp add: represents_def)

lemma later:
  assumes "represents n s Q" "i \<in> set Q" "i \<noteq> hd Q"
  obtains k where "Suc k < length Q" "i = Q ! Suc k" "locked s i"
    "pc s i = Link_prev (Q ! k) \<and> next_node s (Q ! k) = None \<or>
     pc s i = Wait_locked \<and> next_node s (Q ! k) = Some i"
proof -
  from assms(2) obtain j where j: "j < length Q" "i = Q ! j" by (auto simp: in_set_conv_nth)
  with assms(3) obtain k where "j = Suc k" by (cases j) (auto simp: hd_conv_nth)
  with j assms(1) show ?thesis by (intro that [of k]) (auto simp: represents_def linked_def)
qed

lemma holder_head:
  assumes "represents n s Q" "holding (pc s i)"
  shows "Q \<noteq> [] \<and> i = hd Q"
proof -
  have "i \<in> set Q" using assms in_queue holding_queued by blast
  moreover have "i = hd Q"
    by (rule ccontr) (use assms(2) in \<open>auto elim!: later [OF assms(1) \<open>i \<in> set Q\<close>]\<close>)
  ultimately show ?thesis by auto
qed

lemma woken_head:
  assumes "represents n s Q" "pc s i = Wait_locked" "\<not> locked s i"
  shows "Q \<noteq> [] \<and> i = hd Q"
proof -
  have "i \<in> set Q" using assms(2) in_queue [OF assms(1)] by simp
  moreover have "i = hd Q"
    by (rule ccontr) (use assms(3) in \<open>auto elim!: later [OF assms(1) \<open>i \<in> set Q\<close>]\<close>)
  ultimately show ?thesis by auto
qed

lemma linking_later:
  assumes "represents n s Q" "pc s i = Link_prev p"
  shows "i \<in> set Q \<and> i \<noteq> hd Q"
proof -
  have "i \<in> set Q" using assms(2) in_queue [OF assms(1)] by simp
  moreover have "i \<noteq> hd Q"
    using assms \<open>i \<in> set Q\<close> by (cases Q) (auto simp: represents_def head_ok_def)
  ultimately show ?thesis by blast
qed

lemma head_alone:
  assumes "represents n s Q" "holding (pc s i)" "tail s = Some i"
  shows "Q = [i]"
proof -
  from holder_head [OF assms(1,2)] obtain ys where "Q = i # ys" by (cases Q) auto
  with assms(1,3) show ?thesis by (cases ys) (auto simp: represents_def split: if_splits)
qed

section \<open>The steps of a thread\<close>

lemma goto_simps [simp]:
  "tail (goto i p s) = tail s" "next_node (goto i p s) = next_node s" "locked (goto i p s) = locked s"
  "pc (goto i p s) = (pc s)(i := p)" "created (goto i p s) = created s" "joined (goto i p s) = joined s"
  by (simp_all add: goto_def)

text \<open>A step of a thread outside the queue.\<close>

lemma outside_step:
  assumes r: "represents n s Q" and i: "\<not> queued (pc s i)" "i < created s" and p: "\<not> queued p"
    and ok: "outside_ok (goto i p (s\<lparr>next_node := (next_node s)(i := x), locked := (locked s)(i := b)\<rparr>)) i"
  shows "represents n (goto i p (s\<lparr>next_node := (next_node s)(i := x), locked := (locked s)(i := b)\<rparr>)) Q"
    (is "represents n ?s Q")
proof -
  have out: "i \<notin> set Q" using i in_queue [OF r] by simp
  then have ne: "\<And>k. k < length Q \<Longrightarrow> Q ! k \<noteq> i" and "Q \<noteq> [] \<Longrightarrow> last Q \<noteq> i \<and> hd Q \<noteq> i" by auto
  then have "linked ?s Q" "head_ok ?s Q"
    using r by (simp_all add: represents_def linked_def head_ok_def)
  moreover have "outside_ok ?s j" for j
    using ok r by (cases "j = i") (simp_all add: represents_def outside_ok_def)
  moreover have "set Q = {j. queued (pc ?s j)}" using in_queue [OF r] i p by auto
  ultimately show ?thesis using r i by (auto simp: represents_def)
qed

text \<open>A step of the first thread that changes only its program counter.\<close>

lemma head_step:
  assumes r: "represents n s Q" and i: "Q \<noteq> []" "i = hd Q" "i < created s" and p: "holding p"
    and ok: "p = Wait_next \<Longrightarrow> tl Q \<noteq> []" "p = Get_next \<Longrightarrow> next_node s i \<noteq> None"
      "\<And>y. p = Clear_locked y \<Longrightarrow> next_node s i = Some y"
  shows "represents n (goto i p s) Q"
proof -
  obtain ys where Q: "Q = i # ys" "distinct (i # ys)" using r i by (cases Q) (auto simp: represents_def)
  have "linked (goto i p s) Q" using r Q by (auto simp: represents_def linked_def)
  moreover have "head_ok (goto i p s) Q" using p ok Q by (simp add: head_ok_def)
  moreover have "outside_ok (goto i p s) j" for j
    using r p by (cases "j = i") (auto simp: represents_def outside_ok_def)
  moreover have "set Q = {j. queued (pc (goto i p s) j)}"
    using in_queue [OF r] Q p by (auto dest: holding_queued)
  ultimately show ?thesis using r i by (auto simp: represents_def)
qed

text \<open>The exchange on the tail.\<close>

lemma swap_step:
  assumes r: "represents n s Q" and i: "pc s i = Swap_tail" "i < created s"
  shows "represents n (goto i (if Q = [] then Critical else Link_prev (last Q)) (s\<lparr>tail := Some i\<rparr>)) (Q @ [i])"
    (is "represents n ?s _")
proof -
  have out: "i \<notin> set Q" using i in_queue [OF r] by simp
  have o: "next_node s i = None" "locked s i" using r i by (auto simp: represents_def outside_ok_def)
  have "linked ?s (Q @ [i])"
    unfolding linked_def
  proof (intro conjI impI allI)
    fix m assume m: "Suc m < length (Q @ [i])"
    have out': "k < length Q \<Longrightarrow> Q ! k \<noteq> i" for k using out by auto
    have "locked ?s ((Q @ [i]) ! Suc m) \<and>
      (pc ?s ((Q @ [i]) ! Suc m) = Link_prev ((Q @ [i]) ! m) \<and> next_node ?s ((Q @ [i]) ! m) = None \<or>
       pc ?s ((Q @ [i]) ! Suc m) = Wait_locked \<and> next_node ?s ((Q @ [i]) ! m) = Some ((Q @ [i]) ! Suc m))"
    proof (cases "Suc m = length Q")
      case True
      then have l: "Q \<noteq> []" "Q ! m = last Q" "m < length Q" by (cases Q rule: rev_cases; simp)+
      moreover have "next_node s (last Q) = None" using r l(1) by (simp add: represents_def linked_def)
      ultimately show ?thesis using o True by (simp add: nth_append)
    next
      case False
      with m have k: "Suc m < length Q" "m < length Q" by auto
      then have "locked s (Q ! Suc m) \<and>
        (pc s (Q ! Suc m) = Link_prev (Q ! m) \<and> next_node s (Q ! m) = None \<or>
         pc s (Q ! Suc m) = Wait_locked \<and> next_node s (Q ! m) = Some (Q ! Suc m))"
        using r by (simp add: represents_def linked_def)
      then show ?thesis using k out' by (simp add: nth_append)
    qed
    then show "locked ?s ((Q @ [i]) ! Suc m)"
      "pc ?s ((Q @ [i]) ! Suc m) = Link_prev ((Q @ [i]) ! m) \<and> next_node ?s ((Q @ [i]) ! m) = None \<or>
       pc ?s ((Q @ [i]) ! Suc m) = Wait_locked \<and> next_node ?s ((Q @ [i]) ! m) = Some ((Q @ [i]) ! Suc m)"
      by blast+
  qed (use o in simp)
  moreover have "head_ok ?s (Q @ [i])"
    using r out by (cases Q) (auto simp: represents_def head_ok_def)
  moreover have "outside_ok ?s j" for j
    using r by (cases "j = i") (auto simp: represents_def outside_ok_def)
  moreover have "set (Q @ [i]) = {j. queued (pc ?s j)}" using in_queue [OF r] by auto
  ultimately show ?thesis using r i out by (auto simp: represents_def)
qed

text \<open>A thread links itself to its predecessor.\<close>

lemma link_step:
  assumes r: "represents n s Q" and i: "pc s i = Link_prev p" "i < created s"
  shows "represents n (goto i Wait_locked (s\<lparr>next_node := (next_node s)(p := Some i)\<rparr>)) Q"
    (is "represents n ?s _")
proof -
  from linking_later [OF r i(1)] have q: "i \<in> set Q" "i \<noteq> hd Q" by auto
  with r i obtain k where k: "Suc k < length Q" "i = Q ! Suc k" "locked s i" "p = Q ! k"
    "next_node s p = None" by (elim later) auto
  have d: "distinct Q" using r by (simp add: represents_def)
  have qp: "queued (pc s p)" using in_queue [OF r, of p] k by simp
  have "linked ?s Q"
    unfolding linked_def
  proof (intro conjI impI allI)
    fix m assume m: "Suc m < length Q"
    show "locked ?s (Q ! Suc m)" using r m by (simp add: represents_def linked_def)
    show "pc ?s (Q ! Suc m) = Link_prev (Q ! m) \<and> next_node ?s (Q ! m) = None \<or>
       pc ?s (Q ! Suc m) = Wait_locked \<and> next_node ?s (Q ! m) = Some (Q ! Suc m)"
      using r k d m by (cases "m = k") (auto simp: represents_def linked_def nth_eq_iff_index_eq)
  next
    assume "Q \<noteq> []"
    then show "next_node ?s (last Q) = None"
      using r k d by (auto simp: represents_def linked_def last_conv_nth nth_eq_iff_index_eq)
  qed
  moreover have "head_ok ?s Q" 
    using r q k by (auto simp: represents_def head_ok_def)
  moreover have "outside_ok ?s j" for j
    using r qp i by (cases "j = i"; cases "j = p") (auto simp: represents_def outside_ok_def)
  moreover have "set Q = {j. queued (pc ?s j)}" using in_queue [OF r] i by auto
  ultimately show ?thesis using r i by (auto simp: represents_def)
qed

text \<open>The lock is given up: to nobody, or to the next thread.\<close>

lemma release_step:
  assumes r: "represents n s Q" and i: "pc s i = Swap_null" "tail s = Some i" "i < created s"
  shows "represents n (goto i Returned (s\<lparr>tail := None\<rparr>)) []"
    (is "represents n ?s []")
proof -
  have "Q = [i]" using head_alone [OF r _ i(2)] i(1) by simp
  then have "{j. queued (pc ?s j)} = {}" using in_queue [OF r] by auto
  moreover have "outside_ok ?s j" for j
    using r by (cases "j = i") (auto simp: represents_def outside_ok_def)
  ultimately show ?thesis using r i by (auto simp: represents_def linked_def head_ok_def)
qed

lemma handover_step:
  assumes r: "represents n s Q" and i: "pc s i = Clear_locked q" "i < created s"
  shows "represents n (goto i Returned (s\<lparr>locked := (locked s)(q := False)\<rparr>)) (tl Q)"
      (is "represents n ?s _")
    and "Q \<noteq> []" "tl Q \<noteq> []" "hd (tl Q) = q" "pc s q = Wait_locked"
proof -
  from holder_head [OF r, of i] i obtain ys where Q: "Q = i # ys" by (cases Q) auto
  have n: "next_node s i = Some q" using r i Q by (simp add: represents_def head_ok_def)
  then obtain zs where ys: "ys = q # zs" and q: "pc s q = Wait_locked"
    using r Q by (cases ys) (fastforce simp: represents_def linked_def)+
  from Q ys q show "Q \<noteq> []" "tl Q \<noteq> []" "hd (tl Q) = q" "pc s q = Wait_locked" by simp_all
  have d: "distinct (i # q # zs)" using r Q ys by (simp add: represents_def)
  have "linked s (i # q # zs)" using r Q ys by (simp add: represents_def)
  then have l: "next_node s (last (q # zs)) = None" "k < length zs \<Longrightarrow> locked s (zs ! k) \<and>
     (pc s (zs ! k) = Link_prev ((q # zs) ! k) \<and> next_node s ((q # zs) ! k) = None \<or>
      pc s (zs ! k) = Wait_locked \<and> next_node s ((q # zs) ! k) = Some (zs ! k))" for k
    unfolding linked_def by (simp, force dest: spec [of _ "Suc k"])
  have "k < length zs \<Longrightarrow> zs ! k \<noteq> q \<and> zs ! k \<noteq> i" for k using d by auto
  then have "linked ?s (q # zs)" using l by (auto simp: linked_def)
  moreover have "head_ok ?s (q # zs)" using d q by (simp add: head_ok_def)
  moreover have "outside_ok ?s j" for j
    using r i q by (cases "j = i"; cases "j = q") (auto simp: represents_def outside_ok_def)
  moreover have "set (q # zs) = {j. queued (pc ?s j)}" using in_queue [OF r] Q ys d by auto
  ultimately show "represents n ?s (tl Q)" using r i Q ys by (auto simp: represents_def)
qed

lemma thread_func_represents:
  assumes r: "represents n s Q" and i: "i < created s"
  shows "represents n (thread_func i s)
    (case pc s i of Swap_tail \<Rightarrow> Q @ [i]
       | Swap_null \<Rightarrow> if tail s = Some i then [] else Q
       | Clear_locked _ \<Rightarrow> tl Q | _ \<Rightarrow> Q)"
proof (cases "pc s i")
  case Set_next
  then show ?thesis using outside_step [OF r _ i, where p = Set_locked and x = None and b = "locked s i"]
    by (simp add: outside_ok_def)
next
  case Set_locked
  with r have n: "next_node s i = None" by (simp add: represents_def outside_ok_def)
  then have "(next_node s)(i := None) = next_node s" by auto
  with n outside_step [OF r _ i, where p = Swap_tail and x = None and b = True] Set_locked
  show ?thesis by (simp add: outside_ok_def)
next
  case Swap_tail
  have "tail s = (if Q = [] then None else Some (last Q))" using r by (simp add: represents_def)
  with Swap_tail swap_step [OF r Swap_tail i] show ?thesis by (simp split: if_splits)
next
  case (Link_prev p)
  with link_step [OF r Link_prev i] show ?thesis by simp
next
  case Wait_locked
  then show ?thesis
  proof (cases "locked s i")
    case False
    with woken_head [OF r Wait_locked] head_step [OF r _ _ i, of Critical] Wait_locked show ?thesis by simp
  qed (simp add: r)
next
  case Critical
  with holder_head [OF r, of i] head_step [OF r _ _ i, of Test_next] show ?thesis by simp
next
  case Test_next
  with holder_head [OF r, of i] head_step [OF r _ _ i, of Swap_null] head_step [OF r _ _ i, of Get_next]
  show ?thesis by simp
next
  case Swap_null
  show ?thesis
  proof (cases "tail s = Some i")
    case True
    with release_step [OF r Swap_null True i] Swap_null show ?thesis by simp
  next
    case False
    have h: "Q \<noteq> [] \<and> i = hd Q" using holder_head [OF r, of i] Swap_null by simp
    with False r have "tl Q \<noteq> []" by (cases Q) (auto simp: represents_def)
    with h False Swap_null head_step [OF r _ _ i, of Wait_next] show ?thesis by simp
  qed
next
  case Wait_next
  with holder_head [OF r, of i] head_step [OF r _ _ i, of Get_next] r show ?thesis by simp
next
  case Get_next
  then have h: "Q \<noteq> [] \<and> i = hd Q" using holder_head [OF r, of i] by simp
  show ?thesis
  proof (cases "next_node s i")
    case (Some q)
    with h Get_next head_step [OF r _ _ i, of "Clear_locked q"] show ?thesis by simp
  qed (simp add: r Get_next)
next
  case (Clear_locked q)
  with handover_step(1) [OF r Clear_locked i] show ?thesis by simp
next
  case Returned
  then show ?thesis using r by simp
qed

section \<open>The lock implements the queue\<close>

lemma pc_thread_func: "\<exists>p. pc (thread_func i s) = (pc s)(i := p)"
  by (auto simp: fun_eq_iff split: mcs_pc.split option.split)

lemma one_holder: "represents n s Q \<Longrightarrow> holding (pc s i) \<Longrightarrow> holding (pc s j) \<Longrightarrow> i = j"
  by (metis holder_head)

lemma thread_func_match:
  assumes r: "mcs_rel n s a" and i: "i < created s" "pc s i \<noteq> Returned"
  shows "\<exists>a'. fifo_step\<^sup>*\<^sup>* a a' \<and> mcs_rel n (thread_func i s) a'"
proof -
  let ?Q = "queue a" and ?s = "thread_func i s"
  from r have R: "represents n s ?Q" and h: "inside a \<longleftrightarrow> (\<exists>j. holding (pc s j))"
    by (simp_all add: mcs_rel_def)
  note R' = thread_func_represents [OF R i(1)]
  have stay: "\<exists>a'. fifo_step\<^sup>*\<^sup>* a a' \<and> mcs_rel n ?s a'"
    if "represents n ?s ?Q" "holding (pc ?s i) \<longleftrightarrow> holding (pc s i)"
  proof -
    from pc_thread_func obtain p where "pc ?s = (pc s)(i := p)" by blast
    with that(2) have "holding (pc ?s j) \<longleftrightarrow> holding (pc s j)" for j by (cases "j = i") simp_all
    with that(1) h have "mcs_rel n ?s a" unfolding mcs_rel_def by blast
    then show ?thesis by blast
  qed
  show ?thesis
  proof (cases "pc s i")
    case Swap_tail
    show ?thesis
    proof (cases "?Q = []")
      case True
      then have n: "\<not> holding (pc s j)" for j using holder_head [OF R] by blast
      have "tail s = None" using True R by (simp add: represents_def)
      then have "mcs_rel n ?s \<lparr>queue = [i], inside = True\<rparr>"
        using R' Swap_tail True n by (auto simp: mcs_rel_def)
      with fifo_request_enter [of a i] True h n show ?thesis by blast
    next
      case False
      then have t: "tail s = Some (last ?Q)" using R by (simp add: represents_def)
      have "i \<notin> set ?Q" using in_queue [OF R] Swap_tail by simp
      moreover have "holding (pc ?s j) \<longleftrightarrow> holding (pc s j)" for j
        using Swap_tail t by (cases "j = i") simp_all
      then have "mcs_rel n ?s (a\<lparr>queue := ?Q @ [i]\<rparr>)"
        using R' Swap_tail h unfolding mcs_rel_def by simp
      ultimately show ?thesis by (blast intro: fifo_step.request)
    qed
  next
    case Wait_locked
    show ?thesis
    proof (cases "locked s i")
      case False
      with woken_head [OF R Wait_locked] have q: "?Q \<noteq> []" "i = hd ?Q" by auto
      then have n: "\<not> holding (pc s j)" for j using holder_head [OF R, of j] Wait_locked by auto
      then have "mcs_rel n ?s (a\<lparr>inside := True\<rparr>)"
        using R' Wait_locked False by (auto simp: mcs_rel_def)
      moreover have "fifo_step a (a\<lparr>inside := True\<rparr>)" using q(1) h n by (blast intro: fifo_step.enter)
      ultimately show ?thesis by blast
    qed (use R' Wait_locked stay in simp)
  next
    case Swap_null
    then have "holding (pc s i)" by simp
    then have q: "?Q \<noteq> []" "i = hd ?Q" "inside a" using holder_head [OF R] h by blast+
    show ?thesis
    proof (cases "tail s = Some i")
      case True
      then have "?Q = [i]" using head_alone [OF R] Swap_null by simp
      moreover have "\<not> holding (pc ?s j)" for j
        using one_holder [OF R, of i j] Swap_null True by (cases "j = i") auto
      ultimately have "mcs_rel n ?s (a\<lparr>queue := tl ?Q, inside := False\<rparr>)"
        using R' Swap_null True unfolding mcs_rel_def by simp
      with fifo_step.leave [OF q(1,3)] show ?thesis by blast
    qed (use R' Swap_null stay in simp)
  next
    case (Clear_locked q)
    then have "holding (pc s i)" by simp
    then have q: "?Q \<noteq> []" "i = hd ?Q" "inside a" using holder_head [OF R] h by blast+
    have "\<not> holding (pc ?s j)" for j
      using one_holder [OF R, of i j] Clear_locked by (cases "j = i") auto
    then have "mcs_rel n ?s (a\<lparr>queue := tl ?Q, inside := False\<rparr>)"
      using R' Clear_locked unfolding mcs_rel_def by simp
    with fifo_step.leave [OF q(1,3)] show ?thesis by blast
  next
    case Get_next
    then show ?thesis using R' stay by (cases "next_node s i") simp_all
  qed (use R' stay i in \<open>simp_all\<close>)
qed

lemma mcs_step_match:
  assumes "mcs_rel n s a" "mcs_step n s s'"
  shows "\<exists>a'. fifo_step\<^sup>*\<^sup>* a a' \<and> mcs_rel n s' a'"
  using assms(2)
proof cases
  case (run i)
  with thread_func_match [OF assms(1)] show ?thesis by blast
next
  case create
  with assms(1) have "mcs_rel n s' a"
    by (auto simp: mcs_rel_def represents_def linked_def head_ok_def outside_ok_def)
  then show ?thesis by blast
next
  case join
  with assms(1) have "mcs_rel n s' a"
    by (auto simp: mcs_rel_def represents_def linked_def head_ok_def outside_ok_def)
  then show ?thesis by blast
qed

lemma main_init_rel: "mcs_rel n (main_init s) fifo_free"
  by (simp add: mcs_rel_def represents_def main_init_def qspinlock_init_def fifo_free_def linked_def
      head_ok_def outside_ok_def)

interpretation mcs: queue_lock "mcs_step n" "mcs_rel n" "\<lambda>s i. holding (pc s i)" for n
  by unfold_locales (blast intro: mcs_step_match, metis holder_head mcs_rel_def)

lemma always_represents: "always (mcs_step n) (main_init s) (\<lambda>c. \<exists>Q. represents n c Q)"
  by (rule always_mono [OF mcs.reachable_queue [OF main_init_rel]]) (auto simp: mcs_rel_def)

section \<open>Use of the nodes\<close>

text \<open>
  A node lives on the stack of its thread, so it may be accessed by another thread only until
  \<open>thread_func\<close> returns; and a null \<open>next\<close> may not be followed.
\<close>

definition accesses_ok :: "mcs \<Rightarrow> nat \<Rightarrow> bool" where
  "accesses_ok s i \<longleftrightarrow> (case pc s i of
     Link_prev p \<Rightarrow> pc s p \<noteq> Returned | Clear_locked q \<Rightarrow> pc s q \<noteq> Returned
   | Get_next \<Rightarrow> next_node s i \<noteq> None | _ \<Rightarrow> True)"

lemma represents_accesses:
  assumes r: "represents n s Q"
  shows "accesses_ok s i"
proof (cases "pc s i")
  case (Link_prev p)
  from linking_later [OF r this] have "i \<in> set Q" "i \<noteq> hd Q" by auto
  then show ?thesis
  proof (rule later [OF r])
    fix k assume "Suc k < length Q" "pc s i = Link_prev (Q ! k) \<and> next_node s (Q ! k) = None \<or>
      pc s i = Wait_locked \<and> next_node s (Q ! k) = Some i"
    then have "queued (pc s p)" using in_queue [OF r, of p] Link_prev by auto
    with Link_prev show ?thesis by (auto simp: accesses_ok_def)
  qed
next
  case (Clear_locked q)
  have "\<forall>j\<ge>created s. pc s j = Set_next" using r by (simp add: represents_def)
  with Clear_locked have "i < created s" by (metis mcs_pc.distinct(19) not_le)
  from handover_step(5) [OF r Clear_locked this] Clear_locked show ?thesis by (simp add: accesses_ok_def)
next
  case Get_next
  then have "Q \<noteq> []" "i = hd Q" using holder_head [OF r, of i] by simp_all
  moreover have "head_ok s Q" using r by (simp add: represents_def)
  ultimately show ?thesis using Get_next by (simp add: accesses_ok_def head_ok_def)
qed (simp_all add: accesses_ok_def)

section \<open>Progress\<close>

text \<open>How many steps a thread is from the end, not counting those that wait.\<close>

fun weight :: "mcs_pc \<Rightarrow> nat" where
  "weight Set_next = 11" | "weight Set_locked = 10" | "weight Swap_tail = 9"
| "weight (Link_prev p) = 8" | "weight Wait_locked = 7" | "weight Critical = 6"
| "weight Test_next = 5" | "weight Swap_null = 4" | "weight Wait_next = 3"
| "weight Get_next = 2" | "weight (Clear_locked q) = 1" | "weight Returned = 0"

definition remaining :: "nat \<Rightarrow> mcs \<Rightarrow> nat" where
  "remaining n s = (\<Sum>i<n. weight (pc s i)) + (n - created s) + (n - joined s)"

lemma thread_func_progress:
  "thread_func i s = s \<or> weight (pc (thread_func i s) i) < weight (pc s i)"
  by (cases "pc s i") (auto split: option.split)

lemma thread_func_counts [simp]: "created (thread_func i s) = created s" "joined (thread_func i s) = joined s"
  by (auto split: mcs_pc.split option.split)

lemma remaining_thread_func:
  assumes "i < n" "thread_func i s \<noteq> s"
  shows "remaining n (thread_func i s) < remaining n s"
proof -
  from pc_thread_func obtain p where p: "pc (thread_func i s) = (pc s)(i := p)" by blast
  have "(\<Sum>j\<in>{..<n} - {i}. weight (((pc s)(i := p)) j)) = (\<Sum>j\<in>{..<n} - {i}. weight (pc s j))"
    by (intro sum.cong) auto
  moreover have "weight p < weight (pc s i)" using thread_func_progress [of i s] assms(2) p by simp
  ultimately have "(\<Sum>j<n. weight (((pc s)(i := p)) j)) < (\<Sum>j<n. weight (pc s j))"
    using assms(1) by (simp add: sum.remove [of "{..<n}" i])
  then show ?thesis by (simp only: remaining_def p thread_func_counts)
qed

lemma mcs_step_remaining:
  assumes "created s \<le> n" "mcs_step n s s'" "s' \<noteq> s"
  shows "remaining n s' < remaining n s"
  using assms(2)
proof cases
  case (run i)
  have "i < n" using run(2) assms(1) by linarith
  from remaining_thread_func [OF this] run(1) assms(3) show ?thesis by metis
qed (auto simp: remaining_def)

definition idle :: "mcs \<Rightarrow> nat \<Rightarrow> bool" where
  "idle s i \<longleftrightarrow> pc s i = Returned \<or> pc s i = Wait_locked \<and> locked s i \<or>
     (pc s i = Wait_next \<or> pc s i = Get_next) \<and> next_node s i = None"

lemma idle_iff:
  assumes "thread_func i s = s"
  shows "idle s i"
proof -
  have "pc (thread_func i s) i = pc s i" using assms by simp
  then show ?thesis by (cases "pc s i") (auto simp: idle_def split: option.splits if_splits)
qed

text \<open>Some step changes the state as long as \<open>main\<close> has not joined every thread.\<close>

lemma not_stuck:
  assumes r: "represents n s Q" and j: "joined s < n"
  shows "\<exists>s'. mcs_step n s s' \<and> s' \<noteq> s"
proof (cases "created s < n")
  case True
  have "s\<lparr>created := created s + 1\<rparr> \<noteq> s" by (cases s) simp
  with mcs_step.create [OF True] show ?thesis by blast
next
  case False
  then have c: "created s = n" using r by (simp add: represents_def)
  show ?thesis
  proof (cases "\<exists>i<n. thread_func i s \<noteq> s")
    case True
    then obtain i where i: "i < n" "thread_func i s \<noteq> s" by blast
    then have "pc s i \<noteq> Returned" by auto
    with i c show ?thesis by (metis mcs_step.run)
  next
    case False
    then have idle: "idle s i" if "i < n" for i using that idle_iff by blast
    have live: "i < n" if "i \<in> set Q" for i
      using that in_queue [OF r, of i] r c by (force simp: represents_def not_le [symmetric])
    have "Q = []"
    proof (rule ccontr)
      assume "Q \<noteq> []"
      then have h: "hd Q \<in> set Q" by simp
      have w: "pc s (hd Q) = Wait_next" "next_node s (hd Q) = None" "tl Q \<noteq> []"
        using idle [OF live [OF h]] r \<open>Q \<noteq> []\<close> by (auto simp: represents_def head_ok_def idle_def)
      then obtain x y ys where Q: "Q = x # y # ys" by (cases Q; cases "tl Q") auto
      then have "linked s (x # y # ys)" using r by (simp add: represents_def)
      then have "pc s y = Link_prev x" using w Q by (force simp: linked_def dest: spec [of _ 0])
      with idle [OF live, of y] Q show False by (simp add: idle_def)
    qed
    then have "pc s (joined s) = Returned"
      using idle [OF j] in_queue [OF r, of "joined s"] by (auto simp: idle_def)
    moreover have "s\<lparr>joined := joined s + 1\<rparr> \<noteq> s" by (cases s) simp
    ultimately show ?thesis using mcs_step.join [OF c j] by blast
  qed
qed

lemma represents_step:
  assumes "represents n s Q" "mcs_step n s s'"
  shows "\<exists>Q'. represents n s' Q'"
proof -
  have "mcs_rel n s \<lparr>queue = Q, inside = (\<exists>i. holding (pc s i))\<rparr>"
    using assms(1) by (simp add: mcs_rel_def)
  from mcs_step_match [OF this assms(2)] show ?thesis unfolding mcs_rel_def by blast
qed

lemma reaches_join:
  assumes "represents n s Q"
  shows "\<exists>s'. (mcs_step n)\<^sup>*\<^sup>* s s' \<and> joined s' = n"
  using assms
proof (induction "remaining n s" arbitrary: s Q rule: less_induct)
  case less
  show ?case
  proof (cases "joined s < n")
    case True
    with not_stuck [OF less.prems] obtain s1 where s1: "mcs_step n s s1" "s1 \<noteq> s" by blast
    from represents_step [OF less.prems s1(1)] obtain Q1 where "represents n s1 Q1" by blast
    moreover have "remaining n s1 < remaining n s"
      using mcs_step_remaining [OF _ s1] less.prems by (simp add: represents_def)
    ultimately obtain s' where "(mcs_step n)\<^sup>*\<^sup>* s1 s'" "joined s' = n" using less.hyps by blast
    with converse_rtranclp_into_rtranclp [of "mcs_step n", OF s1(1)] show ?thesis by blast
  next
    case False
    with less.prems show ?thesis by (auto simp: represents_def)
  qed
qed

definition moves :: "nat \<Rightarrow> mcs \<Rightarrow> mcs \<Rightarrow> bool" where
  "moves n s s' \<longleftrightarrow> mcs_step n s s' \<and> s' \<noteq> s"

lemma moves_remaining:
  assumes "(moves n ^^ k) s s'" "represents n s Q"
  shows "k + remaining n s' \<le> remaining n s \<and> (\<exists>Q. represents n s' Q)"
  using assms
proof (induction k arbitrary: s')
  case (Suc k)
  then obtain s1 where s1: "(moves n ^^ k) s s1" "moves n s1 s'" by (metis relpowp_Suc_E)
  with Suc obtain Q1 where Q1: "k + remaining n s1 \<le> remaining n s" "represents n s1 Q1" by blast
  have "\<exists>Q. represents n s' Q" using represents_step [OF Q1(2)] s1(2) by (simp add: moves_def)
  moreover have "remaining n s' < remaining n s1"
    using mcs_step_remaining s1(2) Q1(2) by (simp add: moves_def represents_def)
  ultimately show ?case using Q1(1) by simp
qed auto

lemma represents_main_init: "represents n (main_init s) []"
  using main_init_rel [of n s] by (simp add: mcs_rel_def fifo_free_def)

lemma joined_returned_step:
  "mcs_step n s s' \<Longrightarrow> \<forall>i<joined s. pc s i = Returned \<Longrightarrow> \<forall>i<joined s'. pc s' i = Returned"
proof (induction rule: mcs_step.induct)
  case (run i s)
  from pc_thread_func obtain p where "pc (thread_func i s) = (pc s)(i := p)" by blast
  with run show ?case by (auto simp del: thread_func.simps)
qed (auto simp: less_Suc_eq)

lemma moves_joined:
  "(moves n ^^ k) (main_init s) s' \<Longrightarrow> \<forall>i<joined s'. pc s' i = Returned"
proof (induction k arbitrary: s')
  case (Suc k)
  then obtain s1 where "(moves n ^^ k) (main_init s) s1" "moves n s1 s'" by (metis relpowp_Suc_E)
  with Suc.IH joined_returned_step show ?case unfolding moves_def by blast
qed (simp add: main_init_def)

lemma joined_final:
  assumes r: "represents n s Q" and q: "\<forall>i<joined s. pc s i = Returned" and j: "joined s = n"
  shows "(\<nexists>t. moves n s t) \<and> tail s = None \<and> (\<forall>i. pc s i = (if i < n then Returned else Set_next))"
proof -
  have c: "created s = n"
  proof (rule ccontr)
    assume "created s \<noteq> n"
    with r have "created s < n" by (simp add: represents_def)
    with r q j show False by (force simp: represents_def)
  qed
  with r q j have p: "\<forall>i. pc s i = (if i < n then Returned else Set_next)" by (simp add: represents_def)
  then have "Q = []" using in_queue [OF r, of "hd Q"] by (cases Q) (auto split: if_splits)
  then have "tail s = None" using r by (simp add: represents_def)
  moreover have "\<not> mcs_step n s t" for t
    using p c j by (auto elim!: mcs_step.cases split: if_splits)
  ultimately show ?thesis using p by (simp add: moves_def)
qed

section \<open>Properties\<close>

text \<open>
  C1. The Linux queue spinlock implements the first-come-first-served lock: whatever
  the number of threads and their interleaving, every state that is reached represents a state
  that the queue reaches, the threads waiting in memory in the order of their exchanges on the
  tail.
\<close>

theorem mcs_fifo:
  "always (mcs_step n) (main_init s) (\<lambda>c. \<exists>a. fifo_step\<^sup>*\<^sup>* fifo_free a \<and> mcs_rel n c a)"
  by (rule mcs.reachable_queue [OF main_init_rel])

text \<open>
  C2. The Linux queue spinlock excludes: under sequential consistency two threads
  are never both in the critical section, or anywhere between the end of \<open>qspin_lock\<close> and the
  end of \<open>qspin_unlock\<close>, for any number of threads.
\<close>

theorem mcs_mutex:
  "always (mcs_step n) (main_init s) (\<lambda>c. \<exists>i. {j. holding (pc c j)} \<subseteq> {i})"
  by (rule always_mono [OF mcs.mutual_exclusion [OF main_init_rel]]) blast

text \<open>
  C21. The lock never uses a node that is gone: when a thread is about to write
  its predecessor's \<open>next\<close> or its successor's \<open>locked\<close>, that thread has not returned from the
  function whose stack frame holds the node, and the \<open>next\<close> that \<open>qspin_unlock\<close> follows is
  never null.
\<close>

theorem mcs_accesses: "always (mcs_step n) (main_init s) (\<lambda>c. \<forall>i. accesses_ok c i)"
  by (rule always_mono [OF always_represents]) (blast intro: represents_accesses)

text \<open>
  C5. The lock never deadlocks: from every state that is reached there is an
  execution in which \<open>main\<close> joins all its threads.
\<close>

theorem mcs_returns:
  "always (mcs_step n) (main_init s) (\<lambda>c. \<exists>c'. (mcs_step n)\<^sup>*\<^sup>* c c' \<and> joined c' = n)"
  by (rule always_mono [OF always_represents]) (blast intro: reaches_join)

text \<open>
  C13. It terminates but for busy waiting, and with everything done: an execution of
  \<open>n\<close> threads has at most \<open>13 n\<close> steps that change the state, and the only states from which
  no step changes anything are those in which \<open>main\<close> has joined every thread; the lock is then
  free. So no wake-up is lost: an execution whose steps all change the state cannot stop short
  of the end.
\<close>

theorem mcs_bound:
  assumes "(moves n ^^ k) (main_init s) s'"
  shows "k \<le> 13 * n \<and> ((\<nexists>t. moves n s' t) = (joined s' = n)) \<and>
    (joined s' < n \<or> tail s' = None \<and> (\<forall>i. pc s' i = (if i < n then Returned else Set_next)))"
proof -
  from moves_remaining [OF assms represents_main_init] obtain Q where
    k: "k \<le> 13 * n" and r: "represents n s' Q"
    by (auto simp: remaining_def main_init_def qspinlock_init_def)
  from moves_joined [OF assms] have q: "\<forall>i<joined s'. pc s' i = Returned" .
  have more: "\<exists>t. moves n s' t" if "joined s' < n"
    using not_stuck [OF r that] by (auto simp: moves_def)
  have le: "joined s' \<le> n" using r by (simp add: represents_def)
  have final: "(\<nexists>t. moves n s' t) \<and> tail s' = None \<and> (\<forall>i. pc s' i = (if i < n then Returned else Set_next))"
    if "joined s' = n" using joined_final [OF r q that] .
  show ?thesis
  proof (cases "joined s' = n")
    case True
    with final k show ?thesis by simp
  next
    case False
    with le more k show ?thesis by auto
  qed
qed

definition idle_state :: mcs where
  "idle_state = \<lparr>tail = None, next_node = (\<lambda>_. None), locked = (\<lambda>_. False), pc = (\<lambda>_. Returned),
     created = 0, joined = 0\<rparr>"

lemma first_move: "(moves 1 ^^ 1) (main_init idle_state) ((main_init idle_state)\<lparr>created := 1\<rparr>)"
  using create [of "main_init idle_state" 1]
  by (simp add: moves_def main_init_def qspinlock_init_def idle_state_def eq_OO)

theorem mcs_bound_witness:
  "(moves 1 ^^ 1) (main_init idle_state) ((main_init idle_state)\<lparr>created := 1\<rparr>) \<and> (1 :: nat) \<le> 13 * 1 \<and>
   (\<exists>t. moves 1 ((main_init idle_state)\<lparr>created := 1\<rparr>) t)"
  using first_move mcs_bound [OF first_move] by (simp add: main_init_def)

end
