(* ===== verification/Dpdk_Lock.thy ===== *)
theory Dpdk_Lock
  imports Mcs_Lock
begin

text \<open>
  The MCS lock of DPDK, \<open>Layer1/2-DPDK.c\<close>, under sequential consistency. Its two nodes are
  global, number 1 and 2, and each thread chooses one by the number it reads from the loop
  variable of \<open>main\<close>, whose address is its argument. As long as the two threads have chosen
  different nodes the lock is the queue spinlock of Linux, step by step.
\<close>

section \<open>State\<close>

datatype dpdk_pc =
  Read_id | Store_locked | Store_next | Exchange | Store_prev nat | Fence_acq_rel | Load_locked
| Inside
| Load_next | Compare_exchange | Fence_acquire | Load_next_again | Load_successor | Store_successor nat
| Done | Crashed

datatype dpdk_main_pc = Create | Increment | Join nat | End

record dpdk =
  global_lock :: "nat option"
  next_of :: "nat \<Rightarrow> nat option"
  locked_of :: "nat \<Rightarrow> c_int"
  dpdk_pc :: "nat \<Rightarrow> dpdk_pc"
  loop_i :: nat
  dpdk_main_pc :: dpdk_main_pc

definition move :: "nat \<Rightarrow> dpdk_pc \<Rightarrow> dpdk \<Rightarrow> dpdk" where
  "move i p s = s\<lparr>dpdk_pc := (dpdk_pc s)(i := p)\<rparr>"

section \<open>Operations\<close>

text \<open>
  The steps of thread \<open>i\<close> with the node \<open>me\<close>; a thread that follows a null pointer has crashed.
\<close>

definition rte_mcslock_lock :: "nat \<Rightarrow> nat \<Rightarrow> dpdk \<Rightarrow> dpdk" where
  "rte_mcslock_lock me i s = (case dpdk_pc s i of
     Store_locked \<Rightarrow> move i Store_next (s\<lparr>locked_of := (locked_of s)(me := 1)\<rparr>)
   | Store_next \<Rightarrow> move i Exchange (s\<lparr>next_of := (next_of s)(me := None)\<rparr>)
   | Exchange \<Rightarrow>
       (case global_lock s of
          None \<Rightarrow> move i Inside (s\<lparr>global_lock := Some me\<rparr>)
        | Some prev \<Rightarrow> move i (Store_prev prev) (s\<lparr>global_lock := Some me\<rparr>))
   | Store_prev prev \<Rightarrow> move i Fence_acq_rel (s\<lparr>next_of := (next_of s)(prev := Some me)\<rparr>)
   | Fence_acq_rel \<Rightarrow> move i Load_locked s
   | Load_locked \<Rightarrow> if locked_of s me \<noteq> 0 then s else move i Inside s
   | _ \<Rightarrow> s)"

definition rte_mcslock_unlock :: "nat \<Rightarrow> nat \<Rightarrow> dpdk \<Rightarrow> dpdk" where
  "rte_mcslock_unlock me i s = (case dpdk_pc s i of
     Load_next \<Rightarrow> if next_of s me = None then move i Compare_exchange s else move i Load_successor s
   | Compare_exchange \<Rightarrow>
       if global_lock s = Some me then move i Done (s\<lparr>global_lock := None\<rparr>) else move i Fence_acquire s
   | Fence_acquire \<Rightarrow> move i Load_next_again s
   | Load_next_again \<Rightarrow> if next_of s me = None then s else move i Load_successor s
   | Load_successor \<Rightarrow> (case next_of s me of None \<Rightarrow> move i Crashed s | Some n \<Rightarrow> move i (Store_successor n) s)
   | Store_successor n \<Rightarrow> move i Done (s\<lparr>locked_of := (locked_of s)(n := 0)\<rparr>)
   | _ \<Rightarrow> s)"

definition node_of :: "nat \<Rightarrow> nat" where
  "node_of thread_id = (if thread_id = 1 then 1 else 2)"

definition in_lock :: "dpdk_pc \<Rightarrow> bool" where
  "in_lock p \<longleftrightarrow> (case p of Store_locked \<Rightarrow> True | Store_next \<Rightarrow> True | Exchange \<Rightarrow> True | Store_prev _ \<Rightarrow> True
     | Fence_acq_rel \<Rightarrow> True | Load_locked \<Rightarrow> True | _ \<Rightarrow> False)"

text \<open>Thread \<open>i\<close>, which reads or has read \<open>thread_id\<close>.\<close>

definition thread_func_dpdk :: "nat \<Rightarrow> nat \<Rightarrow> dpdk \<Rightarrow> dpdk" where
  "thread_func_dpdk thread_id i s =
     (if dpdk_pc s i = Read_id then move i Store_locked s
      else if in_lock (dpdk_pc s i) then rte_mcslock_lock (node_of thread_id) i s
      else if dpdk_pc s i = Inside then move i Load_next s
      else rte_mcslock_unlock (node_of thread_id) i s)"

text \<open>
  \<open>main\<close>: the loop variable is read by the threads while \<open>main\<close> increments it; after the loop,
  when its lifetime has ended, it is taken to keep its last value.
\<close>

definition main_dpdk :: "dpdk \<Rightarrow> dpdk" where
  "main_dpdk s = (case dpdk_main_pc s of
     Create \<Rightarrow> s\<lparr>dpdk_main_pc := Increment\<rparr>
   | Increment \<Rightarrow> s\<lparr>loop_i := loop_i s + 1, dpdk_main_pc := (if loop_i s + 1 < 2 then Create else Join 0)\<rparr>
   | Join k \<Rightarrow> if dpdk_pc s k = Done then s\<lparr>dpdk_main_pc := (if k = 0 then Join 1 else End)\<rparr> else s
   | End \<Rightarrow> s)"

fun threads_created :: "dpdk_main_pc \<Rightarrow> nat \<Rightarrow> nat" where
  "threads_created Create i = i" | "threads_created Increment i = i + 1" | "threads_created _ i = 2"

abbreviation dpdk_created :: "dpdk \<Rightarrow> nat" where
  "dpdk_created s \<equiv> threads_created (dpdk_main_pc s) (loop_i s)"

text \<open>The executions in which thread \<open>i\<close> reads the number \<open>ids i\<close>.\<close>

inductive dpdk_step :: "(nat \<Rightarrow> nat) \<Rightarrow> dpdk \<Rightarrow> dpdk \<Rightarrow> bool" for ids where
  dpdk_thread: "i < dpdk_created s \<Longrightarrow> dpdk_pc s i \<noteq> Done \<Longrightarrow> (dpdk_pc s i = Read_id \<Longrightarrow> ids i = loop_i s) \<Longrightarrow>
    dpdk_step ids s (thread_func_dpdk (ids i) i s)"
| dpdk_main: "dpdk_step ids s (main_dpdk s)"

definition dpdk_init :: dpdk where
  "dpdk_init = \<lparr>global_lock = None, next_of = (\<lambda>_. None), locked_of = (\<lambda>_. 0), dpdk_pc = (\<lambda>_. Read_id),
     loop_i = 0, dpdk_main_pc = Create\<rparr>"

section \<open>The queue spinlock of Linux, with other nodes\<close>

lemma targets_queued:
  assumes r: "represents n s Q"
  shows "pc s i = Link_prev p \<Longrightarrow> queued (pc s p) \<and> p \<noteq> i"
    and "pc s i = Clear_locked q \<Longrightarrow> queued (pc s q) \<and> q \<noteq> i"
    and "tail s = Some t \<Longrightarrow> queued (pc s t)"
    and "queued (pc s j) \<Longrightarrow> j < created s \<and> j < n"
    and "pc s i = Get_next \<Longrightarrow> next_node s i \<noteq> None"
proof -
  have late: "\<forall>j\<ge>created s. pc s j = Set_next" and c: "created s \<le> n" using r by (simp_all add: represents_def)
  show live: "queued (pc s j) \<Longrightarrow> j < created s \<and> j < n" for j using late c by (metis not_le order_less_le_trans pc_simps(9))
  show "queued (pc s p) \<and> p \<noteq> i" if l: "pc s i = Link_prev p"
  proof -
    from linking_later [OF r l] have "i \<in> set Q" "i \<noteq> hd Q" by auto
    then obtain k where "Suc k < length Q" "i = Q ! Suc k" "p = Q ! k"
      by (rule later [OF r]) (use l in auto)
    moreover have "distinct Q" using r by (simp add: represents_def)
    ultimately show ?thesis using in_queue [OF r, of p] by (auto simp: nth_eq_iff_index_eq)
  qed
  show "queued (pc s q) \<and> q \<noteq> i" if l: "pc s i = Clear_locked q"
  proof -
    have "i < created s" using live [of i] l by simp
    from handover_step(5) [OF r l this] l show ?thesis by auto
  qed
  show "queued (pc s t)" if "tail s = Some t"
    using that r in_queue [OF r, of t] by (auto simp: represents_def split: if_splits)
  show "next_node s i \<noteq> None" if "pc s i = Get_next"
    using represents_accesses [OF r, of i] that by (simp add: accesses_ok_def)
qed

fun pc_matches :: "(nat \<Rightarrow> nat) \<Rightarrow> dpdk_pc \<Rightarrow> mcs_pc \<Rightarrow> bool" where
  "pc_matches f Read_id p \<longleftrightarrow> p = Set_next"
| "pc_matches f Store_locked p \<longleftrightarrow> p = Set_next"
| "pc_matches f Store_next p \<longleftrightarrow> p = Set_locked"
| "pc_matches f Exchange p \<longleftrightarrow> p = Swap_tail"
| "pc_matches f (Store_prev q) p \<longleftrightarrow> (\<exists>j. p = Link_prev j \<and> q = f j)"
| "pc_matches f Fence_acq_rel p \<longleftrightarrow> p = Wait_locked"
| "pc_matches f Load_locked p \<longleftrightarrow> p = Wait_locked"
| "pc_matches f Inside p \<longleftrightarrow> p = Critical"
| "pc_matches f Load_next p \<longleftrightarrow> p = Test_next"
| "pc_matches f Compare_exchange p \<longleftrightarrow> p = Swap_null"
| "pc_matches f Fence_acquire p \<longleftrightarrow> p = Wait_next"
| "pc_matches f Load_next_again p \<longleftrightarrow> p = Wait_next"
| "pc_matches f Load_successor p \<longleftrightarrow> p = Get_next"
| "pc_matches f (Store_successor q) p \<longleftrightarrow> (\<exists>j. p = Clear_locked j \<and> q = f j)"
| "pc_matches f Done p \<longleftrightarrow> p = Returned"
| "pc_matches f Crashed p \<longleftrightarrow> False"

text \<open>From the exchange on, the two locks agree on the thread's node.\<close>

definition nodes_match :: "(nat \<Rightarrow> nat) \<Rightarrow> dpdk \<Rightarrow> mcs \<Rightarrow> nat \<Rightarrow> bool" where
  "nodes_match f d m i \<longleftrightarrow>
     (pc m i = Set_locked \<longrightarrow> locked_of d (f i) \<noteq> 0) \<and>
     (pc m i = Swap_tail \<or> queued (pc m i) \<longrightarrow>
        next_of d (f i) = map_option f (next_node m i) \<and> (locked_of d (f i) \<noteq> 0 \<longleftrightarrow> locked m i))"

fun threads_joined :: "dpdk_main_pc \<Rightarrow> nat" where
  "threads_joined (Join k) = k" | "threads_joined End = 2" | "threads_joined _ = 0"

definition matches :: "(nat \<Rightarrow> nat) \<Rightarrow> dpdk \<Rightarrow> mcs \<Rightarrow> bool" where
  "matches f d m \<longleftrightarrow> (\<forall>i. pc_matches f (dpdk_pc d i) (pc m i)) \<and> (\<forall>i<2. nodes_match f d m i) \<and>
     global_lock d = map_option f (tail m) \<and> created m = dpdk_created d \<and> joined m = threads_joined (dpdk_main_pc d) \<and>
     (dpdk_main_pc d \<in> {Create, Increment} \<longrightarrow> loop_i d < 2) \<and> (\<forall>k. dpdk_main_pc d = Join k \<longrightarrow> k < 2)"


lemma move_simps [simp]:
  "global_lock (move i p d) = global_lock d" "next_of (move i p d) = next_of d" "locked_of (move i p d) = locked_of d"
  "dpdk_pc (move i p d) = (dpdk_pc d)(i := p)" "dpdk_main_pc (move i p d) = dpdk_main_pc d"
  "loop_i (move i p d) = loop_i d"
  by (simp_all add: move_def)

text \<open>A step of thread \<open>i\<close> on both sides, by what it does to the nodes.\<close>

lemma matches_move:
  assumes "matches f d m" "pc_matches f p q"
    and "dpdk_pc d' = (dpdk_pc d)(i := p)" "pc m' = (pc m)(i := q)"
    and "\<And>j. j < 2 \<Longrightarrow> nodes_match f d' m' j" "global_lock d' = map_option f (tail m')"
    and "dpdk_main_pc d' = dpdk_main_pc d" "loop_i d' = loop_i d" "created m' = created m" "joined m' = joined m"
  shows "matches f d' m'"
  using assms by (simp add: matches_def)

lemma matches_pc: "matches f d m \<Longrightarrow> pc_matches f (dpdk_pc d i) (pc m i)"
  by (simp add: matches_def)

lemma matches_node: "matches f d m \<Longrightarrow> i < 2 \<Longrightarrow> nodes_match f d m i"
  by (simp add: matches_def)

lemma matches_lock: "matches f d m \<Longrightarrow> global_lock d = map_option f (tail m)"
  by (simp add: matches_def)

text \<open>Steps that only move the program counter.\<close>

lemma matches_goto:
  assumes "matches f d m" "pc_matches f p q" "i < 2" "q = pc m i \<or> queued (pc m i)" "q \<noteq> Swap_tail" "q \<noteq> Set_locked"
  shows "matches f (move i p d) (goto i q m)"
proof (rule matches_move [OF assms(1,2)])
  fix j :: nat assume "j < 2"
  then have "nodes_match f d m j" by (rule matches_node [OF assms(1)])
  then show "nodes_match f (move i p d) (goto i q m) j"
    using assms(4,5,6) by (cases "j = i") (auto simp: nodes_match_def)
qed (use matches_lock [OF assms(1)] in simp_all)

lemma two_nodes:
  assumes "f 0 \<noteq> f 1" "i < (2 :: nat)" "j < 2"
  shows "f i = f j \<longleftrightarrow> i = j"
  using assms by (auto simp: less_2_cases_iff)

lemma goto_same: "pc m i = p \<Longrightarrow> goto i p m = m"
  by (auto simp: goto_def)

lemmas dpdk_defs = thread_func_dpdk_def rte_mcslock_lock_def rte_mcslock_unlock_def in_lock_def

text \<open>Each step of a thread of DPDK is the step of the Linux lock, or none.\<close>

definition follows :: "(nat \<Rightarrow> nat) \<Rightarrow> nat \<Rightarrow> dpdk \<Rightarrow> mcs \<Rightarrow> bool" where
  "follows f i d' m \<longleftrightarrow> matches f d' m \<or> pc m i \<noteq> Returned \<and> matches f d' (thread_func i m)"

lemma follows_stay: "matches f d m \<Longrightarrow> pc_matches f p (pc m i) \<Longrightarrow> i < 2 \<Longrightarrow> pc m i \<noteq> Swap_tail \<Longrightarrow>
    pc m i \<noteq> Set_locked \<Longrightarrow> follows f i (move i p d) m"
  using matches_goto [of f d m p "pc m i" i] by (simp add: follows_def goto_same)

lemma follows_goto: "matches f d m \<Longrightarrow> pc_matches f p q \<Longrightarrow> i < 2 \<Longrightarrow> queued (pc m i) \<Longrightarrow> q \<noteq> Swap_tail \<Longrightarrow>
    q \<noteq> Set_locked \<Longrightarrow> thread_func i m = goto i q m \<Longrightarrow> follows f i (move i p d) m"
  using matches_goto [of f d m p q i] by (auto simp: follows_def)

lemma lock_follows:
  assumes M: "matches f d m" and R: "represents 2 m Q" and f: "f 0 \<noteq> f 1" and i: "i < 2"
    and p: "in_lock (dpdk_pc d i)"
  shows "follows f i (rte_mcslock_lock (f i) i d) m"
proof -
  note mp = matches_pc [OF M, of i] and node = matches_node [OF M] and two = two_nodes [OF f]
  show ?thesis
  proof (cases "dpdk_pc d i")
    case Store_locked
    then have q: "pc m i = Set_next" using mp by simp
    have "matches f (rte_mcslock_lock (f i) i d) (thread_func i m)"
    proof (rule matches_move [OF M, where i = i])
      fix j :: nat assume "j < 2"
      then show "nodes_match f (rte_mcslock_lock (f i) i d) (thread_func i m) j"
        using node [of j] two [of i j] Store_locked q i
        by (cases "j = i") (auto simp: nodes_match_def rte_mcslock_lock_def)
    qed (use Store_locked q matches_lock [OF M] in \<open>simp_all add: rte_mcslock_lock_def\<close>)
    then show ?thesis using q by (simp add: follows_def)
  next
    case Store_next
    then have q: "pc m i = Set_locked" using mp by simp
    then have n: "next_node m i = None" using R by (auto simp: represents_def outside_ok_def)
    have "matches f (rte_mcslock_lock (f i) i d) (thread_func i m)"
    proof (rule matches_move [OF M, where i = i])
      fix j :: nat assume "j < 2"
      then show "nodes_match f (rte_mcslock_lock (f i) i d) (thread_func i m) j"
        using node [of j] two [of i j] Store_next q i n
        by (cases "j = i") (auto simp: nodes_match_def rte_mcslock_lock_def)
    qed (use Store_next q matches_lock [OF M] in \<open>simp_all add: rte_mcslock_lock_def\<close>)
    then show ?thesis using q by (simp add: follows_def)
  next
    case Exchange
    then have q: "pc m i = Swap_tail" using mp by simp
    have "matches f (rte_mcslock_lock (f i) i d) (thread_func i m)"
    proof (rule matches_move [OF M, where i = i])
      show "pc_matches f (case tail m of None \<Rightarrow> Inside | Some t \<Rightarrow> Store_prev (f t))
          (case tail m of None \<Rightarrow> Critical | Some t \<Rightarrow> Link_prev t)"
        by (simp split: option.split)
      fix j :: nat assume "j < 2"
      then show "nodes_match f (rte_mcslock_lock (f i) i d) (thread_func i m) j"
        using node [of j] Exchange q i matches_lock [OF M]
        by (cases "j = i") (auto simp: nodes_match_def rte_mcslock_lock_def split: option.split)
    qed (use Exchange q matches_lock [OF M] in \<open>simp_all add: rte_mcslock_lock_def split: option.split\<close>)
    then show ?thesis using q by (simp add: follows_def)
  next
    case (Store_prev g)
    then obtain t where q: "pc m i = Link_prev t" "g = f t" using mp by auto
    then have t: "t < 2" "t \<noteq> i" using targets_queued(1,4) [OF R] by blast+
    have "matches f (rte_mcslock_lock (f i) i d) (thread_func i m)"
    proof (rule matches_move [OF M, where i = i])
      fix j :: nat assume "j < 2"
      then show "nodes_match f (rte_mcslock_lock (f i) i d) (thread_func i m) j"
        using node [of j] two [of t j] Store_prev q i t
        by (cases "j = t"; cases "j = i") (auto simp: nodes_match_def rte_mcslock_lock_def)
    qed (use Store_prev q matches_lock [OF M] in \<open>simp_all add: rte_mcslock_lock_def\<close>)
    then show ?thesis using q by (simp add: follows_def)
  next
    case Fence_acq_rel
    then show ?thesis using mp follows_stay [OF M, of Load_locked i] i by (simp add: rte_mcslock_lock_def)
  next
    case Load_locked
    then have q: "pc m i = Wait_locked" using mp by simp
    then have l: "locked_of d (f i) \<noteq> 0 \<longleftrightarrow> locked m i" using node [OF i] by (simp add: nodes_match_def)
    show ?thesis
    proof (cases "locked m i")
      case True
      then show ?thesis using M l Load_locked by (simp add: follows_def rte_mcslock_lock_def)
    next
      case False
      then show ?thesis using l Load_locked q follows_goto [OF M, of Inside Critical i] i
        by (simp add: rte_mcslock_lock_def)
    qed
  qed (use p in \<open>simp_all add: in_lock_def\<close>)
qed

lemma unlock_follows:
  assumes M: "matches f d m" and R: "represents 2 m Q" and f: "f 0 \<noteq> f 1" and i: "i < 2"
    and p: "\<not> in_lock (dpdk_pc d i)" "dpdk_pc d i \<notin> {Read_id, Inside, Done}"
  shows "follows f i (rte_mcslock_unlock (f i) i d) m"
proof -
  note mp = matches_pc [OF M, of i] and node = matches_node [OF M] and two = two_nodes [OF f]
  have q: "queued (pc m i)" using mp p by (cases "dpdk_pc d i") (auto simp: in_lock_def)
  have n: "next_of d (f i) = map_option f (next_node m i)" using node [OF i] q by (simp add: nodes_match_def)
  show ?thesis
  proof (cases "dpdk_pc d i")
    case Load_next
    then have "pc m i = Test_next" using mp by simp
    then show ?thesis
      using Load_next n i follows_goto [OF M, of Compare_exchange Swap_null i] follows_goto [OF M, of Load_successor Get_next i]
      by (cases "next_node m i") (simp_all add: rte_mcslock_unlock_def)
  next
    case Compare_exchange
    then have c: "pc m i = Swap_null" using mp by simp
    have t: "global_lock d = Some (f i) \<longleftrightarrow> tail m = Some i"
    proof (cases "tail m")
      case (Some t)
      then have "t < 2" using targets_queued(3,4) [OF R] by blast
      with Some two [of t i] i show ?thesis using matches_lock [OF M] by simp
    qed (use matches_lock [OF M] in simp)
    show ?thesis
    proof (cases "tail m = Some i")
      case True
      have "matches f (rte_mcslock_unlock (f i) i d) (thread_func i m)"
      proof (rule matches_move [OF M, where i = i])
        fix j :: nat assume "j < 2"
        then show "nodes_match f (rte_mcslock_unlock (f i) i d) (thread_func i m) j"
          using node [of j] Compare_exchange c t True
          by (cases "j = i") (auto simp: nodes_match_def rte_mcslock_unlock_def)
      qed (use Compare_exchange c t True in \<open>simp_all add: rte_mcslock_unlock_def\<close>)
      then show ?thesis using c by (simp add: follows_def)
    next
      case False
      then show ?thesis using t c Compare_exchange i follows_goto [OF M, of Fence_acquire Wait_next i]
        by (simp add: rte_mcslock_unlock_def)
    qed
  next
    case Fence_acquire
    then show ?thesis using mp follows_stay [OF M, of Load_next_again i] i by (simp add: rte_mcslock_unlock_def)
  next
    case Load_next_again
    then have c: "pc m i = Wait_next" using mp by simp
    show ?thesis
    proof (cases "next_node m i")
      case None
      then show ?thesis using M n Load_next_again by (simp add: follows_def rte_mcslock_unlock_def)
    next
      case (Some j)
      then show ?thesis using n c Load_next_again i follows_goto [OF M, of Load_successor Get_next i]
        by (simp add: rte_mcslock_unlock_def)
    qed
  next
    case Load_successor
    then have c: "pc m i = Get_next" using mp by simp
    then obtain j where "next_node m i = Some j" using targets_queued(5) [OF R] by blast
    then show ?thesis using n c Load_successor i follows_goto [OF M, of "Store_successor (f j)" "Clear_locked j" i]
      by (simp add: rte_mcslock_unlock_def)
  next
    case (Store_successor g)
    then obtain t where c: "pc m i = Clear_locked t" "g = f t" using mp by auto
    then have t: "t < 2" "t \<noteq> i" "queued (pc m t)" using targets_queued(2,4) [OF R] by blast+
    have "matches f (rte_mcslock_unlock (f i) i d) (thread_func i m)"
    proof (rule matches_move [OF M, where i = i])
      fix j :: nat assume "j < 2"
      then show "nodes_match f (rte_mcslock_unlock (f i) i d) (thread_func i m) j"
        using node [of j] two [of t j] Store_successor c t
        by (cases "j = t"; cases "j = i") (auto simp: nodes_match_def rte_mcslock_unlock_def)
    qed (use Store_successor c matches_lock [OF M] in \<open>simp_all add: rte_mcslock_unlock_def\<close>)
    then show ?thesis using c by (simp add: follows_def)
  qed (use p mp in \<open>simp_all add: in_lock_def\<close>)
qed

lemma thread_follows:
  assumes M: "matches (node_of \<circ> ids) d m" and R: "represents 2 m Q" and f: "node_of (ids 0) \<noteq> node_of (ids 1)"
    and i: "i < 2" and p: "dpdk_pc d i \<noteq> Done"
  shows "follows (node_of \<circ> ids) i (thread_func_dpdk (ids i) i d) m"
proof -
  note mp = matches_pc [OF M, of i]
  consider "dpdk_pc d i = Read_id" | "dpdk_pc d i = Inside" | "in_lock (dpdk_pc d i)" "dpdk_pc d i \<noteq> Read_id"
    | "\<not> in_lock (dpdk_pc d i)" "dpdk_pc d i \<notin> {Read_id, Inside, Done}" using p by blast
  then show ?thesis
  proof cases
    case 1
    then show ?thesis using mp follows_stay [OF M, of Store_locked i] i by (simp add: thread_func_dpdk_def)
  next
    case 2
    then show ?thesis using mp follows_goto [OF M, of Load_next Test_next i] i
      by (simp add: thread_func_dpdk_def in_lock_def)
  next
    case 3
    then show ?thesis using lock_follows [OF M R _ i] f by (simp add: thread_func_dpdk_def)
  next
    case 4
    then show ?thesis using unlock_follows [OF M R _ i] f by (simp add: thread_func_dpdk_def)
  qed
qed

lemma main_follows:
  assumes M: "matches f d m"
  shows "\<exists>m'. (m' = m \<or> mcs_step 2 m m') \<and> matches f (main_dpdk d) m'"
proof (cases "dpdk_main_pc d")
  case Create
  then have "mcs_step 2 m (m\<lparr>created := created m + 1\<rparr>)" using M by (intro create) (simp add: matches_def)
  moreover have "matches f (main_dpdk d) (m\<lparr>created := created m + 1\<rparr>)"
    using M Create by (simp add: matches_def main_dpdk_def nodes_match_def)
  ultimately show ?thesis by blast
next
  case Increment
  then have "matches f (main_dpdk d) m" using M by (auto simp: matches_def main_dpdk_def nodes_match_def)
  then show ?thesis by blast
next
  case (Join k)
  show ?thesis
  proof (cases "dpdk_pc d k = Done")
    case True
    then have "pc m k = Returned" using matches_pc [OF M, of k] by simp
    then have "mcs_step 2 m (m\<lparr>joined := joined m + 1\<rparr>)" using M Join by (intro join) (simp_all add: matches_def)
    moreover have "matches f (main_dpdk d) (m\<lparr>joined := joined m + 1\<rparr>)"
      using M Join True by (auto simp: matches_def main_dpdk_def nodes_match_def less_2_cases_iff)
    ultimately show ?thesis by blast
  next
    case False
    then have "main_dpdk d = d" using Join by (simp add: main_dpdk_def)
    with M show ?thesis by metis
  qed
next
  case End
  then have "main_dpdk d = d" by (simp add: main_dpdk_def)
  with M show ?thesis by metis
qed

text \<open>The relation to the first-come-first-served lock goes through the Linux lock.\<close>

definition dpdk_rel :: "(nat \<Rightarrow> nat) \<Rightarrow> dpdk \<Rightarrow> fifo \<Rightarrow> bool" where
  "dpdk_rel ids d a \<longleftrightarrow> node_of (ids 0) \<noteq> node_of (ids 1) \<and>
     (\<exists>m. matches (node_of \<circ> ids) d m \<and> mcs_rel 2 m a)"

definition dpdk_holds :: "dpdk \<Rightarrow> nat \<Rightarrow> bool" where
  "dpdk_holds d i \<longleftrightarrow> \<not> in_lock (dpdk_pc d i) \<and> dpdk_pc d i \<notin> {Read_id, Done}"

lemma dpdk_step_follows:
  assumes "matches (node_of \<circ> ids) d m" "mcs_rel 2 m a" "node_of (ids 0) \<noteq> node_of (ids 1)" "dpdk_step ids d d'"
  shows "\<exists>m'. (m' = m \<or> mcs_step 2 m m') \<and> matches (node_of \<circ> ids) d' m'"
  using assms(4)
proof cases
  case (dpdk_thread i)
  have R: "represents 2 m (queue a)" using assms(2) by (simp add: mcs_rel_def)
  have c: "created m = dpdk_created d" using assms(1) by (simp add: matches_def)
  have "created m \<le> 2" using R by (simp add: represents_def)
  with c dpdk_thread have i: "i < 2" "i < created m" by simp_all
  from thread_follows [OF assms(1) R assms(3) i(1) dpdk_thread(3)] dpdk_thread(1) show ?thesis
    unfolding follows_def using run [OF i(2)] by blast
next
  case dpdk_main
  with main_follows [OF assms(1)] show ?thesis by blast
qed

interpretation dpdk: queue_lock "dpdk_step ids" "dpdk_rel ids" dpdk_holds for ids
proof
  fix d a d' assume "dpdk_rel ids d a" "dpdk_step ids d d'"
  then obtain m where f: "node_of (ids 0) \<noteq> node_of (ids 1)" and m: "matches (node_of \<circ> ids) d m" "mcs_rel 2 m a"
    by (auto simp: dpdk_rel_def)
  from dpdk_step_follows [OF m f \<open>dpdk_step ids d d'\<close>] obtain m'
    where m': "m' = m \<or> mcs_step 2 m m'" "matches (node_of \<circ> ids) d' m'" by blast
  with mcs_step_match [OF m(2)] m(2) obtain a' where "fifo_step\<^sup>*\<^sup>* a a'" "mcs_rel 2 m' a'" by blast
  with m'(2) f show "\<exists>a'. fifo_step\<^sup>*\<^sup>* a a' \<and> dpdk_rel ids d' a'" by (auto simp: dpdk_rel_def)
next
  fix d a i assume "dpdk_rel ids d a" "dpdk_holds d i"
  then obtain m where m: "matches (node_of \<circ> ids) d m" "mcs_rel 2 m a" by (auto simp: dpdk_rel_def)
  have "holding (pc m i)" using \<open>dpdk_holds d i\<close> matches_pc [OF m(1), of i]
    by (cases "dpdk_pc d i") (auto simp: dpdk_holds_def in_lock_def)
  then show "inside a \<and> queue a \<noteq> [] \<and> i = hd (queue a)" by (rule mcs.holder_first [OF m(2)])
qed

lemma dpdk_init_rel:
  assumes "node_of (ids 0) \<noteq> node_of (ids 1)"
  shows "dpdk_rel ids dpdk_init fifo_free"
proof -
  have "matches (node_of \<circ> ids) dpdk_init (main_init s)" for s
    by (simp add: matches_def dpdk_init_def main_init_def qspinlock_init_def nodes_match_def)
  with main_init_rel [of 2] assms show ?thesis unfolding dpdk_rel_def by blast
qed

lemma no_crash: "dpdk_rel ids d a \<Longrightarrow> dpdk_pc d i \<noteq> Crashed"
  by (auto simp: dpdk_rel_def dest!: matches_pc [of _ d _ i])

section \<open>Executions\<close>

datatype dpdk_move = Main | Thread nat

definition dpdk_perform :: "(nat \<Rightarrow> nat) \<Rightarrow> dpdk \<Rightarrow> dpdk_move \<Rightarrow> dpdk" where
  "dpdk_perform ids s x = (case x of
     Main \<Rightarrow> main_dpdk s
   | Thread i \<Rightarrow>
       if i < dpdk_created s \<and> dpdk_pc s i \<noteq> Done \<and> (dpdk_pc s i = Read_id \<longrightarrow> ids i = loop_i s)
       then thread_func_dpdk (ids i) i s else s)"

definition dpdk_run :: "(nat \<Rightarrow> nat) \<Rightarrow> dpdk_move list \<Rightarrow> dpdk" where
  "dpdk_run ids xs = foldl (dpdk_perform ids) dpdk_init xs"

lemma dpdk_run_reach: "(dpdk_step ids)\<^sup>*\<^sup>* dpdk_init (dpdk_run ids xs)"
  unfolding dpdk_run_def
proof (rule foldl_reach)
  fix s x show "(dpdk_step ids)\<^sup>*\<^sup>* s (dpdk_perform ids s x)"
    by (cases x) (auto simp: dpdk_perform_def intro: r_into_rtranclp dpdk_thread dpdk_main)
qed

text \<open>
  Both threads read the number 1 and use the same node. The first one finds no successor; the
  second one queues up behind itself; the first one then frees the lock.
\<close>

definition same_node :: "dpdk_move list" where
  "same_node = [Main, Main] @ replicate 6 (Thread 0) @ [Main] @ replicate 4 (Thread 1) @ [Thread 0] @ replicate 2 (Thread 1)"

definition self_waiting :: "dpdk \<Rightarrow> bool" where
  "self_waiting d \<longleftrightarrow> dpdk_pc d 0 = Done \<and> dpdk_pc d 1 = Load_locked \<and> locked_of d 1 = 1 \<and>
     (dpdk_main_pc d = Increment \<and> loop_i d = 1 \<or> dpdk_main_pc d = Join 0 \<or> dpdk_main_pc d = Join 1)"

lemma self_waiting_state: "self_waiting (dpdk_run (\<lambda>_. 1) same_node)"
  by code_simp

lemma self_waiting_step: "dpdk_step (\<lambda>_. 1) d d' \<Longrightarrow> self_waiting d \<Longrightarrow> self_waiting d'"
proof (erule dpdk_step.cases)
  fix i s assume "d = s" "d' = thread_func_dpdk 1 i s" "i < dpdk_created s" "dpdk_pc s i \<noteq> Done" "self_waiting d"
  moreover from this have "i = 1" by (auto simp: self_waiting_def less_Suc_eq numeral_2_eq_2)
  ultimately show "self_waiting d'" by (simp add: self_waiting_def dpdk_defs node_of_def)
qed (auto simp: self_waiting_def main_dpdk_def)

section \<open>Properties\<close>

text \<open>
  C3. If the two threads read numbers that give them different nodes, the DPDK lock implements the
  first-come-first-served lock, through the Linux lock, no two threads are ever both between
  the end of \<open>rte_mcslock_lock\<close> and the end of \<open>rte_mcslock_unlock\<close>, and none crashes.
\<close>

theorem dpdk_fifo:
  assumes "node_of (ids 0) \<noteq> node_of (ids 1)"
  shows "always (dpdk_step ids) dpdk_init (\<lambda>d. (\<exists>a. fifo_step\<^sup>*\<^sup>* fifo_free a \<and> dpdk_rel ids d a) \<and>
    (\<exists>i. {j. dpdk_holds d j} \<subseteq> {i}) \<and> (\<forall>i. dpdk_pc d i \<noteq> Crashed))"
  unfolding always_conj
proof (intro conjI)
  show "always (dpdk_step ids) dpdk_init (\<lambda>d. \<exists>a. fifo_step\<^sup>*\<^sup>* fifo_free a \<and> dpdk_rel ids d a)"
    by (rule dpdk.reachable_queue [OF dpdk_init_rel [OF assms]])
  show "always (dpdk_step ids) dpdk_init (\<lambda>d. \<exists>i. {j. dpdk_holds d j} \<subseteq> {i})"
    by (rule always_mono [OF dpdk.mutual_exclusion [OF dpdk_init_rel [OF assms]]]) blast
  show "always (dpdk_step ids) dpdk_init (\<lambda>d. \<forall>i. dpdk_pc d i \<noteq> Crashed)"
    by (rule always_mono [OF dpdk.reachable_queue [OF dpdk_init_rel [OF assms]]]) (auto dest: no_crash)
qed

definition first_holds :: dpdk where
  "first_holds = dpdk_run id ([Main] @ replicate 4 (Thread 0))"

lemma first_holds_state: "dpdk_holds first_holds 0"
  by code_simp

theorem dpdk_fifo_witness:
  "node_of (id 0) \<noteq> node_of (id 1) \<and> (dpdk_step id)\<^sup>*\<^sup>* dpdk_init first_holds \<and> {j. dpdk_holds first_holds j} = {0}"
proof -
  have n: "node_of (id 0) \<noteq> node_of (id 1)" by (simp add: node_of_def)
  have r: "(dpdk_step id)\<^sup>*\<^sup>* dpdk_init first_holds" unfolding first_holds_def by (rule dpdk_run_reach)
  from alwaysD [OF dpdk_fifo [OF n] r] obtain i where "{j. dpdk_holds first_holds j} \<subseteq> {i}" by blast
  with first_holds_state have "{j. dpdk_holds first_holds j} = {0}" by auto
  with n r show ?thesis by blast
qed

text \<open>
  C35. But \<open>main\<close> gives both threads the address of its loop variable. When both read 1 they use the
  same node and the lock can deadlock: the first thread has returned and the second waits
  forever for a flag that only itself could clear.
\<close>

theorem dpdk_deadlock:
  "\<exists>d. (dpdk_step (\<lambda>_. 1))\<^sup>*\<^sup>* dpdk_init d \<and> always (dpdk_step (\<lambda>_. 1)) d
     (\<lambda>e. dpdk_pc e 0 = Done \<and> dpdk_pc e 1 = Load_locked \<and> locked_of e 1 = 1 \<and> dpdk_main_pc e \<noteq> End)"
proof -
  have "always (dpdk_step (\<lambda>_. 1)) (dpdk_run (\<lambda>_. 1) same_node)
     (\<lambda>e. dpdk_pc e 0 = Done \<and> dpdk_pc e 1 = Load_locked \<and> locked_of e 1 = 1 \<and> dpdk_main_pc e \<noteq> End)"
    by (rule always_invariant [of self_waiting, OF self_waiting_state])
      (rule self_waiting_step, assumption+, auto simp: self_waiting_def)
  with dpdk_run_reach show ?thesis by blast
qed

end
