(* ===== verification/Clh_Lock.thy ===== *)
theory Clh_Lock
  imports Fifo_Lock
begin

text \<open>
  The CLH lock of \<open>Layer1/3-sel4-dynamic.c\<close>, for any number of threads that each lock and unlock
  once. Nodes come from \<open>malloc\<close>, which may return any address that is not in use, with any
  contents; a thread's node is kept in thread-specific data, whose destructor is \<open>free\<close>, so it
  is released when the thread ends. An access to memory that is not allocated, or freeing it
  again, is a fault, after which nothing is claimed: the state then takes no step.
\<close>

section \<open>State\<close>

datatype clh_pc =
  Malloc | Mark nat | Set_specific nat | Exchange nat | Spin nat
| Critical | Get_specific | Unmark nat
| Exit | Gone

record clh =
  tail :: nat
  heap :: "nat \<Rightarrow> bool option"
  my_node_key :: "nat \<Rightarrow> nat option"
  pc :: "nat \<Rightarrow> clh_pc"
  created :: nat
  joined :: nat
  destroyed :: bool
  fault :: bool

definition clh_goto :: "nat \<Rightarrow> clh_pc \<Rightarrow> clh \<Rightarrow> clh" where
  "clh_goto i p s = s\<lparr>pc := (pc s)(i := p)\<rparr>"

definition write_locked :: "nat \<Rightarrow> bool \<Rightarrow> clh \<Rightarrow> clh" where
  "write_locked a b s = (if heap s a = None then s\<lparr>fault := True\<rparr> else s\<lparr>heap := (heap s)(a := Some b)\<rparr>)"

definition free :: "nat \<Rightarrow> clh \<Rightarrow> clh" where
  "free a s = (if heap s a = None then s\<lparr>fault := True\<rparr> else s\<lparr>heap := (heap s)(a := None)\<rparr>)"

section \<open>Operations\<close>

text \<open>The dummy node is the first one allocated; its address is called 0.\<close>

definition clh_lock_init :: clh where
  "clh_lock_init = \<lparr>tail = 0, heap = [0 \<mapsto> False], my_node_key = (\<lambda>_. None), pc = (\<lambda>_. Malloc),
     created = 0, joined = 0, destroyed = False, fault = False\<rparr>"

definition clh_lock_destroy :: "clh \<Rightarrow> clh" where
  "clh_lock_destroy s = (free (tail s) s)\<lparr>destroyed := True\<rparr>"

fun clh_lock :: "nat \<Rightarrow> clh \<Rightarrow> clh" where
  "clh_lock i s = (case pc s i of
     Mark a \<Rightarrow> clh_goto i (Set_specific a) (write_locked a True s)
   | Set_specific a \<Rightarrow> clh_goto i (Exchange a) (s\<lparr>my_node_key := (my_node_key s)(i := Some a)\<rparr>)
   | Exchange a \<Rightarrow> clh_goto i (Spin (tail s)) (s\<lparr>tail := a\<rparr>)
   | Spin pred \<Rightarrow>
       (case heap s pred of
          None \<Rightarrow> s\<lparr>fault := True\<rparr>
        | Some locked \<Rightarrow> if locked then s else clh_goto i Critical s)
   | _ \<Rightarrow> s)"

fun clh_unlock :: "nat \<Rightarrow> clh \<Rightarrow> clh" where
  "clh_unlock i s = (case pc s i of
     Get_specific \<Rightarrow>
       (case my_node_key s i of None \<Rightarrow> s\<lparr>fault := True\<rparr> | Some a \<Rightarrow> clh_goto i (Unmark a) s)
   | Unmark a \<Rightarrow> clh_goto i Exit (write_locked a False s)
   | _ \<Rightarrow> s)"

text \<open>The end of a thread runs the destructor of its thread-specific data.\<close>

definition thread_exit :: "nat \<Rightarrow> clh \<Rightarrow> clh" where
  "thread_exit i s = (case my_node_key s i of
     None \<Rightarrow> clh_goto i Gone s
   | Some a \<Rightarrow> clh_goto i Gone (free a (s\<lparr>my_node_key := (my_node_key s)(i := None)\<rparr>)))"

fun thread_func_clh :: "nat \<Rightarrow> clh \<Rightarrow> clh" where
  "thread_func_clh i s = (case pc s i of
     Critical \<Rightarrow> clh_goto i Get_specific s
   | Get_specific \<Rightarrow> clh_unlock i s
   | Unmark a \<Rightarrow> clh_unlock i s
   | Exit \<Rightarrow> thread_exit i s
   | Gone \<Rightarrow> s
   | _ \<Rightarrow> clh_lock i s)"

inductive clh_step :: "nat \<Rightarrow> clh \<Rightarrow> clh \<Rightarrow> bool" for n where
  malloc: "\<not> fault s \<Longrightarrow> i < created s \<Longrightarrow> pc s i = Malloc \<Longrightarrow> heap s a = None \<Longrightarrow>
    clh_step n s (clh_goto i (Mark a) (s\<lparr>heap := (heap s)(a := Some b)\<rparr>))"
| run: "\<not> fault s \<Longrightarrow> i < created s \<Longrightarrow> pc s i \<noteq> Malloc \<Longrightarrow> pc s i \<noteq> Gone \<Longrightarrow>
    clh_step n s (thread_func_clh i s)"
| create: "\<not> fault s \<Longrightarrow> created s < n \<Longrightarrow> clh_step n s (s\<lparr>created := created s + 1\<rparr>)"
| join: "\<not> fault s \<Longrightarrow> created s = n \<Longrightarrow> joined s < n \<Longrightarrow> pc s (joined s) = Gone \<Longrightarrow>
    clh_step n s (s\<lparr>joined := joined s + 1\<rparr>)"
| destroy: "\<not> fault s \<Longrightarrow> created s = n \<Longrightarrow> joined s = n \<Longrightarrow> \<not> destroyed s \<Longrightarrow>
    clh_step n s (clh_lock_destroy s)"

section \<open>Invariant\<close>

definition clh_queued :: "clh_pc \<Rightarrow> bool" where
  "clh_queued p = (case p of Spin _ \<Rightarrow> True | Critical \<Rightarrow> True | Get_specific \<Rightarrow> True | Unmark _ \<Rightarrow> True | _ \<Rightarrow> False)"

definition clh_holding :: "clh_pc \<Rightarrow> bool" where
  "clh_holding p = (case p of Critical \<Rightarrow> True | Get_specific \<Rightarrow> True | Unmark _ \<Rightarrow> True | _ \<Rightarrow> False)"

definition before_exchange :: "clh_pc \<Rightarrow> bool" where
  "before_exchange p = (case p of Malloc \<Rightarrow> True | Mark _ \<Rightarrow> True | Set_specific _ \<Rightarrow> True | Exchange _ \<Rightarrow> True | _ \<Rightarrow> False)"

text \<open>The node that thread \<open>i\<close> has allocated and not yet freed.\<close>

definition node :: "clh \<Rightarrow> nat \<Rightarrow> nat option" where
  "node s i = (case pc s i of Malloc \<Rightarrow> None | Mark a \<Rightarrow> Some a | Set_specific a \<Rightarrow> Some a
     | Gone \<Rightarrow> None | _ \<Rightarrow> my_node_key s i)"

definition node_ok :: "clh \<Rightarrow> nat \<Rightarrow> bool" where
  "node_ok s i \<longleftrightarrow> (case pc s i of
     Malloc \<Rightarrow> my_node_key s i = None
   | Mark a \<Rightarrow> a \<noteq> 0 \<and> heap s a \<noteq> None \<and> my_node_key s i = None
   | Set_specific a \<Rightarrow> a \<noteq> 0 \<and> heap s a = Some True \<and> my_node_key s i = None
   | Exchange a \<Rightarrow> a \<noteq> 0 \<and> heap s a = Some True \<and> my_node_key s i = Some a
   | Unmark a \<Rightarrow> a \<noteq> 0 \<and> heap s a = Some True \<and> my_node_key s i = Some a
   | Exit \<Rightarrow> (\<exists>a. my_node_key s i = Some a \<and> a \<noteq> 0 \<and> heap s a \<noteq> None)
   | Gone \<Rightarrow> my_node_key s i = None
   | _ \<Rightarrow> (\<exists>a. my_node_key s i = Some a \<and> a \<noteq> 0 \<and> heap s a = Some True))"

definition nodes_ok :: "clh \<Rightarrow> bool" where
  "nodes_ok s \<longleftrightarrow> (\<forall>i. node_ok s i) \<and> (\<forall>i j a. node s i = Some a \<longrightarrow> node s j = Some a \<longrightarrow> i = j) \<and>
     (\<forall>a. heap s a \<noteq> None \<longrightarrow> a = 0 \<or> (\<exists>i. node s i = Some a)) \<and>
     (tail s = 0 \<longrightarrow> (\<forall>i. before_exchange (pc s i))) \<and> heap s 0 \<noteq> None"

definition counts_ok :: "nat \<Rightarrow> clh \<Rightarrow> bool" where
  "counts_ok n s \<longleftrightarrow> \<not> destroyed s \<and> created s \<le> n \<and> joined s \<le> n \<and>
     (\<forall>i<joined s. pc s i = Gone) \<and> (\<forall>i\<ge>created s. pc s i = Malloc)"

text \<open>The waiting threads form a queue, each spinning on the node of the one before it.\<close>

definition waits :: "clh \<Rightarrow> nat list \<Rightarrow> bool" where
  "waits s Q \<longleftrightarrow> distinct Q \<and> set Q = {i. clh_queued (pc s i)} \<and>
     (Q \<noteq> [] \<longrightarrow> node s (last Q) = Some (tail s)) \<and>
     (\<forall>k. Suc k < length Q \<longrightarrow> (\<exists>a. pc s (Q ! Suc k) = Spin a \<and> node s (Q ! k) = Some a))"

text \<open>
  The state of the lock stands for a state of the queue: its waiting threads are those of the
  queue, in order, and one of them holds the lock if the first of the queue is inside. A memory
  error leaves the lock as it is.
\<close>

definition clh_rel :: "nat \<Rightarrow> clh \<Rightarrow> fifo \<Rightarrow> bool" where
  "clh_rel n s a \<longleftrightarrow> nodes_ok s \<and> (fault s \<or> counts_ok n s) \<and> waits s (queue a) \<and>
     inside a = (\<exists>i. clh_holding (pc s i))"

text \<open>A thread whose next access reads the flag of a node that has been freed.\<close>

definition reads_freed :: "clh \<Rightarrow> nat \<Rightarrow> bool" where
  "reads_freed s i \<longleftrightarrow> (case pc s i of Spin pred \<Rightarrow> heap s pred = None | _ \<Rightarrow> False)"

lemma clh_pc_simps [simp]:
  "clh_queued (Spin a)" "clh_queued Critical" "clh_queued Get_specific" "clh_queued (Unmark a)" "\<not> clh_queued Malloc"
  "\<not> clh_queued (Mark a)" "\<not> clh_queued (Set_specific a)" "\<not> clh_queued (Exchange a)" "\<not> clh_queued Exit" "\<not> clh_queued Gone"
  "clh_holding Critical" "clh_holding Get_specific" "clh_holding (Unmark a)" "\<not> clh_holding (Spin a)" "\<not> clh_holding Malloc"
  "\<not> clh_holding (Mark a)" "\<not> clh_holding (Set_specific a)" "\<not> clh_holding (Exchange a)" "\<not> clh_holding Exit" "\<not> clh_holding Gone"
  "before_exchange Malloc" "before_exchange (Mark a)" "before_exchange (Set_specific a)"
  "before_exchange (Exchange a)" "\<not> before_exchange (Spin a)" "\<not> before_exchange Critical"
  "\<not> before_exchange Get_specific" "\<not> before_exchange (Unmark a)" "\<not> before_exchange Exit"
  "\<not> before_exchange Gone"
  by (simp_all add: clh_queued_def clh_holding_def before_exchange_def)

lemma clh_goto_simps [simp]:
  "tail (clh_goto i p s) = tail s" "heap (clh_goto i p s) = heap s" "my_node_key (clh_goto i p s) = my_node_key s"
  "pc (clh_goto i p s) = (pc s)(i := p)" "created (clh_goto i p s) = created s" "joined (clh_goto i p s) = joined s"
  "destroyed (clh_goto i p s) = destroyed s" "fault (clh_goto i p s) = fault s"
  by (simp_all add: clh_goto_def)

lemma node_cong: "pc s' j = pc s j \<Longrightarrow> my_node_key s' j = my_node_key s j \<Longrightarrow> node s' j = node s j"
  by (simp add: node_def split: clh_pc.split)

lemma node_ok_allocated: "node_ok s i \<Longrightarrow> node s i = Some a \<Longrightarrow> a \<noteq> 0 \<and> heap s a \<noteq> None"
  by (cases "pc s i") (auto simp: node_ok_def node_def)

lemma node_ok_queued: "node_ok s i \<Longrightarrow> clh_queued (pc s i) \<Longrightarrow> \<exists>a. node s i = Some a \<and> heap s a = Some True"
  by (cases "pc s i") (auto simp: node_ok_def node_def)

lemma node_allocated: "nodes_ok s \<Longrightarrow> node s i = Some a \<Longrightarrow> a \<noteq> 0 \<and> heap s a \<noteq> None"
  by (rule node_ok_allocated) (simp_all add: nodes_ok_def)

lemma queued_node: "nodes_ok s \<Longrightarrow> clh_queued (pc s i) \<Longrightarrow> \<exists>a. node s i = Some a \<and> heap s a = Some True"
  by (rule node_ok_queued) (simp_all add: nodes_ok_def)

text \<open>A step of thread \<open>i\<close> that touches no memory but its own node \<open>a\<close>.\<close>

lemma nodes_step:
  assumes ok: "nodes_ok s" and own: "node s i = Some a \<or> node s i = None \<and> heap s a = None"
    and rest: "\<And>j. j \<noteq> i \<Longrightarrow> pc s' j = pc s j" "\<And>j. j \<noteq> i \<Longrightarrow> my_node_key s' j = my_node_key s j"
      "\<And>x. x \<noteq> a \<Longrightarrow> heap s' x = heap s x"
    and new: "node_ok s' i" "node s' i = (if heap s' a = None then None else Some a)"
    and t: "tail s' = 0 \<Longrightarrow> tail s = 0 \<and> before_exchange (pc s' i)"
  shows "nodes_ok s'"
proof -
  have "heap s 0 \<noteq> None" using ok by (simp add: nodes_ok_def)
  with own node_allocated [OF ok] have a: "a \<noteq> 0" by metis
  have n: "node s' j = node s j" if "j \<noteq> i" for j
    using rest(1,2) [OF that] by (simp add: node_def split: clh_pc.split)
  have other: "x \<noteq> a" if "j \<noteq> i" "node s j = Some x" for j x
    using own that ok node_allocated [OF ok that(2)] by (auto simp: nodes_ok_def)
  have "node_ok s' j" for j
  proof (cases "j = i")
    case False
    have "node_ok s j" using ok by (simp add: nodes_ok_def)
    moreover have "heap s' x = heap s x" if "node s j = Some x" for x
      using rest(3) other [OF False that] by blast
    ultimately show ?thesis using rest(1,2) [OF False]
      by (cases "pc s j") (auto simp: node_ok_def node_def)
  qed (use new in simp)
  moreover have "j = k" if "node s' j = Some x" "node s' k = Some x" for j k x
    using that ok n other new(2) by (cases "j = i"; cases "k = i") (auto simp: nodes_ok_def split: if_splits)
  moreover have "x = 0 \<or> (\<exists>j. node s' j = Some x)" if x: "heap s' x \<noteq> None" for x
  proof (cases "x = a")
    case True
    with x new(2) show ?thesis by auto
  next
    case False
    with x rest(3) have "heap s x \<noteq> None" by simp
    then have "x = 0 \<or> (\<exists>j. node s j = Some x)" using ok by (simp add: nodes_ok_def)
    moreover have "node s i \<noteq> Some x" using own False by auto
    ultimately show ?thesis using n by metis
  qed
  moreover have "before_exchange (pc s' j)" if "tail s' = 0" for j
    using t [OF that] rest(1) ok by (cases "j = i") (auto simp: nodes_ok_def)
  moreover have "heap s' 0 \<noteq> None" using rest(3) [of 0] a ok by (simp add: nodes_ok_def)
  ultimately show ?thesis by (auto simp: nodes_ok_def)
qed

section \<open>Positions in the queue\<close>

lemma clh_later:
  assumes "waits s Q" "i \<in> set Q" "i \<noteq> hd Q"
  shows "\<exists>k a. Suc k < length Q \<and> i = Q ! Suc k \<and> pc s i = Spin a \<and> node s (Q ! k) = Some a"
proof -
  from assms(2) obtain j where j: "j < length Q" "i = Q ! j" by (auto simp: in_set_conv_nth)
  with assms(3) obtain k where "j = Suc k" by (cases j) (auto simp: hd_conv_nth)
  with j assms(1) show ?thesis unfolding waits_def by blast
qed

lemma clh_in_queue: "waits s Q \<Longrightarrow> i \<in> set Q \<longleftrightarrow> clh_queued (pc s i)"
  by (auto simp: waits_def)

lemma clh_holder_head:
  assumes "waits s Q" "clh_holding (pc s i)"
  shows "Q \<noteq> [] \<and> i = hd Q"
proof -
  have "clh_queued (pc s i)" using assms(2) by (cases "pc s i") simp_all
  then have "i \<in> set Q" using clh_in_queue [OF assms(1)] by simp
  moreover from this have "i = hd Q" using clh_later [OF assms(1)] assms(2) by force
  ultimately show ?thesis by auto
qed

lemma clh_woken_head:
  assumes "nodes_ok s" "waits s Q" "pc s i = Spin a" "heap s a = Some False"
  shows "Q \<noteq> [] \<and> i = hd Q"
proof -
  have i: "i \<in> set Q" using clh_in_queue [OF assms(2)] assms(3) by simp
  moreover have "i = hd Q"
  proof (rule ccontr)
    assume "i \<noteq> hd Q"
    with clh_later [OF assms(2) i] assms(3) obtain k where k: "Suc k < length Q" "node s (Q ! k) = Some a"
      by auto
    then have "clh_queued (pc s (Q ! k))" using clh_in_queue [OF assms(2), of "Q ! k"] by simp
    with queued_node [OF assms(1)] k assms(4) show False by fastforce
  qed
  ultimately show ?thesis by auto
qed

lemma clh_reader_head:
  assumes "nodes_ok s" "waits s Q" "reads_freed s i"
  shows "Q \<noteq> [] \<and> i = hd Q"
proof -
  obtain b where b: "pc s i = Spin b" "heap s b = None"
    using assms(3) by (auto simp: reads_freed_def split: clh_pc.splits)
  then have i: "i \<in> set Q" using clh_in_queue [OF assms(2)] by simp
  moreover have "i = hd Q"
  proof (rule ccontr)
    assume "i \<noteq> hd Q"
    with clh_later [OF assms(2) i] b obtain k where "node s (Q ! k) = Some b" by auto
    with node_allocated [OF assms(1)] b(2) show False by blast
  qed
  ultimately show ?thesis by auto
qed

section \<open>Steps and the queue\<close>

lemma waits_other:
  assumes "waits s Q" "\<not> clh_queued (pc s i)" "\<not> clh_queued (pc s' i)" "tail s' = tail s"
    and "\<And>j. j \<noteq> i \<Longrightarrow> pc s' j = pc s j" "\<And>j. j \<noteq> i \<Longrightarrow> my_node_key s' j = my_node_key s j"
  shows "waits s' Q"
proof -
  have j: "pc s' j = pc s j \<and> node s' j = node s j" if "j \<in> set Q" for j
    using that assms(2,5,6) clh_in_queue [OF assms(1), of j] by (cases "j = i") (auto intro: node_cong)
  have "clh_queued (pc s' j) = clh_queued (pc s j)" for j using assms by (cases "j = i") auto
  moreover have "node s' (last Q) = node s (last Q)" if "Q \<noteq> []" using j that by simp
  moreover have "pc s' (Q ! Suc k) = pc s (Q ! Suc k) \<and> node s' (Q ! k) = node s (Q ! k)"
    if "Suc k < length Q" for k using j that by simp
  ultimately show ?thesis using assms(1,4) by (simp add: waits_def)
qed

lemma waits_head:
  assumes "waits s Q" "Q \<noteq> []" "i = hd Q" "clh_queued p" "tail s' = tail s" "pc s' = (pc s)(i := p)"
    and "my_node_key s' = my_node_key s" "node s' i = node s i"
  shows "waits s' Q"
proof -
  obtain ys where Q: "Q = i # ys" "distinct (i # ys)" using assms(1-3) by (cases Q) (auto simp: waits_def)
  have n: "node s' j = node s j" for j
  proof (cases "j = i")
    case False
    then show ?thesis using assms(6,7) by (intro node_cong) simp_all
  qed (use assms(8) in simp)
  have "i \<in> set Q" using Q by simp
  then have "clh_queued (pc s' j) = clh_queued (pc s j)" for j
    using assms(4,6) clh_in_queue [OF assms(1), of i] by (cases "j = i") auto
  moreover have "pc s' (Q ! Suc k) = pc s (Q ! Suc k)" if "Suc k < length Q" for k
    using that Q assms(6) by (auto simp: in_set_conv_nth)
  ultimately show ?thesis using assms(1,5) n by (simp add: waits_def)
qed

lemma waits_exchange:
  assumes w: "waits s Q" and i: "pc s i = Exchange a" "my_node_key s i = Some a"
  shows "waits (clh_goto i (Spin (tail s)) (s\<lparr>tail := a\<rparr>)) (Q @ [i])" (is "waits ?s _")
proof -
  have out: "i \<notin> set Q" using i clh_in_queue [OF w] by simp
  have n: "node ?s j = node s j" for j
    using i by (cases "j = i") (simp add: node_def, rule node_cong, simp_all)
  have "\<exists>b. pc ?s ((Q @ [i]) ! Suc k) = Spin b \<and> node ?s ((Q @ [i]) ! k) = Some b"
    if k: "Suc k < length (Q @ [i])" for k
  proof (cases "Suc k = length Q")
    case True
    then have "Q \<noteq> []" "Q ! k = last Q" "k < length Q" by (cases Q rule: rev_cases; simp)+
    with w True n show ?thesis by (simp add: nth_append waits_def)
  next
    case False
    with k have k': "Suc k < length Q" "k < length Q" by auto
    then have "Q ! Suc k \<noteq> i" using out by auto
    with w k' n show ?thesis by (simp add: nth_append waits_def)
  qed
  moreover have "set (Q @ [i]) = {j. clh_queued (pc ?s j)}" using clh_in_queue [OF w] by auto
  ultimately show ?thesis using w out i n by (simp add: waits_def node_def)
qed

lemma waits_leave:
  assumes w: "waits s Q" and i: "clh_holding (pc s i)" "\<not> clh_queued (pc s' i)" "tail s' = tail s"
    and rest: "\<And>j. j \<noteq> i \<Longrightarrow> pc s' j = pc s j" "\<And>j. j \<noteq> i \<Longrightarrow> my_node_key s' j = my_node_key s j"
    "node s' i = node s i"
  shows "waits s' (tl Q)"
proof -
  from clh_holder_head [OF w i(1)] obtain ys where Q: "Q = i # ys" by (cases Q) auto
  then have d: "i \<notin> set ys" "distinct ys" using w by (auto simp: waits_def)
  have n: "node s' j = node s j" for j
    using rest(3) node_cong [OF rest(1,2), of j] by (cases "j = i") simp_all
  have "set ys = {j. clh_queued (pc s' j)}"
  proof (rule set_eqI)
    fix j show "j \<in> set ys \<longleftrightarrow> j \<in> {j. clh_queued (pc s' j)}"
      using clh_in_queue [OF w, of j] Q d rest(1) i(2) by (cases "j = i") auto
  qed
  moreover have "\<exists>b. pc s' (ys ! Suc k) = Spin b \<and> node s' (ys ! k) = Some b" if "Suc k < length ys" for k
  proof -
    have "\<exists>b. pc s (Q ! Suc (Suc k)) = Spin b \<and> node s (Q ! Suc k) = Some b"
      using w that Q unfolding waits_def by (elim conjE allE [of _ "Suc k"]) simp
    moreover have "ys ! Suc k \<noteq> i" using that d by auto
    ultimately show ?thesis using Q n rest(1) by simp
  qed
  moreover have "ys \<noteq> [] \<longrightarrow> node s' (last ys) = Some (tail s')" using w Q n i(3) unfolding waits_def by auto
  ultimately show ?thesis using d Q by (simp add: waits_def)
qed

section \<open>The lock implements the queue\<close>

lemma node_counters [simp]:
  "node (s\<lparr>created := k\<rparr>) i = node s i" "node (s\<lparr>joined := k\<rparr>) i = node s i"
  "node (s\<lparr>fault := b\<rparr>) i = node s i" "node (s\<lparr>destroyed := b\<rparr>) i = node s i"
  "node_ok (s\<lparr>created := k\<rparr>) i = node_ok s i" "node_ok (s\<lparr>joined := k\<rparr>) i = node_ok s i"
  "node_ok (s\<lparr>fault := b\<rparr>) i = node_ok s i" "node_ok (s\<lparr>destroyed := b\<rparr>) i = node_ok s i"
  by (cases "pc s i"; simp add: node_def node_ok_def)+

lemma counters_simps [simp]:
  "nodes_ok (s\<lparr>created := k\<rparr>) = nodes_ok s" "nodes_ok (s\<lparr>joined := k\<rparr>) = nodes_ok s"
  "nodes_ok (s\<lparr>fault := b\<rparr>) = nodes_ok s" "nodes_ok (s\<lparr>destroyed := b\<rparr>) = nodes_ok s"
  "waits (s\<lparr>created := k\<rparr>) Q = waits s Q" "waits (s\<lparr>joined := k\<rparr>) Q = waits s Q"
  "waits (s\<lparr>fault := b\<rparr>) Q = waits s Q" "waits (s\<lparr>destroyed := b\<rparr>) Q = waits s Q"
  by (simp_all add: nodes_ok_def waits_def)

lemma write_locked_ok: "heap s a \<noteq> None \<Longrightarrow> write_locked a b s = s\<lparr>heap := (heap s)(a := Some b)\<rparr>"
  by (auto simp: write_locked_def)

lemma free_ok: "heap s a \<noteq> None \<Longrightarrow> free a s = s\<lparr>heap := (heap s)(a := None)\<rparr>"
  by (auto simp: free_def)

lemma clh_one_holder: "waits s Q \<Longrightarrow> clh_holding (pc s i) \<Longrightarrow> clh_holding (pc s j) \<Longrightarrow> i = j"
  by (metis clh_holder_head)

lemma counts_step:
  "counts_ok n s \<Longrightarrow> i < created s \<Longrightarrow> pc s i \<noteq> Gone \<Longrightarrow> counts_ok n (s\<lparr>pc := (pc s)(i := p)\<rparr>)"
  by (auto simp: counts_ok_def)

lemma counts_cong:
  "counts_ok n s \<Longrightarrow> i < created s \<Longrightarrow> pc s i \<noteq> Gone \<Longrightarrow> pc s' = (pc s)(i := p) \<Longrightarrow> created s' = created s \<Longrightarrow>
   joined s' = joined s \<Longrightarrow> destroyed s' = destroyed s \<Longrightarrow> counts_ok n s'"
  by (auto simp: counts_ok_def)

text \<open>A step that leaves the queue as it is.\<close>

lemma clh_stay:
  assumes "waits s (queue a)" "inside a = (\<exists>j. clh_holding (pc s j))"
    and "nodes_ok s'" "counts_ok n s'" "waits s' (queue a)" "pc s' = (pc s)(i := p)" "clh_holding p = clh_holding (pc s i)"
  shows "\<exists>a'. fifo_step\<^sup>*\<^sup>* a a' \<and> clh_rel n s' a'"
proof -
  have "clh_holding (pc s' j) = clh_holding (pc s j)" for j using assms(6,7) by (cases "j = i") simp_all
  with assms have "clh_rel n s' a" by (simp add: clh_rel_def)
  then show ?thesis by blast
qed

lemma thread_func_clh_match:
  assumes ok: "nodes_ok s" "counts_ok n s" and w: "waits s (queue a)"
    and h: "inside a = (\<exists>j. clh_holding (pc s j))"
    and i: "i < created s" "pc s i \<noteq> Malloc" "pc s i \<noteq> Gone"
  shows "\<exists>a'. fifo_step\<^sup>*\<^sup>* a a' \<and> clh_rel n (thread_func_clh i s) a'"
proof -
  let ?s = "thread_func_clh i s"
  have nd: "node_ok s i" using ok by (simp add: nodes_ok_def)
  have t0: "tail s = 0 \<longrightarrow> before_exchange (pc s i)" using ok by (simp add: nodes_ok_def)
  note counts = counts_cong [OF ok(2) i(1,3)]
  show ?thesis
  proof (cases "pc s i")
    case (Mark b)
    then have b: "b \<noteq> 0" "heap s b \<noteq> None" "my_node_key s i = None" using nd by (simp_all add: node_ok_def)
    then have s: "?s = clh_goto i (Set_specific b) (s\<lparr>heap := (heap s)(b := Some True)\<rparr>)"
      using Mark by (simp add: write_locked_ok)
    have "nodes_ok ?s" unfolding s
      by (rule nodes_step [OF ok(1), where i = i and a = b]) (use Mark b t0 in \<open>auto simp: node_def node_ok_def\<close>)
    moreover have "waits ?s (queue a)" unfolding s by (rule waits_other [OF w, where i = i]) (use Mark in simp_all)
    ultimately show ?thesis using s Mark
      by (intro clh_stay [OF w h, where i = i and p = "Set_specific b"] counts) simp_all
  next
    case (Set_specific b)
    then have b: "b \<noteq> 0" "heap s b = Some True" "my_node_key s i = None" using nd by (simp_all add: node_ok_def)
    have s: "?s = clh_goto i (Exchange b) (s\<lparr>my_node_key := (my_node_key s)(i := Some b)\<rparr>)"
      using Set_specific by simp
    have "nodes_ok ?s" unfolding s
      by (rule nodes_step [OF ok(1), where i = i and a = b])
        (use Set_specific b t0 in \<open>auto simp: node_def node_ok_def\<close>)
    moreover have "waits ?s (queue a)" unfolding s by (rule waits_other [OF w, where i = i]) (use Set_specific in simp_all)
    ultimately show ?thesis using s Set_specific
      by (intro clh_stay [OF w h, where i = i and p = "Exchange b"] counts) simp_all
  next
    case (Exchange b)
    then have b: "b \<noteq> 0" "heap s b = Some True" "my_node_key s i = Some b" using nd by (simp_all add: node_ok_def)
    have s: "?s = clh_goto i (Spin (tail s)) (s\<lparr>tail := b\<rparr>)" using Exchange by simp
    have "nodes_ok ?s" unfolding s
      by (rule nodes_step [OF ok(1), where i = i and a = b]) (use Exchange b in \<open>auto simp: node_def node_ok_def\<close>)
    moreover have "waits ?s (queue a @ [i])" unfolding s by (rule waits_exchange [OF w Exchange b(3)])
    moreover have "clh_holding (pc ?s j) = clh_holding (pc s j)" for j using s Exchange by (cases "j = i") simp_all
    moreover have "counts_ok n ?s" using s by (intro counts [of ?s "Spin (tail s)"]) simp_all
    ultimately have "clh_rel n ?s (a\<lparr>queue := queue a @ [i]\<rparr>)" using h by (simp add: clh_rel_def del: thread_func_clh.simps)
    moreover have "i \<notin> set (queue a)" using clh_in_queue [OF w] Exchange by simp
    ultimately show ?thesis by (blast intro: fifo_step.request)
  next
    case (Spin b)
    show ?thesis
    proof (cases "heap s b")
      case None
      with Spin have "clh_rel n ?s a" using ok w h by (simp add: clh_rel_def)
      then show ?thesis by blast
    next
      case (Some v)
      show ?thesis
      proof (cases v)
        case True
        with Some Spin have "clh_rel n ?s a" using ok w h by (simp add: clh_rel_def)
        then show ?thesis by blast
      next
        case False
        with Some have hb: "heap s b = Some False" by simp
        have q: "queue a \<noteq> []" "i = hd (queue a)" using clh_woken_head [OF ok(1) w Spin hb] by auto
        obtain c where c: "c \<noteq> 0" "heap s c = Some True" "my_node_key s i = Some c"
          using nd Spin by (auto simp: node_ok_def)
        have s: "?s = clh_goto i Critical s" using Spin hb by simp
        have no: "\<not> clh_holding (pc s j)" for j using clh_holder_head [OF w, of j] q Spin by auto
        have "nodes_ok ?s" unfolding s
          by (rule nodes_step [OF ok(1), where i = i and a = c])
            (use Spin c t0 in \<open>auto simp: node_def node_ok_def\<close>)
        moreover have "waits ?s (queue a)" unfolding s
          by (rule waits_head [OF w q, where p = Critical]) (use Spin in \<open>simp_all add: node_def\<close>)
        moreover have "counts_ok n ?s" using s by (intro counts [of ?s Critical]) simp_all
        moreover have "\<exists>j. clh_holding (pc ?s j)" using s by (auto intro: exI [of _ i])
        ultimately have "clh_rel n ?s (a\<lparr>inside := True\<rparr>)" by (simp add: clh_rel_def del: thread_func_clh.simps)
        moreover have "fifo_step a (a\<lparr>inside := True\<rparr>)" using q(1) h no by (blast intro: fifo_step.enter)
        ultimately show ?thesis by blast
      qed
    qed
  next
    case Critical
    then have q: "queue a \<noteq> []" "i = hd (queue a)" using clh_holder_head [OF w, of i] by auto
    obtain c where c: "c \<noteq> 0" "heap s c = Some True" "my_node_key s i = Some c"
      using nd Critical by (auto simp: node_ok_def)
    have s: "?s = clh_goto i Get_specific s" using Critical by simp
    have "nodes_ok ?s" unfolding s
      by (rule nodes_step [OF ok(1), where i = i and a = c])
        (use Critical c t0 in \<open>auto simp: node_def node_ok_def\<close>)
    moreover have "waits ?s (queue a)" unfolding s
      by (rule waits_head [OF w q, where p = Get_specific]) (use Critical in \<open>simp_all add: node_def\<close>)
    ultimately show ?thesis using s Critical
      by (intro clh_stay [OF w h, where i = i and p = Get_specific] counts) simp_all
  next
    case Get_specific
    then have q: "queue a \<noteq> []" "i = hd (queue a)" using clh_holder_head [OF w, of i] by auto
    obtain c where c: "c \<noteq> 0" "heap s c = Some True" "my_node_key s i = Some c"
      using nd Get_specific by (auto simp: node_ok_def)
    have s: "?s = clh_goto i (Unmark c) s" using Get_specific c by simp
    have "nodes_ok ?s" unfolding s
      by (rule nodes_step [OF ok(1), where i = i and a = c])
        (use Get_specific c t0 in \<open>auto simp: node_def node_ok_def\<close>)
    moreover have "waits ?s (queue a)" unfolding s
      by (rule waits_head [OF w q, where p = "Unmark c"]) (use Get_specific c in \<open>simp_all add: node_def\<close>)
    ultimately show ?thesis using s Get_specific
      by (intro clh_stay [OF w h, where i = i and p = "Unmark c"] counts) simp_all
  next
    case (Unmark b)
    then have b: "b \<noteq> 0" "heap s b = Some True" "my_node_key s i = Some b" using nd by (simp_all add: node_ok_def)
    have hi: "clh_holding (pc s i)" using Unmark by simp
    have s: "?s = clh_goto i Exit (s\<lparr>heap := (heap s)(b := Some False)\<rparr>)"
      using Unmark b by (simp add: write_locked_ok)
    have "nodes_ok ?s" unfolding s
      by (rule nodes_step [OF ok(1), where i = i and a = b])
        (use Unmark b t0 in \<open>auto simp: node_def node_ok_def\<close>)
    moreover have "waits ?s (tl (queue a))" unfolding s
      by (rule waits_leave [OF w hi]) (use Unmark in \<open>simp_all add: node_def\<close>)
    moreover have "counts_ok n ?s" using s by (intro counts [of ?s Exit]) simp_all
    moreover have "\<not> clh_holding (pc ?s j)" for j
      using clh_one_holder [OF w hi, of j] s by (cases "j = i") auto
    ultimately have "clh_rel n ?s (a\<lparr>queue := tl (queue a), inside := False\<rparr>)"
      by (simp add: clh_rel_def del: thread_func_clh.simps)
    moreover have "queue a \<noteq> []" "inside a" using clh_holder_head [OF w hi] h hi by auto
    ultimately show ?thesis by (blast intro: fifo_step.leave)
  next
    case Exit
    obtain c where c: "c \<noteq> 0" "heap s c \<noteq> None" "my_node_key s i = Some c"
      using nd Exit by (auto simp: node_ok_def)
    have s: "?s = clh_goto i Gone (s\<lparr>my_node_key := (my_node_key s)(i := None), heap := (heap s)(c := None)\<rparr>)"
      using Exit c by (simp add: thread_exit_def free_ok)
    have "nodes_ok ?s" unfolding s
      by (rule nodes_step [OF ok(1), where i = i and a = c])
        (use Exit c t0 in \<open>auto simp: node_def node_ok_def\<close>)
    moreover have "waits ?s (queue a)" unfolding s by (rule waits_other [OF w, where i = i]) (use Exit in simp_all)
    ultimately show ?thesis using s Exit
      by (intro clh_stay [OF w h, where i = i and p = Gone] counts) simp_all
  qed (use i in simp_all)
qed

lemma malloc_match:
  assumes ok: "nodes_ok s" "counts_ok n s" and w: "waits s (queue a)"
    and h: "inside a = (\<exists>j. clh_holding (pc s j))"
    and i: "i < created s" "pc s i = Malloc" "heap s c = None"
  shows "\<exists>a'. fifo_step\<^sup>*\<^sup>* a a' \<and> clh_rel n (clh_goto i (Mark c) (s\<lparr>heap := (heap s)(c := Some b)\<rparr>)) a'"
proof -
  let ?s = "clh_goto i (Mark c) (s\<lparr>heap := (heap s)(c := Some b)\<rparr>)"
  have "my_node_key s i = None" using ok(1) i(2) by (auto simp: nodes_ok_def node_ok_def dest!: spec [of _ i])
  moreover have "c \<noteq> 0" using ok(1) i(3) unfolding nodes_ok_def by metis
  moreover have "tail s = 0 \<longrightarrow> before_exchange (pc s i)" using ok by (simp add: nodes_ok_def)
  ultimately have "nodes_ok ?s"
    by (intro nodes_step [OF ok(1), where i = i and a = c]) (use i in \<open>auto simp: node_def node_ok_def\<close>)
  moreover have "waits ?s (queue a)" by (rule waits_other [OF w, where i = i]) (use i in simp_all)
  ultimately show ?thesis using i
    by (intro clh_stay [OF w h, where i = i and p = "Mark c"] counts_cong [OF ok(2) i(1)]) simp_all
qed

text \<open>
  When all threads are gone they have freed their nodes, and the last one to exchange left its
  own in the tail: destroying the lock frees it again.
\<close>

lemma destroy_faults:
  assumes ok: "nodes_ok s" "counts_ok (Suc n) s" and c: "created s = Suc n" "joined s = Suc n"
  shows "clh_lock_destroy s = s\<lparr>fault := True, destroyed := True\<rparr>"
proof -
  have g: "pc s i = Gone \<or> pc s i = Malloc" for i
    using ok(2) c by (cases "i < Suc n") (auto simp: counts_ok_def)
  have "node s i = None" for i by (rule disjE [OF g [of i]]) (simp_all add: node_def)
  moreover have "pc s 0 = Gone" using ok(2) c by (simp add: counts_ok_def)
  then have "tail s \<noteq> 0" using ok(1) unfolding nodes_ok_def by (metis clh_pc_simps(30))
  ultimately have "heap s (tail s) = None" using ok(1) unfolding nodes_ok_def by (metis option.distinct(1))
  then show ?thesis by (simp add: clh_lock_destroy_def free_def)
qed

lemma clh_step_match:
  assumes "clh_rel (Suc n) s a" "clh_step (Suc n) s s'"
  shows "\<exists>a'. fifo_step\<^sup>*\<^sup>* a a' \<and> clh_rel (Suc n) s' a'"
proof -
  have "\<not> fault s" using assms(2) by cases simp_all
  with assms(1) have r: "nodes_ok s" "counts_ok (Suc n) s" "waits s (queue a)" "inside a = (\<exists>j. clh_holding (pc s j))"
    by (simp_all add: clh_rel_def)
  have stay: ?thesis if "clh_rel (Suc n) s' a" using that by blast
  from assms(2) show ?thesis
  proof cases
    case (malloc i c b)
    with malloc_match [OF r] show ?thesis by simp
  next
    case (run i)
    with thread_func_clh_match [OF r] show ?thesis by blast
  next
    case create
    with r have "clh_rel (Suc n) s' a" by (auto simp: clh_rel_def counts_ok_def)
    then show ?thesis by (rule stay)
  next
    case join
    with r have "clh_rel (Suc n) s' a" by (auto simp: clh_rel_def counts_ok_def less_Suc_eq)
    then show ?thesis by (rule stay)
  next
    case destroy
    then show ?thesis using destroy_faults [OF r(1,2)] r by (intro stay) (simp add: clh_rel_def)
  qed
qed

lemma clh_init_rel: "clh_rel n clh_lock_init fifo_free"
  by (auto simp: clh_rel_def clh_lock_init_def fifo_free_def nodes_ok_def node_ok_def node_def counts_ok_def
      waits_def split: if_splits)

interpretation clh: queue_lock "clh_step (Suc n)" "clh_rel (Suc n)" "\<lambda>s i. clh_holding (pc s i)" for n
  by unfold_locales (blast intro: clh_step_match, metis clh_holder_head clh_rel_def)

section \<open>Properties\<close>

text \<open>
  C7. The CLH lock serves its threads one at a time, in the order in which they
  exchanged the tail, whatever their number, their interleaving and the addresses and contents
  that \<open>malloc\<close> returns, addresses of freed nodes included. This holds up to and including the
  first memory error, where executions end (C gives what follows no meaning); and the only
  thread that can read freed memory is the one whose turn it is, so that no value it could read
  lets it overtake another.
\<close>

theorem clh_mutex:
  "always (clh_step (Suc n)) clh_lock_init (\<lambda>c. \<exists>a. fifo_step\<^sup>*\<^sup>* fifo_free a \<and> clh_rel (Suc n) c a \<and>
     {j. clh_holding (pc c j) \<or> reads_freed c j} \<subseteq> {hd (queue a)})"
  by (rule always_mono [OF clh.reachable_queue [OF clh_init_rel]])
    (metis (mono_tags, lifting) clh_holder_head clh_reader_head clh_rel_def mem_Collect_eq singletonI subsetI)

text \<open>Executions of the two threads of \<open>main\<close>, as the actions they perform.\<close>

datatype clh_act = Create_thread | Alloc nat nat | Run nat | Join_thread | Destroy

fun clh_perform :: "nat \<Rightarrow> clh_act \<Rightarrow> clh \<Rightarrow> clh option" where
  "clh_perform n act s = (if fault s then None else (case act of
     Create_thread \<Rightarrow> if created s < n then Some (s\<lparr>created := created s + 1\<rparr>) else None
   | Alloc i a \<Rightarrow>
       if i < created s \<and> pc s i = Malloc \<and> heap s a = None
       then Some (clh_goto i (Mark a) (s\<lparr>heap := (heap s)(a := Some False)\<rparr>)) else None
   | Run i \<Rightarrow> if i < created s \<and> pc s i \<noteq> Malloc \<and> pc s i \<noteq> Gone then Some (thread_func_clh i s) else None
   | Join_thread \<Rightarrow>
       if created s = n \<and> joined s < n \<and> pc s (joined s) = Gone then Some (s\<lparr>joined := joined s + 1\<rparr>) else None
   | Destroy \<Rightarrow> if created s = n \<and> joined s = n \<and> \<not> destroyed s then Some (clh_lock_destroy s) else None))"

fun clh_replay :: "nat \<Rightarrow> clh_act list \<Rightarrow> clh \<Rightarrow> clh option" where
  "clh_replay n [] s = Some s"
| "clh_replay n (x # xs) s = (case clh_perform n x s of None \<Rightarrow> None | Some t \<Rightarrow> clh_replay n xs t)"

lemma clh_perform_step: "clh_perform n x s = Some t \<Longrightarrow> clh_step n s t"
  by (cases x) (auto split: if_splits intro: clh_step.intros clh_step.intros [simplified] simp del: thread_func_clh.simps)

declare clh_perform.simps [simp del]

lemma clh_replay_reach: "clh_replay n xs s = Some t \<Longrightarrow> (clh_step n)\<^sup>*\<^sup>* s t"
  by (induction xs arbitrary: s)
    (auto split: option.splits dest!: clh_perform_step intro: converse_rtranclp_into_rtranclp)

definition clh_reaches :: "clh_act list \<Rightarrow> (clh \<Rightarrow> bool) \<Rightarrow> bool" where
  "clh_reaches xs P = (case clh_replay 2 xs clh_lock_init of None \<Rightarrow> False | Some c \<Rightarrow> P c)"

lemma clh_reachesD: "clh_reaches xs P \<Longrightarrow> \<exists>c. (clh_step 2)\<^sup>*\<^sup>* clh_lock_init c \<and> P c"
  unfolding clh_reaches_def by (auto split: option.splits dest: clh_replay_reach)

definition first_thread :: "clh_act list" where
  "first_thread = [Create_thread, Create_thread, Alloc 0 1, Run 0, Run 0, Run 0, Run 0, Run 0, Run 0, Run 0]"

text \<open>The second thread waits for itself.\<close>

definition own_predecessor :: "clh \<Rightarrow> bool" where
  "own_predecessor c \<longleftrightarrow> pc c 0 = Gone \<and> pc c 1 = Spin 1 \<and> heap c 1 = Some True \<and> created c = 2 \<and> joined c \<le> 1"

lemma own_predecessor_step: "own_predecessor s \<Longrightarrow> clh_step 2 s s' \<Longrightarrow> own_predecessor s'"
  by (erule clh_step.cases) (auto simp: own_predecessor_def less_2_cases_iff le_Suc_eq)

lemma own_predecessor_always: "own_predecessor c \<Longrightarrow> always (clh_step 2) c (\<lambda>d. pc d 1 = Spin 1)"
  by (rule always_invariant [of own_predecessor]) (blast intro: own_predecessor_step | simp add: own_predecessor_def)+

text \<open>
  But the program never ends well: the destructor of the thread-specific
  data frees each thread's node when the thread ends, and the node in the tail is one of them,
  so \<open>clh_lock_destroy\<close> always frees memory that is already free.
\<close>

theorem clh_double_free:
  "always (clh_step (Suc n)) clh_lock_init (\<lambda>c. destroyed c \<longrightarrow> fault c)"
  by (rule always_mono [OF clh.reachable_queue [OF clh_init_rel]]) (auto simp: clh_rel_def counts_ok_def)

theorem clh_double_free_witness:
  "\<exists>c. (clh_step 2)\<^sup>*\<^sup>* clh_lock_init c \<and> destroyed c \<and> fault c"
proof -
  have "clh_reaches (first_thread @ [Alloc 1 2, Run 1, Run 1, Run 1, Run 1, Run 0, Run 1, Run 1, Run 1, Run 1,
      Join_thread, Join_thread, Destroy]) destroyed"
    by code_simp
  from clh_reachesD [OF this] obtain c where c: "(clh_step 2)\<^sup>*\<^sup>* clh_lock_init c" "destroyed c" by blast
  moreover have "destroyed c \<longrightarrow> fault c"
    using alwaysD [OF clh_double_free [of 1], of c] c(1) by (simp add: numeral_2_eq_2)
  ultimately show ?thesis by blast
qed

text \<open>
  With the two threads of \<open>main\<close> the lock can read freed memory: if
  the first thread ends before the second one takes the lock, the second spins on the freed
  node. If \<open>malloc\<close> gives the second thread that same address again, it waits for itself and
  never returns. And the double free at the end can be the first error.
\<close>

theorem clh_use_after_free:
  "(\<exists>c. (clh_step 2)\<^sup>*\<^sup>* clh_lock_init c \<and> fault c \<and> \<not> destroyed c) \<and>
   (\<exists>c. (clh_step 2)\<^sup>*\<^sup>* clh_lock_init c \<and> pc c 0 = Gone \<and> always (clh_step 2) c (\<lambda>d. pc d 1 = Spin 1)) \<and>
   (\<exists>c. (clh_step 2)\<^sup>*\<^sup>* clh_lock_init c \<and> \<not> fault c \<and> joined c = 2 \<and> fault (clh_lock_destroy c))"
proof (intro conjI)
  have "clh_reaches (first_thread @ [Run 0, Alloc 1 2, Run 1, Run 1, Run 1, Run 1]) (\<lambda>c. fault c \<and> \<not> destroyed c)"
    by code_simp
  from clh_reachesD [OF this] show "\<exists>c. (clh_step 2)\<^sup>*\<^sup>* clh_lock_init c \<and> fault c \<and> \<not> destroyed c" .
  have "clh_reaches (first_thread @ [Run 0, Alloc 1 1, Run 1, Run 1, Run 1]) own_predecessor"
    by code_simp
  from clh_reachesD [OF this] show "\<exists>c. (clh_step 2)\<^sup>*\<^sup>* clh_lock_init c \<and> pc c 0 = Gone \<and>
      always (clh_step 2) c (\<lambda>d. pc d 1 = Spin 1)"
    using own_predecessor_always by (auto simp: own_predecessor_def)
  have "clh_reaches (first_thread @ [Alloc 1 2, Run 1, Run 1, Run 1, Run 1, Run 0, Run 1, Run 1, Run 1, Run 1,
      Join_thread, Join_thread]) (\<lambda>c. \<not> fault c \<and> joined c = 2 \<and> fault (clh_lock_destroy c))"
    by code_simp
  from clh_reachesD [OF this] show "\<exists>c. (clh_step 2)\<^sup>*\<^sup>* clh_lock_init c \<and> \<not> fault c \<and> joined c = 2 \<and>
      fault (clh_lock_destroy c)" .
qed

text \<open>
  C31. The memory errors of the program. It never ends well, for any number of threads: the
  destructor of the thread-specific data frees each thread's node when the thread ends, and the
  node in the tail is one of them, so \<open>clh_lock_destroy\<close>, which \<open>main\<close> does reach, always frees
  memory that is already free. With two threads the lock can read freed memory before that: if
  the first thread ends before the second one takes the lock, the second reads the flag of the
  freed node; and if \<open>malloc\<close> gives the second thread that same address again, it waits for
  itself and never returns.
\<close>

theorem clh_memory_errors:
  "(\<exists>c. (clh_step 2)\<^sup>*\<^sup>* clh_lock_init c \<and> destroyed c) \<and>
   (\<nexists>n c. (clh_step (Suc n))\<^sup>*\<^sup>* clh_lock_init c \<and> destroyed c \<and> \<not> fault c) \<and>
   (\<exists>c. (clh_step 2)\<^sup>*\<^sup>* clh_lock_init c \<and> fault c \<and> \<not> destroyed c) \<and>
   (\<exists>c. (clh_step 2)\<^sup>*\<^sup>* clh_lock_init c \<and> pc c 0 = Gone \<and> always (clh_step 2) c (\<lambda>d. pc d 1 = Spin 1))"
  using clh_double_free_witness clh_use_after_free clh_double_free unfolding always_def by blast

end
