(* ===== verification/Rw_Lock.thy ===== *)
theory Rw_Lock
  imports Prelude
begin

text \<open>
  The exclusive side of InnoDB's rw-lock, \<open>Layer1/4-MySQL.c\<close>. The state of the lock is a plain
  signed 32-bit word from which an exclusive lock subtracts. The word is not atomic, so a
  subtraction that leaves its range is undefined behaviour in C: each subtraction is checked,
  and an overflow is an error value. Calls are modelled one at a time, as \<open>main\<close> makes them by
  sleeping between them; the mutex around each access is then always free and is left out, and
  so are the messages printed.
\<close>

section \<open>State\<close>

abbreviation X_LOCK_DECR :: c_int where "X_LOCK_DECR \<equiv> 0x20000000"
abbreviation X_LOCK_HALF_DECR :: c_int where "X_LOCK_HALF_DECR \<equiv> 0x10000000"

type_synonym os_thread_id = "64 word"

record rw_lock =
  lock_word :: c_int
  writer_thread :: os_thread_id
  recursive :: bool
  last_x_file_name :: string
  last_x_line :: "32 word"

datatype undefined_behaviour = Signed_overflow

definition fits_int :: "int \<Rightarrow> bool" where
  "fits_int k \<longleftrightarrow> - (2 ^ 31) \<le> k \<and> k < 2 ^ 31"

text \<open>The \<open>-\<close>, \<open>-=\<close> and \<open>--\<close> of C on \<open>int\<close>.\<close>

definition signed_minus :: "c_int \<Rightarrow> c_int \<Rightarrow> undefined_behaviour + c_int" where
  "signed_minus a b = (if fits_int (sint a - sint b) then Inr (a - b) else Inl Signed_overflow)"

definition lock_word_minus :: "rw_lock \<Rightarrow> c_int \<Rightarrow> undefined_behaviour + rw_lock" where
  "lock_word_minus lock amount =
     (case signed_minus (lock_word lock) amount of
        Inl e \<Rightarrow> Inl e
      | Inr w \<Rightarrow> Inr (lock\<lparr>lock_word := w\<rparr>))"

section \<open>Operations\<close>

definition rw_lock_set_writer_id_and_recursion_flag :: "os_thread_id \<Rightarrow> rw_lock \<Rightarrow> bool \<Rightarrow> rw_lock" where
  "rw_lock_set_writer_id_and_recursion_flag curr_thread lock rec =
     lock\<lparr>writer_thread := curr_thread, recursive := rec\<rparr>"

definition rw_lock_lock_word_decr ::
  "rw_lock \<Rightarrow> c_int \<Rightarrow> c_int \<Rightarrow> undefined_behaviour + bool \<times> rw_lock" where
  "rw_lock_lock_word_decr lock amount threshold =
     (if signed_less threshold (lock_word lock)
      then (case lock_word_minus lock amount of Inl e \<Rightarrow> Inl e | Inr lock' \<Rightarrow> Inr (True, lock'))
      else Inr (False, lock))"

text \<open>\<open>pass\<close> is 0 if the thread that locks is the one that will unlock.\<close>

definition rw_lock_x_lock_low ::
  "os_thread_id \<Rightarrow> rw_lock \<Rightarrow> c_int \<Rightarrow> string \<Rightarrow> c_int \<Rightarrow> undefined_behaviour + bool \<times> rw_lock" where
  "rw_lock_x_lock_low thread_id lock pass file_name line =
     (let record_call = \<lambda>l. Inr (True, l\<lparr>last_x_file_name := file_name, last_x_line := line\<rparr>) in
      case rw_lock_lock_word_decr lock X_LOCK_DECR X_LOCK_HALF_DECR of
        Inl e \<Rightarrow> Inl e
      | Inr (True, lock1) \<Rightarrow>
          record_call (rw_lock_set_writer_id_and_recursion_flag thread_id lock1 (pass = 0))
      | Inr (False, lock1) \<Rightarrow>
          if pass = 0 \<and> recursive lock1 \<and> writer_thread lock1 = thread_id then
            (case rw_lock_lock_word_decr lock1 X_LOCK_DECR 0 of
               Inl e \<Rightarrow> Inl e
             | Inr (True, lock2) \<Rightarrow> record_call lock2
             | Inr (False, lock2) \<Rightarrow>
                 if lock_word lock2 = 0 \<or> lock_word lock2 = - X_LOCK_HALF_DECR
                 then (case lock_word_minus lock2 X_LOCK_DECR of Inl e \<Rightarrow> Inl e | Inr l \<Rightarrow> record_call l)
                 else (case lock_word_minus lock2 1 of Inl e \<Rightarrow> Inl e | Inr l \<Rightarrow> record_call l))
          else Inr (False, lock1))"

text \<open>
  The two threads and \<open>main\<close>: each thread locks once, at the line of its call, and \<open>main\<close>
  sets the lock word and runs the threads one after the other. \<open>file\<close> is \<open>__FILE__\<close>; the
  global lock starts zeroed.
\<close>

definition thread_a_func ::
  "os_thread_id \<Rightarrow> string \<Rightarrow> rw_lock \<Rightarrow> undefined_behaviour + bool \<times> rw_lock" where
  "thread_a_func self file lock = rw_lock_x_lock_low self lock 0 file 140"

definition thread_b_func ::
  "os_thread_id \<Rightarrow> string \<Rightarrow> rw_lock \<Rightarrow> undefined_behaviour + bool \<times> rw_lock" where
  "thread_b_func self file lock = rw_lock_x_lock_low self lock 0 file 155"

definition my_lock :: rw_lock where
  "my_lock = \<lparr>lock_word = 0, writer_thread = 0, recursive = False, last_x_file_name = [], last_x_line = 0\<rparr>"

definition main_mysql ::
  "os_thread_id \<Rightarrow> os_thread_id \<Rightarrow> string \<Rightarrow> undefined_behaviour + bool \<times> bool \<times> rw_lock" where
  "main_mysql a b file =
     (case thread_a_func a file (my_lock\<lparr>lock_word := 0x30000000\<rparr>) of
        Inl e \<Rightarrow> Inl e
      | Inr (ra, l1) \<Rightarrow>
          (case thread_b_func b file l1 of Inl e \<Rightarrow> Inl e | Inr (rb, l2) \<Rightarrow> Inr (ra, rb, l2)))"

section \<open>What the lock word means\<close>

text \<open>
  Specification: a lock is free, or one thread holds it. InnoDB has two ways to hold it, shared
  exclusive (SX) and exclusive (X), the second any number of times; a thread that holds it may
  come back for one more X lock if it said so (\<open>pass = 0\<close>). The SX lock weighs half an X lock,
  and from the second X lock on each weighs one. \<open>main\<close> starts the lock with half a lock too
  much, \<open>Free True\<close>, so that what its first thread gets is the SX word and not the X word.
\<close>

datatype xlock = Free bool | Held os_thread_id bool bool nat

fun x_acquire :: "os_thread_id \<Rightarrow> c_int \<Rightarrow> xlock \<Rightarrow> bool \<times> xlock" where
  "x_acquire t pass (Free spare) = (True, Held t (pass = 0) spare (if spare then 0 else 1))"
| "x_acquire t pass (Held u again sx n) =
     (if pass = 0 \<and> again \<and> u = t then (True, Held u again sx (Suc n)) else (False, Held u again sx n))"

definition x_part :: "nat \<Rightarrow> int" where
  "x_part n = (if n = 0 then 0x20000000 else if n = 1 then 0 else - 0x20000000 - int (n - 2))"

fun encode :: "xlock \<Rightarrow> int" where
  "encode (Free spare) = (if spare then 0x30000000 else 0x20000000)"
| "encode (Held u again sx n) = x_part n - (if sx then 0x10000000 else 0)"

fun stands_for :: "rw_lock \<Rightarrow> xlock \<Rightarrow> bool" where
  "stands_for l (Free spare) = (sint (lock_word l) = encode (Free spare))"
| "stands_for l (Held u again sx n) =
     (sint (lock_word l) = encode (Held u again sx n) \<and> writer_thread l = u \<and> recursive l = again \<and>
      (sx \<or> n \<noteq> 0))"

section \<open>Signed arithmetic\<close>

lemma sint_bounds: "- (2 ^ 31) \<le> sint (w :: c_int)" "sint (w :: c_int) < 2 ^ 31"
  using sint_ge [of w] sint_lt [of w] by simp_all

lemma sint_minus_fits:
  assumes "fits_int (sint a - sint (b :: c_int))"
  shows "sint (a - b) = sint a - sint b"
  using assms by (simp add: fits_int_def sint_word_ariths signed_take_bit_int_eq_self)

lemma lock_word_minus_cases:
  "lock_word_minus l b = Inl Signed_overflow \<and> \<not> fits_int (sint (lock_word l) - sint b) \<or>
   lock_word_minus l b = Inr (l\<lparr>lock_word := lock_word l - b\<rparr>) \<and>
     sint (lock_word l - b) = sint (lock_word l) - sint b \<and> fits_int (sint (lock_word l) - sint b)"
  by (simp add: lock_word_minus_def signed_minus_def sint_minus_fits)

lemma lock_word_eq_iff: "lock_word l = w \<longleftrightarrow> sint (lock_word l) = sint w"
  using signed_word_eqI by auto

lemmas lock_defs = rw_lock_x_lock_low_def rw_lock_lock_word_decr_def signed_less_def
  rw_lock_set_writer_id_and_recursion_flag_def

text \<open>What one call does, read off the signed value of the word.\<close>

lemma x_lock_first:
  assumes "0x10000000 < sint (lock_word l)"
  shows "\<exists>l'. rw_lock_x_lock_low t l pass f n = Inr (True, l') \<and>
    sint (lock_word l') = sint (lock_word l) - 0x20000000 \<and> writer_thread l' = t \<and>
    recursive l' = (pass = 0) \<and> last_x_file_name l' = f \<and> last_x_line l' = n"
proof -
  have "fits_int (sint (lock_word l) - sint X_LOCK_DECR)"
    using assms sint_bounds [of "lock_word l"] by (simp add: fits_int_def)
  with assms lock_word_minus_cases [of l X_LOCK_DECR] show ?thesis by (auto simp: lock_defs)
qed

lemma x_lock_refused:
  assumes "sint (lock_word l) \<le> 0x10000000" "\<not> (pass = 0 \<and> recursive l \<and> writer_thread l = t)"
  shows "rw_lock_x_lock_low t l pass f n = Inr (False, l)"
  using assms by (auto simp: lock_defs)

definition relock_amount :: "int \<Rightarrow> c_int" where
  "relock_amount k = (if 0 < k \<or> k = 0 \<or> k = - 0x10000000 then X_LOCK_DECR else 1)"

lemma x_lock_relock:
  assumes "sint (lock_word l) \<le> 0x10000000" "recursive l" "writer_thread l = t"
  shows "rw_lock_x_lock_low t l 0 f n =
    (case lock_word_minus l (relock_amount (sint (lock_word l))) of
       Inl e \<Rightarrow> Inl e
     | Inr l' \<Rightarrow> Inr (True, l'\<lparr>last_x_file_name := f, last_x_line := n\<rparr>))"
  using assms lock_word_eq_iff [of l 0] lock_word_eq_iff [of l "- X_LOCK_HALF_DECR"]
  by (auto simp: lock_defs relock_amount_def split: sum.splits)

lemma encode_Suc:
  "sx \<or> n \<noteq> 0 \<Longrightarrow> encode (Held u again sx (Suc n)) =
     encode (Held u again sx n) - sint (relock_amount (encode (Held u again sx n)))"
  by (auto simp: x_part_def relock_amount_def)

lemma encode_held_le: "sx \<or> n \<noteq> 0 \<Longrightarrow> encode (Held u again sx n) \<le> 0x10000000"
  by (auto simp: x_part_def)

lemma x_lock_held:
  assumes "stands_for l (Held t True sx n)"
  shows "if fits_int (encode (Held t True sx (Suc n)))
    then \<exists>l'. rw_lock_x_lock_low t l 0 f m = Inr (True, l') \<and> stands_for l' (Held t True sx (Suc n)) \<and>
           last_x_file_name l' = f \<and> last_x_line l' = m
    else rw_lock_x_lock_low t l 0 f m = Inl Signed_overflow"
proof -
  let ?b = "relock_amount (encode (Held t True sx n))"
  have s: "sint (lock_word l) = encode (Held t True sx n)" and h: "sx \<or> n \<noteq> 0" "recursive l" "writer_thread l = t"
    using assms by auto
  have c: "rw_lock_x_lock_low t l 0 f m =
    (case lock_word_minus l ?b of Inl e \<Rightarrow> Inl e | Inr l' \<Rightarrow> Inr (True, l'\<lparr>last_x_file_name := f, last_x_line := m\<rparr>))"
    using x_lock_relock [of l t f m] h s encode_held_le [OF h(1), of t True] by simp
  have e: "encode (Held t True sx (Suc n)) = sint (lock_word l) - sint ?b"
    using encode_Suc [OF h(1)] s by simp
  show ?thesis unfolding c using lock_word_minus_cases [of l ?b] h
    by (auto simp: e simp del: encode.simps)
qed

section \<open>Properties\<close>

text \<open>
  C4. \<open>rw_lock_x_lock_low\<close> implements the exclusive lock: for every thread,
  \<open>pass\<close> value and lock word that stands for a state of the specification, the words \<open>main\<close>
  starts from and passes through included, it returns what the specification returns and leaves
  a word that stands for the specification's next state, as long as that word fits in an \<open>int\<close>;
  a call that gets the lock records its file and line, a call that does not changes nothing.
\<close>

theorem x_lock_refines:
  assumes "stands_for l x" "fits_int (encode (snd (x_acquire t pass x)))"
  shows "\<exists>l'. rw_lock_x_lock_low t l pass f n = Inr (fst (x_acquire t pass x), l') \<and>
    stands_for l' (snd (x_acquire t pass x)) \<and>
    (if fst (x_acquire t pass x) then last_x_file_name l' = f \<and> last_x_line l' = n else l' = l)"
proof (cases x)
  case (Free spare)
  with assms(1) have s: "sint (lock_word l) = encode (Free spare)" by simp
  then have "0x10000000 < sint (lock_word l)" by simp
  from x_lock_first [OF this, of t pass f n] s Free show ?thesis by (auto simp: x_part_def)
next
  case (Held u again sx m)
  show ?thesis
  proof (cases "pass = 0 \<and> again \<and> u = t")
    case True
    with Held assms x_lock_held [of l t sx m f n] show ?thesis by (simp del: encode.simps stands_for.simps)
  next
    case False
    have "sint (lock_word l) \<le> 0x10000000"
      using assms(1) Held encode_held_le [of sx m u again] by simp
    from x_lock_refused [OF this, of pass t f n] False assms(1) Held show ?thesis
      by (auto simp del: encode.simps)
  qed
qed

text \<open>The state \<open>main\<close> is in after its first thread, which then locks twice more.\<close>

definition after_thread_a :: rw_lock where
  "after_thread_a = my_lock\<lparr>lock_word := - 0x10000000, writer_thread := 7, recursive := True\<rparr>"

theorem x_lock_refines_witness:
  "stands_for after_thread_a (Held 7 True True 1) \<and> fits_int (encode (Held 7 True True 2)) \<and>
   (\<exists>l'. rw_lock_x_lock_low 7 after_thread_a 0 [] 1 = Inr (True, l') \<and> stands_for l' (Held 7 True True 2) \<and>
      last_x_line l' = 1)"
proof -
  have s: "stands_for after_thread_a (Held 7 True True 1)" "fits_int (encode (snd (x_acquire 7 0 (Held 7 True True 1))))"
    by (simp_all add: after_thread_a_def my_lock_def x_part_def fits_int_def)
  with x_lock_refines [OF s, of "[]" 1] show ?thesis
    by (auto simp: numeral_2_eq_2 simp del: encode.simps stands_for.simps)
qed

text \<open>A thread that locks again and again, and whether every call got the lock.\<close>

fun lock_times :: "nat \<Rightarrow> os_thread_id \<Rightarrow> string \<Rightarrow> c_int \<Rightarrow> rw_lock \<Rightarrow> undefined_behaviour + bool \<times> rw_lock" where
  "lock_times 0 t f n l = Inr (True, l)"
| "lock_times (Suc k) t f n l =
     (case lock_times k t f n l of
        Inl e \<Rightarrow> Inl e
      | Inr (all_got, l1) \<Rightarrow>
          (case rw_lock_x_lock_low t l1 0 f n of Inl e \<Rightarrow> Inl e | Inr (got, l2) \<Rightarrow> Inr (all_got \<and> got, l2)))"

lemma fits_held_iff:
  "fits_int (encode (Held t r sx n)) \<longleftrightarrow> n \<le> (if sx then 0x50000002 else 0x60000002)"
  by (auto simp: fits_int_def x_part_def)

lemma lock_times_free:
  assumes "sint (lock_word l) = encode (Free spare)"
  shows "if k \<le> (if spare then 0x50000002 else 0x60000001)
    then \<exists>l'. lock_times (Suc k) t f n l = Inr (True, l') \<and> stands_for l' (Held t True spare (if spare then k else Suc k))
    else lock_times (Suc k) t f n l = Inl Signed_overflow"
proof (induction k)
  case 0
  have "0x10000000 < sint (lock_word l)" using assms by simp
  from x_lock_first [OF this, of t 0 f n] assms show ?case by (auto simp: x_part_def)
next
  case (Suc k)
  let ?m = "if spare then k else Suc k"
  show ?case
  proof (cases "k \<le> (if spare then 0x50000002 else 0x60000001)")
    case True
    with Suc obtain l' where l: "lock_times (Suc k) t f n l = Inr (True, l')" "stands_for l' (Held t True spare ?m)"
      by auto
    have "fits_int (encode (Held t True spare (Suc ?m))) \<longleftrightarrow> Suc k \<le> (if spare then 0x50000002 else 0x60000001)"
      by (simp only: fits_held_iff) simp
    with x_lock_held [OF l(2), of f n] l(1) show ?thesis
      by (auto simp del: encode.simps stands_for.simps split: if_splits)
  next
    case False
    with Suc show ?thesis by simp
  qed
qed

text \<open>
  C30. How deep a thread can nest its locks. From the word \<open>main\<close> sets,
  \<open>0x30000000\<close>, a thread that locks again and again gets the lock \<open>0x50000003\<close> times, and the
  next call decrements the least integer, which is undefined behaviour; from InnoDB's own free
  word \<open>0x20000000\<close> the same happens after \<open>0x60000002\<close> locks. At every smaller depth the word
  stands for that depth.
\<close>

theorem x_lock_overflows:
  "(\<exists>l'. lock_times k t f n (my_lock\<lparr>lock_word := 0x30000000\<rparr>) = Inr (True, l') \<and>
      (k = 0 \<or> stands_for l' (Held t True True (k - 1)))) = (k \<le> 0x50000003) \<and>
   (\<exists>l'. lock_times k t f n (my_lock\<lparr>lock_word := 0x20000000\<rparr>) = Inr (True, l') \<and>
      (k = 0 \<or> stands_for l' (Held t True False k))) = (k \<le> 0x60000002) \<and>
   (lock_times k t f n (my_lock\<lparr>lock_word := 0x30000000\<rparr>) = Inl Signed_overflow) = (0x50000003 < k) \<and>
   (lock_times k t f n (my_lock\<lparr>lock_word := 0x20000000\<rparr>) = Inl Signed_overflow) = (0x60000002 < k)"
proof (cases k)
  case (Suc m)
  show ?thesis
    using lock_times_free [of "my_lock\<lparr>lock_word := 0x30000000\<rparr>" True m t f n]
      lock_times_free [of "my_lock\<lparr>lock_word := 0x20000000\<rparr>" False m t f n]
    by (auto simp del: lock_times.simps stands_for.simps simp: Suc split: if_splits)
qed simp

text \<open>
  The program as written, run in the order its sleeps ask for: thread A gets
  the lock, thread B, a different thread, does not, and the lock keeps A's record of file and
  line. Were B the same thread as A, it would get the lock again.
\<close>

theorem x_lock_main:
  "main_mysql a b file = Inr (True, a = b,
     \<lparr>lock_word = (if a = b then - 0x10000000 else 0x10000000), writer_thread = a, recursive = True,
       last_x_file_name = file, last_x_line = (if a = b then 155 else 140)\<rparr>)"
  by (simp add: main_mysql_def thread_a_func_def thread_b_func_def my_lock_def lock_defs
      lock_word_minus_def signed_minus_def fits_int_def)

end
