(* ===== verification/Buffer_Pool.thy ===== *)
theory Buffer_Pool
  imports Transition_Systems
begin

text \<open>
  The buffer pool of OpenBLAS, \<open>Layer1/7-OpenBLAS.c\<close>: an array of 192 flags, 0 for a free
  buffer. First the functions as they run alone, then two threads that interleave between a
  flag's test and its setting. The messages printed and the random delay are left out.
\<close>

section \<open>The functions\<close>

abbreviation NUM_BUFFERS :: nat where "NUM_BUFFERS \<equiv> 192"

type_synonym pool = "c_int list"

primrec init_loop :: "nat \<Rightarrow> pool \<Rightarrow> pool" where
  "init_loop 0 memory = memory"
| "init_loop (Suc i) memory = (init_loop i memory)[i := 0]"

definition init_memory :: "pool \<Rightarrow> pool" where
  "init_memory memory = init_loop NUM_BUFFERS memory"

text \<open>The loop of \<open>allocate_memory\<close> from \<open>position\<close> on.\<close>

function allocate_loop :: "nat \<Rightarrow> pool \<Rightarrow> int \<times> pool" where
  "allocate_loop position memory =
     (if position < NUM_BUFFERS then
        if memory ! position = 0 then (int position, memory[position := 1])
        else allocate_loop (position + 1) memory
      else (- 1, memory))"
  by pat_completeness auto
termination by (relation "measure (\<lambda>(position, memory). NUM_BUFFERS - position)") auto

definition allocate_memory :: "pool \<Rightarrow> int \<times> pool" where
  "allocate_memory memory = allocate_loop 0 memory"

definition release_memory :: "int \<Rightarrow> pool \<Rightarrow> pool" where
  "release_memory position memory =
     (if position < 0 \<or> position \<ge> int NUM_BUFFERS then memory else memory[nat position := 0])"

definition thread_function_pool :: "pool \<Rightarrow> pool" where
  "thread_function_pool memory =
     (case allocate_memory memory of (allocated_position, memory') \<Rightarrow>
        if allocated_position \<noteq> - 1 then release_memory allocated_position memory' else memory')"

declare allocate_loop.simps [simp del]

section \<open>Specification\<close>

text \<open>The pool seen as the set of the buffers in use, and what allocating means for it.\<close>

definition in_use :: "pool \<Rightarrow> nat set" where
  "in_use memory = {p. p < NUM_BUFFERS \<and> memory ! p \<noteq> 0}"

definition first_free :: "nat set \<Rightarrow> int" where
  "first_free U = (if U = {..<NUM_BUFFERS} then - 1 else int (LEAST p. p \<notin> U))"

lemma in_use_update: "p < NUM_BUFFERS \<Longrightarrow> length m = NUM_BUFFERS \<Longrightarrow>
   in_use (m[p := v]) = (if v = 0 then in_use m - {p} else insert p (in_use m))"
  by (auto simp: in_use_def nth_list_update)

lemma allocate_loop_spec:
  assumes "length m = NUM_BUFFERS" "\<forall>q<p. m ! q \<noteq> 0" "p \<le> NUM_BUFFERS"
  shows "allocate_loop p m =
    (first_free (in_use m),
     if in_use m = {..<NUM_BUFFERS} then m else m[nat (first_free (in_use m)) := 1])"
  using assms
proof (induction p m rule: allocate_loop.induct)
  case (1 p m)
  show ?case
  proof (cases "p < NUM_BUFFERS")
    case True
    show ?thesis
    proof (cases "m ! p = 0")
      case free: True
      then have "(LEAST q. q \<notin> in_use m) = p"
        using 1(3) True by (intro Least_equality) (auto simp: in_use_def not_less [symmetric])
      moreover have "in_use m \<noteq> {..<NUM_BUFFERS}" using free True by (auto simp: in_use_def)
      ultimately show ?thesis
        using free True by (subst allocate_loop.simps) (simp add: first_free_def)
    next
      case False
      then have "\<forall>q<p + 1. m ! q \<noteq> 0" using 1(3) less_Suc_eq by auto
      with 1(1) [OF True False 1(2)] True False show ?thesis by (subst allocate_loop.simps) simp
    qed
  next
    case False
    then have "in_use m = {..<NUM_BUFFERS}" using 1(3,4) by (auto simp: in_use_def)
    then show ?thesis using False by (subst allocate_loop.simps) (simp add: first_free_def)
  qed
qed

lemma allocate_memory_spec:
  "length m = NUM_BUFFERS \<Longrightarrow> allocate_memory m =
    (first_free (in_use m),
     if in_use m = {..<NUM_BUFFERS} then m else m[nat (first_free (in_use m)) := 1])"
  unfolding allocate_memory_def by (rule allocate_loop_spec) simp_all

lemma first_free_range:
  assumes "U \<subseteq> {..<NUM_BUFFERS}" "U \<noteq> {..<NUM_BUFFERS}"
  shows "0 \<le> first_free U" "nat (first_free U) < NUM_BUFFERS" "nat (first_free U) \<notin> U"
proof -
  from assms obtain q where q: "q < NUM_BUFFERS" "q \<notin> U" by blast
  then have "(LEAST p. p \<notin> U) \<le> q" "(LEAST p. p \<notin> U) \<notin> U" using LeastI [of "\<lambda>p. p \<notin> U" q] by (auto intro: Least_le)
  with q assms(2) show "0 \<le> first_free U" "nat (first_free U) < NUM_BUFFERS" "nat (first_free U) \<notin> U"
    by (auto simp: first_free_def)
qed

lemma in_use_range: "in_use m \<subseteq> {..<NUM_BUFFERS}"
  by (auto simp: in_use_def)

lemma length_init_loop [simp]: "length (init_loop n m) = length m"
  by (induction n) simp_all

lemma init_loop_nth: "n \<le> length m \<Longrightarrow> p < n \<Longrightarrow> init_loop n m ! p = 0"
  by (induction n) (auto simp: nth_list_update less_Suc_eq)

section \<open>Properties of the functions\<close>

text \<open>
  C9. \<open>allocate_memory\<close> returns the least free buffer and marks it used, and
  only it, or returns -1 and changes nothing when every buffer is used.
\<close>

theorem pool_allocates:
  assumes "length m = NUM_BUFFERS"
  shows "case allocate_memory m of (p, m') \<Rightarrow>
    p = first_free (in_use m) \<and> length m' = NUM_BUFFERS \<and>
    in_use m' = (if p = - 1 then in_use m else insert (nat p) (in_use m)) \<and>
    (p = - 1 \<longleftrightarrow> in_use m = {..<NUM_BUFFERS}) \<and> (p = - 1 \<longrightarrow> m' = m)"
  using allocate_memory_spec [OF assms] first_free_range [OF in_use_range] assms
  by (cases "in_use m = {..<NUM_BUFFERS}") (auto simp: in_use_update first_free_def split: if_splits)

theorem pool_allocates_witness:
  "length (replicate NUM_BUFFERS (0 :: c_int)) = NUM_BUFFERS \<and>
   fst (allocate_memory (replicate NUM_BUFFERS 0)) = first_free (in_use (replicate NUM_BUFFERS 0))"
  using pool_allocates [of "replicate NUM_BUFFERS 0"] by (auto split: prod.splits)

text \<open>
  C28. Releasing the buffer just allocated restores the pool, so
  \<open>thread_function\<close> run alone leaves every flag as it was; and a release outside the array
  changes nothing.
\<close>

theorem pool_roundtrip:
  assumes "length m = NUM_BUFFERS"
  shows "thread_function_pool m = m \<and> (p < 0 \<or> int NUM_BUFFERS \<le> p \<longrightarrow> release_memory p m = m)"
proof (cases "in_use m = {..<NUM_BUFFERS}")
  case True
  then show ?thesis using allocate_memory_spec [OF assms]
    by (auto simp: thread_function_pool_def release_memory_def first_free_def)
next
  case False
  note f = first_free_range [OF in_use_range False]
  then have "m ! nat (first_free (in_use m)) = 0" by (simp add: in_use_def)
  then have "m[nat (first_free (in_use m)) := 0] = m" by (metis list_update_id)
  then show ?thesis using allocate_memory_spec [OF assms] False f
    by (auto simp: thread_function_pool_def release_memory_def)
qed

theorem pool_roundtrip_witness:
  "length (init_memory (replicate NUM_BUFFERS 5)) = NUM_BUFFERS \<and>
   thread_function_pool (init_memory (replicate NUM_BUFFERS 5)) = init_memory (replicate NUM_BUFFERS 5) \<and>
   release_memory 192 (init_memory (replicate NUM_BUFFERS 5)) = init_memory (replicate NUM_BUFFERS 5)"
  using pool_roundtrip [of "init_memory (replicate NUM_BUFFERS 5)" 192] by (simp add: init_memory_def)

text \<open>
  From the initialised pool, \<open>k\<close> calls return the buffers \<open>0, ..., k - 1\<close>
  in order, all different, up to the 192nd; every call after that returns -1.
\<close>

primrec allocations :: "nat \<Rightarrow> pool \<Rightarrow> int list \<times> pool" where
  "allocations 0 m = ([], m)"
| "allocations (Suc k) m = (case allocations k m of (ps, m') \<Rightarrow>
     case allocate_memory m' of (p, m'') \<Rightarrow> (ps @ [p], m''))"

lemma allocations_state:
  assumes "length m = NUM_BUFFERS"
  shows "case allocations k (init_memory m) of (ps, m') \<Rightarrow>
    ps = map int [0..<min k NUM_BUFFERS] @ replicate (k - NUM_BUFFERS) (- 1) \<and>
    length m' = NUM_BUFFERS \<and> in_use m' = {..<min k NUM_BUFFERS}"
proof (induction k)
  case 0
  then show ?case using assms by (auto simp: init_memory_def in_use_def init_loop_nth)
next
  case (Suc k)
  then obtain ps m' where k: "allocations k (init_memory m) = (ps, m')" "length m' = NUM_BUFFERS"
    "in_use m' = {..<min k NUM_BUFFERS}"
    "ps = map int [0..<min k NUM_BUFFERS] @ replicate (k - NUM_BUFFERS) (- 1)"
    by (cases "allocations k (init_memory m)") auto
  show ?case
  proof (cases "k < NUM_BUFFERS")
    case True
    then have "(LEAST p. p \<notin> in_use m') = k" using k(3) by (intro Least_equality) auto
    moreover have "in_use m' \<noteq> {..<NUM_BUFFERS}" using k(3) True by (auto simp: min_def)
    ultimately have "allocate_memory m' = (int k, m'[k := 1])"
      using allocate_memory_spec [OF k(2)] by (simp add: first_free_def)
    moreover have "min k NUM_BUFFERS = k" "min (Suc k) NUM_BUFFERS = Suc k" "k - NUM_BUFFERS = 0"
      "Suc k - NUM_BUFFERS = 0" using True by simp_all
    moreover have "in_use (m'[k := 1]) = insert k (in_use m')" using in_use_update [OF True k(2)] by simp
    ultimately show ?thesis using k by (simp add: lessThan_Suc)
  next
    case False
    then have "in_use m' = {..<NUM_BUFFERS}" using k(3) by (simp add: min_def)
    then have "allocate_memory m' = (- 1, m')"
      using allocate_memory_spec [OF k(2)] by (simp add: first_free_def)
    moreover have "Suc k - NUM_BUFFERS = Suc (k - NUM_BUFFERS)" "min k NUM_BUFFERS = NUM_BUFFERS"
      "min (Suc k) NUM_BUFFERS = NUM_BUFFERS" using False by linarith+
    ultimately show ?thesis using k by (simp add: replicate_append_same)
  qed
qed

theorem pool_sequence:
  assumes "length m = NUM_BUFFERS"
  shows "fst (allocations k (init_memory m)) =
    map int [0..<min k NUM_BUFFERS] @ replicate (k - NUM_BUFFERS) (- 1)"
  using allocations_state [OF assms, of k] by (auto split: prod.splits)

lemma first_three: "map int [0..<min 3 NUM_BUFFERS] @ replicate (3 - NUM_BUFFERS) (- 1) = [0, 1, 2]"
  by (simp add: upt_rec)

theorem pool_sequence_witness:
  "length (replicate NUM_BUFFERS (9 :: c_int)) = NUM_BUFFERS \<and>
   fst (allocations 3 (init_memory (replicate NUM_BUFFERS 9))) = [0, 1, 2]"
  unfolding pool_sequence [OF length_replicate] length_replicate first_three by blast

section \<open>Two threads\<close>

text \<open>
  The test of a flag and its setting are two accesses. \<open>Test p\<close> and \<open>Set p\<close> stand before
  them in \<open>allocate_memory\<close>, \<open>Use p\<close> before the release.
\<close>

datatype pool_pc = Test nat | Set nat | Use nat | Finished

record pool_state =
  memory :: pool
  pool_pc :: "nat \<Rightarrow> pool_pc"

definition thread_step :: "nat \<Rightarrow> pool_state \<Rightarrow> pool_state" where
  "thread_step i s = (case pool_pc s i of
     Test p \<Rightarrow>
       if p < NUM_BUFFERS
       then s\<lparr>pool_pc := (pool_pc s)(i := if memory s ! p = 0 then Set p else Test (p + 1))\<rparr>
       else s\<lparr>pool_pc := (pool_pc s)(i := Finished)\<rparr>
   | Set p \<Rightarrow> s\<lparr>memory := (memory s)[p := 1], pool_pc := (pool_pc s)(i := Use p)\<rparr>
   | Use p \<Rightarrow> s\<lparr>memory := release_memory (int p) (memory s), pool_pc := (pool_pc s)(i := Finished)\<rparr>
   | Finished \<Rightarrow> s)"

inductive pool_step :: "nat set \<Rightarrow> pool_state \<Rightarrow> pool_state \<Rightarrow> bool" for A where
  "i \<in> A \<Longrightarrow> pool_pc s i \<noteq> Finished \<Longrightarrow> pool_step A s (thread_step i s)"

definition main_pool :: "pool \<Rightarrow> pool_state" where
  "main_pool m = \<lparr>memory = init_memory m, pool_pc = (\<lambda>_. Test 0)\<rparr>"

lemma allocate_loop_nonneg: "fst (allocate_loop p m) = - 1 \<or> 0 \<le> fst (allocate_loop p m)"
  by (induction p m rule: allocate_loop.induct) (subst (1 2) allocate_loop.simps, simp)

text \<open>The interleaved thread and the function are the same program.\<close>

lemma thread_alone_loop:
  "(pool_step {i})\<^sup>*\<^sup>* \<lparr>memory = m, pool_pc = f(i := Test p)\<rparr>
     (case allocate_loop p m of (q, m') \<Rightarrow>
        \<lparr>memory = m', pool_pc = f(i := if q = - 1 then Finished else Use (nat q))\<rparr>)"
proof (induction p m rule: allocate_loop.induct)
  case (1 p m)
  let ?s = "\<lparr>memory = m, pool_pc = f(i := Test p)\<rparr>"
  have step: "pool_step {i} ?s (thread_step i ?s)" by (rule pool_step.intros) simp_all
  show ?case
  proof (cases "p < NUM_BUFFERS \<and> m ! p = 0")
    case True
    let ?t = "\<lparr>memory = m, pool_pc = f(i := Set p)\<rparr>"
    have "pool_step {i} ?t (thread_step i ?t)" by (rule pool_step.intros) simp_all
    with step True have "(pool_step {i})\<^sup>*\<^sup>* ?s \<lparr>memory = m[p := 1], pool_pc = f(i := Use p)\<rparr>"
      by (simp add: thread_step_def)
    with True show ?thesis by (subst allocate_loop.simps) simp
  next
    case False
    show ?thesis
    proof (cases "p < NUM_BUFFERS")
      case True
      with False have "m ! p \<noteq> 0" by simp
      with step True have st: "pool_step {i} ?s \<lparr>memory = m, pool_pc = f(i := Test (p + 1))\<rparr>"
        by (simp add: thread_step_def)
      have e: "allocate_loop p m = allocate_loop (p + 1) m"
        using True \<open>m ! p \<noteq> 0\<close> by (subst allocate_loop.simps) simp
      show ?thesis unfolding e
        by (rule converse_rtranclp_into_rtranclp [of "pool_step {i}", OF st 1 [OF True \<open>m ! p \<noteq> 0\<close>]])
    next
      case False
      with step show ?thesis by (subst allocate_loop.simps) (simp add: thread_step_def)
    qed
  qed
qed

text \<open>
  A thread that is not interrupted does what \<open>thread_function\<close> does: its
  steps lead from the start to the end with the memory that the function computes.
\<close>

theorem pool_alone:
  "(pool_step {i})\<^sup>*\<^sup>* \<lparr>memory = m, pool_pc = f(i := Test 0)\<rparr>
     \<lparr>memory = thread_function_pool m, pool_pc = f(i := Finished)\<rparr>"
proof -
  obtain q m' where q: "allocate_loop 0 m = (q, m')" by (cases "allocate_loop 0 m")
  note run = thread_alone_loop [where p = 0 and m = m and f = f and i = i, unfolded q prod.case]
  show ?thesis
  proof (cases "q = - 1")
    case True
    with run q show ?thesis by (simp add: thread_function_pool_def allocate_memory_def)
  next
    case False
    let ?s = "\<lparr>memory = m', pool_pc = f(i := Use (nat q))\<rparr>"
    have "pool_step {i} ?s (thread_step i ?s)" by (rule pool_step.intros) simp_all
    moreover have "0 \<le> q" using q False allocate_loop_nonneg [of 0 m] by auto
    ultimately show ?thesis using run q False
      by (auto simp: thread_function_pool_def allocate_memory_def thread_step_def intro: rtranclp.rtrancl_into_rtrancl)
  qed
qed

abbreviation run :: "nat list \<Rightarrow> pool_state \<Rightarrow> pool_state" where
  "run is s \<equiv> foldr thread_step is s"

lemma run_reach: "set is \<subseteq> A \<Longrightarrow> (pool_step A)\<^sup>*\<^sup>* s (run is s)"
proof (induction "is")
  case (Cons i "is")
  have "(pool_step A)\<^sup>*\<^sup>* c (thread_step i c)" for c
    using Cons.prems pool_step.intros [of i A c]
    by (cases "pool_pc c i = Finished") (auto simp: thread_step_def)
  with Cons show ?case by (auto intro: rtranclp_trans)
qed simp

text \<open>
  Two threads may both be given buffer 0, under sequential consistency
  already: both read its flag before either sets it. When one of them then releases the
  buffer, the other is still using a buffer that is marked free.
\<close>

theorem pool_race:
  assumes "length m = NUM_BUFFERS"
  shows "\<exists>c d. (pool_step {0, 1})\<^sup>*\<^sup>* (main_pool m) c \<and> pool_pc c 0 = Use 0 \<and> pool_pc c 1 = Use 0 \<and>
     pool_step {0, 1} c d \<and> pool_pc d 1 = Use 0 \<and> 0 \<notin> in_use (memory d)"
proof -
  let ?c = "\<lparr>memory = (init_memory m)[0 := 1], pool_pc = (\<lambda>_. Test 0)(0 := Use 0, 1 := Use 0)\<rparr>"
  have "init_memory m ! 0 = 0" using assms init_loop_nth [of NUM_BUFFERS m 0] by (simp add: init_memory_def)
  then have "run [1, 0, 1, 0] (main_pool m) = ?c"
    by (auto simp: thread_step_def main_pool_def fun_eq_iff)
  then have "(pool_step {0, 1})\<^sup>*\<^sup>* (main_pool m) ?c"
    using run_reach [of "[1, 0, 1, 0]" "{0, 1}" "main_pool m"] by simp
  moreover have "pool_step {0, 1} ?c (thread_step 0 ?c)" by (rule pool_step.intros) simp_all
  moreover have "pool_pc (thread_step 0 ?c) 1 = Use 0" "0 \<notin> in_use (memory (thread_step 0 ?c))"
    using assms by (simp_all add: thread_step_def release_memory_def in_use_def init_memory_def)
  moreover have "pool_pc ?c 0 = Use 0" "pool_pc ?c 1 = Use 0" by simp_all
  ultimately show ?thesis by blast
qed

theorem pool_race_witness:
  "length (replicate NUM_BUFFERS (0 :: c_int)) = NUM_BUFFERS \<and>
   (\<exists>c. (pool_step {0, 1})\<^sup>*\<^sup>* (main_pool (replicate NUM_BUFFERS 0)) c \<and>
      pool_pc c 0 = Use 0 \<and> pool_pc c 1 = Use 0)"
  using pool_race [OF length_replicate, of "0 :: c_int"]
  by (intro conjI length_replicate) (elim exE conjE, intro exI conjI)

text \<open>
  Whatever the number of threads and their interleaving, no thread sets or
  clears a flag outside the array, and none accesses it outside its loop's range.
\<close>

theorem pool_bounds:
  "always (pool_step A) (main_pool m)
     (\<lambda>c. \<forall>i p. pool_pc c i = Set p \<or> pool_pc c i = Use p \<longrightarrow> p < NUM_BUFFERS)"
proof (rule always_invariant)
  fix a b :: pool_state assume i: "\<forall>i p. pool_pc a i = Set p \<or> pool_pc a i = Use p \<longrightarrow> p < NUM_BUFFERS"
  assume "pool_step A a b"
  then obtain j where "b = thread_step j a" by (auto elim: pool_step.cases)
  with i show "\<forall>i p. pool_pc b i = Set p \<or> pool_pc b i = Use p \<longrightarrow> p < NUM_BUFFERS"
    by (auto simp: thread_step_def split: pool_pc.splits if_splits)
qed (auto simp: main_pool_def)

theorem pool_bounds_witness:
  "\<exists>c. (pool_step {0, 1})\<^sup>*\<^sup>* (main_pool (replicate NUM_BUFFERS 0)) c \<and> pool_pc c 0 = Use 0 \<and> 0 < NUM_BUFFERS"
proof -
  let ?m = "replicate NUM_BUFFERS (0 :: c_int)"
  have "init_memory ?m ! 0 = 0" using init_loop_nth [of NUM_BUFFERS ?m 0] by (simp add: init_memory_def)
  then have p: "pool_pc (run [0, 0] (main_pool ?m)) 0 = Use 0" by (simp add: thread_step_def main_pool_def)
  have r: "(pool_step {0, 1})\<^sup>*\<^sup>* (main_pool ?m) (run [0, 0] (main_pool ?m))" by (rule run_reach) simp
  from alwaysD [OF pool_bounds r] have "pool_pc (run [0, 0] (main_pool ?m)) 0 = Use 0 \<longrightarrow> 0 < NUM_BUFFERS" by blast
  with p r show ?thesis by blast
qed

end
