(* ===== verification/Event_Channels.thy ===== *)
theory Event_Channels
  imports Transition_Systems
begin

text \<open>
  The event-channel allocation of Xen, \<open>Layer1/9-CVE-2020-25603-Xen.c\<close>, for any number of
  threads that each ask for one port, as an interleaving of their accesses to the global domain
  under sequential consistency; none of the accesses is locked, and \<open>valid_evtchns += 1\<close> is a
  load and a store. Ports and counters are unsigned 32-bit words. The messages are left out, and
  so is the failed allocation of the domain, which ends the program before any thread exists.
\<close>

section \<open>State\<close>

abbreviation UINT_MAX :: "32 word" where "UINT_MAX \<equiv> 100"

record domain =
  max_evtchn_port :: "32 word"
  valid_evtchns :: "32 word"
  evtchn :: c_int

text \<open>The next access of a thread, or the result of its call.\<close>

datatype evtchn_pc =
  Load_max | Load_valid | Load_evtchn | Store_evtchn | Load_count | Store_count "32 word" | Result c_int

record evtchn_state =
  dom_of :: domain
  at :: "nat \<Rightarrow> evtchn_pc"
  created :: nat
  joined :: nat
  freed :: bool

section \<open>Operations\<close>

definition init_domain :: domain where
  "init_domain = \<lparr>max_evtchn_port = UINT_MAX, valid_evtchns = 5, evtchn = - 1\<rparr>"

definition port_is_valid :: "domain \<Rightarrow> 32 word \<Rightarrow> bool" where
  "port_is_valid d p \<longleftrightarrow> p < valid_evtchns d"

definition evtchn_goto :: "nat \<Rightarrow> evtchn_pc \<Rightarrow> evtchn_state \<Rightarrow> evtchn_state" where
  "evtchn_goto i p s = s\<lparr>at := (at s)(i := p)\<rparr>"

definition evtchn_allocate_port :: "32 word \<Rightarrow> nat \<Rightarrow> evtchn_state \<Rightarrow> evtchn_state" where
  "evtchn_allocate_port port i s = (let d = dom_of s in case at s i of
     Load_max \<Rightarrow> evtchn_goto i (if max_evtchn_port d < port then Result (- 1) else Load_valid) s
   | Load_valid \<Rightarrow> evtchn_goto i (if port_is_valid d port then Load_evtchn else Store_evtchn) s
   | Load_evtchn \<Rightarrow> evtchn_goto i (Result (if evtchn d = 0 then - 2 else 0)) s
   | Store_evtchn \<Rightarrow> evtchn_goto i Load_count (s\<lparr>dom_of := d\<lparr>evtchn := 1\<rparr>\<rparr>)
   | Load_count \<Rightarrow> evtchn_goto i (Store_count (valid_evtchns d)) s
   | Store_count v \<Rightarrow> evtchn_goto i (Result 0) (s\<lparr>dom_of := d\<lparr>valid_evtchns := v + 1\<rparr>\<rparr>)
   | Result r \<Rightarrow> s)"

definition thread_func_evtchn :: "32 word \<Rightarrow> nat \<Rightarrow> evtchn_state \<Rightarrow> evtchn_state" where
  "thread_func_evtchn arg i s = evtchn_allocate_port arg i s"

text \<open>
  \<open>main\<close> creates \<open>n\<close> threads, the \<open>i\<close>-th with the argument \<open>ports i\<close>, joins them in order and
  frees the domain. The source has two, with the ports 4 and 6.
\<close>

definition main_evtchn :: evtchn_state where
  "main_evtchn = \<lparr>dom_of = init_domain, at = (\<lambda>_. Load_max), created = 0, joined = 0, freed = False\<rparr>"

inductive evtchn_step :: "nat \<Rightarrow> (nat \<Rightarrow> 32 word) \<Rightarrow> evtchn_state \<Rightarrow> evtchn_state \<Rightarrow> bool" for n ports where
  run: "i < created s \<Longrightarrow> evtchn_step n ports s (thread_func_evtchn (ports i) i s)"
| create: "created s < n \<Longrightarrow> evtchn_step n ports s (s\<lparr>created := created s + 1\<rparr>)"
| join: "created s = n \<Longrightarrow> joined s < n \<Longrightarrow> at s (joined s) = Result r \<Longrightarrow>
    evtchn_step n ports s (s\<lparr>joined := joined s + 1\<rparr>)"
| free_domain: "joined s = n \<Longrightarrow> \<not> freed s \<Longrightarrow> evtchn_step n ports s (s\<lparr>freed := True\<rparr>)"

definition main_ports :: "nat \<Rightarrow> 32 word" where
  "main_ports i = (if i = 0 then 4 else 6)"

section \<open>Invariant\<close>

text \<open>The threads that have counted their port: those that returned 0 for a port above 4.\<close>

definition counters :: "nat \<Rightarrow> (nat \<Rightarrow> 32 word) \<Rightarrow> evtchn_state \<Rightarrow> nat set" where
  "counters n ports s = {i. i < n \<and> at s i = Result 0 \<and> 5 \<le> ports i}"

definition count_ok :: "nat \<Rightarrow> (nat \<Rightarrow> 32 word) \<Rightarrow> evtchn_state \<Rightarrow> 32 word \<Rightarrow> bool" where
  "count_ok n ports s v \<longleftrightarrow> 5 \<le> v \<and> unat v \<le> 5 + card (counters n ports s)"

definition evtchn_thread_ok :: "nat \<Rightarrow> (nat \<Rightarrow> 32 word) \<Rightarrow> evtchn_state \<Rightarrow> nat \<Rightarrow> bool" where
  "evtchn_thread_ok n ports s i \<longleftrightarrow> (case at s i of
     Load_max \<Rightarrow> True
   | Load_valid \<Rightarrow> ports i \<le> 100
   | Load_evtchn \<Rightarrow> ports i \<le> 100
   | Store_count v \<Rightarrow> 5 \<le> ports i \<and> ports i \<le> 100 \<and> count_ok n ports s v
   | Result r \<Rightarrow> r = (if ports i \<le> 100 then 0 else - 1)
   | _ \<Rightarrow> 5 \<le> ports i \<and> ports i \<le> 100)"

definition is_result :: "evtchn_pc \<Rightarrow> bool" where
  "is_result p \<longleftrightarrow> (case p of Result _ \<Rightarrow> True | _ \<Rightarrow> False)"








lemma evtchn_counts_cong [simp]:
  "counters n ports (s\<lparr>created := k\<rparr>) = counters n ports s" "counters n ports (s\<lparr>joined := k\<rparr>) = counters n ports s"
  "counters n ports (s\<lparr>freed := b\<rparr>) = counters n ports s"
  by (simp_all add: counters_def)

lemma evtchn_thread_cong [simp]:
  "evtchn_thread_ok n ports (s\<lparr>created := k\<rparr>) i = evtchn_thread_ok n ports s i"
  "evtchn_thread_ok n ports (s\<lparr>joined := k\<rparr>) i = evtchn_thread_ok n ports s i"
  "evtchn_thread_ok n ports (s\<lparr>freed := b\<rparr>) i = evtchn_thread_ok n ports s i"
  by (cases "at s i"; simp add: evtchn_thread_ok_def count_ok_def)+



section \<open>Executions\<close>







section \<open>Properties\<close>

text \<open>
  A call of \<open>evtchn_allocate_port\<close> that is not interrupted: -1 for a port
  above the maximum; -2 for a valid port if the channel is 0; otherwise 0, and the domain changes
  only when the port was not valid yet, its channel then being set and the port counted.
\<close>

theorem evtchn_results:
  "(if at s i = Load_max then (evtchn_allocate_port port i ^^ 5) s =
     (let d = dom_of s in
      if max_evtchn_port d < port then evtchn_goto i (Result (- 1)) s
      else if port_is_valid d port then evtchn_goto i (Result (if evtchn d = 0 then - 2 else 0)) s
      else evtchn_goto i (Result 0) (s\<lparr>dom_of := d\<lparr>evtchn := 1, valid_evtchns := valid_evtchns d + 1\<rparr>\<rparr>))
    else True)"
proof (cases "at s i = Load_max")
  case True
  let ?f = "evtchn_allocate_port port i"
  have five: "(?f ^^ 5) s = ?f (?f (?f (?f (?f s))))" by (simp add: numeral_eq_Suc)
  have done_fix: "?f (evtchn_goto i (Result r) t) = evtchn_goto i (Result r) t" for r t
    by (simp add: evtchn_allocate_port_def evtchn_goto_def)
  have again: "evtchn_goto i p (evtchn_goto i q t) = evtchn_goto i p t" for p q t
    by (simp add: evtchn_goto_def)
  consider "max_evtchn_port (dom_of s) < port"
    | "\<not> max_evtchn_port (dom_of s) < port" "port_is_valid (dom_of s) port"
    | "\<not> max_evtchn_port (dom_of s) < port" "\<not> port_is_valid (dom_of s) port" by blast
  then show ?thesis
  proof cases
    case 1
    then have "?f s = evtchn_goto i (Result (- 1)) s" using True by (simp add: evtchn_allocate_port_def)
    with 1 True show ?thesis by (simp add: five done_fix)
  next
    case 2
    then have "?f s = evtchn_goto i Load_valid s" using True by (simp add: evtchn_allocate_port_def)
    moreover have "?f (evtchn_goto i Load_valid s) = evtchn_goto i Load_evtchn s"
      using 2 by (simp add: evtchn_allocate_port_def evtchn_goto_def)
    moreover have "?f (evtchn_goto i Load_evtchn s) = evtchn_goto i (Result (if evtchn (dom_of s) = 0 then - 2 else 0)) s"
      by (simp add: evtchn_allocate_port_def evtchn_goto_def)
    ultimately show ?thesis using 2 True by (simp add: five done_fix)
  next
    case 3
    let ?t = "s\<lparr>dom_of := dom_of s\<lparr>evtchn := 1\<rparr>\<rparr>"
    have "?f s = evtchn_goto i Load_valid s" using 3 True by (simp add: evtchn_allocate_port_def)
    moreover have "?f (evtchn_goto i Load_valid s) = evtchn_goto i Store_evtchn s"
      using 3 by (simp add: evtchn_allocate_port_def evtchn_goto_def)
    moreover have "?f (evtchn_goto i Store_evtchn s) = evtchn_goto i Load_count ?t"
      by (simp add: evtchn_allocate_port_def evtchn_goto_def)
    moreover have "?f (evtchn_goto i Load_count ?t) = evtchn_goto i (Store_count (valid_evtchns (dom_of s))) ?t"
      by (simp add: evtchn_allocate_port_def evtchn_goto_def)
    moreover have "?f (evtchn_goto i (Store_count (valid_evtchns (dom_of s))) ?t) =
        evtchn_goto i (Result 0) (s\<lparr>dom_of := dom_of s\<lparr>evtchn := 1, valid_evtchns := valid_evtchns (dom_of s) + 1\<rparr>\<rparr>)"
      by (simp add: evtchn_allocate_port_def evtchn_goto_def)
    ultimately show ?thesis using 3 True by (simp add: five Let_def)
  qed
qed simp



text \<open>What holds of the two threads of \<open>main\<close>.\<close>

definition second_thread :: "(evtchn_pc \<times> domain) set" where
  "second_thread = {(Load_max, init_domain), (Load_valid, init_domain), (Store_evtchn, init_domain),
     (Load_count, init_domain\<lparr>evtchn := 1\<rparr>), (Store_count 5, init_domain\<lparr>evtchn := 1\<rparr>),
     (Result 0, \<lparr>max_evtchn_port = 100, valid_evtchns = 6, evtchn = 1\<rparr>)}"

definition main_evtchn_ok :: "evtchn_state \<Rightarrow> bool" where
  "main_evtchn_ok s \<longleftrightarrow> at s 0 \<in> {Load_max, Load_valid, Load_evtchn, Result 0} \<and>
     (at s 1, dom_of s) \<in> second_thread \<and> created s \<le> 2"

lemma second_thread_domain:
  "(p, d) \<in> second_thread \<Longrightarrow> max_evtchn_port d = 100 \<and> 4 < valid_evtchns d \<and> evtchn d \<noteq> 0"
  by (auto simp: second_thread_def init_domain_def)

lemma main_first_thread: "main_evtchn_ok s \<Longrightarrow> main_evtchn_ok (thread_func_evtchn 4 0 s)"
  using second_thread_domain [of "at s 1" "dom_of s"]
  by (auto simp: main_evtchn_ok_def thread_func_evtchn_def evtchn_allocate_port_def Let_def evtchn_goto_def
      port_is_valid_def)

lemma main_second_thread:
  assumes "(at s 1, dom_of s) \<in> second_thread"
  shows "(at (thread_func_evtchn 6 1 s) 1, dom_of (thread_func_evtchn 6 1 s)) \<in> second_thread \<and>
    at (thread_func_evtchn 6 1 s) 0 = at s 0 \<and> created (thread_func_evtchn 6 1 s) = created s"
proof -
  from assms consider "at s 1 = Load_max" "dom_of s = init_domain" | "at s 1 = Load_valid" "dom_of s = init_domain"
    | "at s 1 = Store_evtchn" "dom_of s = init_domain"
    | "at s 1 = Load_count" "dom_of s = init_domain\<lparr>evtchn := 1\<rparr>"
    | "at s 1 = Store_count 5" "dom_of s = init_domain\<lparr>evtchn := 1\<rparr>"
    | "at s 1 = Result 0" "dom_of s = \<lparr>max_evtchn_port = 100, valid_evtchns = 6, evtchn = 1\<rparr>"
    unfolding second_thread_def by blast
  then show ?thesis
    by cases (simp_all add: second_thread_def thread_func_evtchn_def evtchn_allocate_port_def Let_def
        evtchn_goto_def init_domain_def port_is_valid_def)
qed

lemma main_evtchn_step: "evtchn_step 2 main_ports s t \<Longrightarrow> main_evtchn_ok s \<Longrightarrow> main_evtchn_ok t"
proof (erule evtchn_step.cases)
  fix i u assume ok: "main_evtchn_ok s" and t: "s = u" "t = thread_func_evtchn (main_ports i) i u" "i < created u"
  then have "i = 0 \<or> i = 1" by (auto simp: main_evtchn_ok_def)
  then show "main_evtchn_ok t"
  proof
    assume "i = 0"
    with t main_first_thread [OF ok] show ?thesis by (simp add: main_ports_def)
  next
    assume "i = 1"
    with t main_second_thread [of s] ok show ?thesis by (simp add: main_ports_def main_evtchn_ok_def)
  qed
qed (simp_all add: main_evtchn_ok_def)

lemma main_evtchn_start: "main_evtchn_ok main_evtchn"
  by (simp add: main_evtchn_ok_def main_evtchn_def second_thread_def)

lemma main_evtchn_end:
  "main_evtchn_ok s \<Longrightarrow> is_result (at s 0) \<Longrightarrow> is_result (at s 1) \<Longrightarrow>
   at s 0 = Result 0 \<and> at s 1 = Result 0 \<and> dom_of s = \<lparr>max_evtchn_port = 100, valid_evtchns = 6, evtchn = 1\<rparr>"
  by (auto simp: main_evtchn_ok_def second_thread_def is_result_def)

text \<open>
  The two threads of \<open>main\<close>, of which only the second writes: in every
  interleaving both succeed and leave the same domain, and the port 6 that was asked for is
  still not valid then.
\<close>

theorem evtchn_main:
  "always (evtchn_step 2 main_ports) main_evtchn (\<lambda>s. if is_result (at s 0) \<and> is_result (at s 1)
     then at s 0 = Result 0 \<and> at s 1 = Result 0 \<and> \<not> port_is_valid (dom_of s) 6 \<and>
       dom_of s = \<lparr>max_evtchn_port = 100, valid_evtchns = 6, evtchn = 1\<rparr> else True)"
  by (rule always_invariant [of main_evtchn_ok])
    (auto simp: main_evtchn_start port_is_valid_def intro: main_evtchn_step dest: main_evtchn_end)

end
