(* ===== verification/Lf_List.thy ===== *)
theory Lf_List
  imports Transition_Systems
begin

text \<open>
  The lock-free list of MariaDB, \<open>Layer1/11-MariaDBEasy.c\<close>: \<open>l_find\<close> walks the list, pinning
  the nodes it passes, \<open>l_delete\<close> is to mark and unlink the node found. Memory is a partial map
  from addresses to nodes, the head pointer having an address too; following a pointer that
  leads to no node is a fault. The functions are modelled access by access, under sequential
  consistency: between two accesses other threads may change memory. The macro for the pins and
  the type of \<open>lf_pinbox_real_free\<close> are the file's: that function follows a \<open>void *\<close>, which no
  compiler accepts, so it is a parameter of \<open>l_delete\<close>.
\<close>

unbundle bit_operations_syntax

section \<open>Tagged pointers\<close>

type_synonym intptr = "64 word"

definition PTR :: "intptr \<Rightarrow> intptr" where
  "PTR V = V AND NOT 1"

definition deleted_mark :: "intptr \<Rightarrow> intptr" where
  "deleted_mark V = V OR 1"

lemma bit_PTR: "bit (PTR V) n \<longleftrightarrow> bit V n \<and> n \<noteq> 0"
  by (auto simp: PTR_def bit_simps dest: bit_imp_le_length)

lemma bit_deleted_mark: "bit (deleted_mark V) n \<longleftrightarrow> bit V n \<or> n = 0"
  by (auto simp: deleted_mark_def bit_simps)

lemma PTR_aligned: "PTR V = V \<longleftrightarrow> \<not> bit V 0"
proof
  assume "PTR V = V"
  then show "\<not> bit V 0" using bit_PTR [of V 0] by simp
next
  assume "\<not> bit V 0"
  then have "bit V n \<Longrightarrow> n \<noteq> 0" for n by (metis)
  then show "PTR V = V" by (intro bit_word_eqI) (auto simp: bit_PTR)
qed

lemma PTR_marked: "PTR (deleted_mark V) = PTR V"
  by (rule bit_word_eqI) (auto simp: bit_PTR bit_deleted_mark)

section \<open>State\<close>

record lf_slist =
  link :: intptr
  hashnr :: "32 word"
  key :: intptr
  keylen :: "64 word"

record cursor =
  prev :: intptr
  curr :: intptr
  next_node :: intptr

record lf_pins =
  pin :: "nat \<Rightarrow> intptr"
  purgatory :: intptr
  purgatory_count :: "32 word"

text \<open>
  The nodes, and the words of a freed node that chain the purgatory. The link is the first
  field of a node, so a pointer to a link is the address of its node.
\<close>

record memory =
  nodes :: "intptr \<Rightarrow> lf_slist option"
  free_links :: "intptr \<Rightarrow> intptr"

datatype fault = Fault

definition lf_pin :: "lf_pins \<Rightarrow> nat \<Rightarrow> intptr \<Rightarrow> lf_pins" where
  "lf_pin pins i addr = pins\<lparr>pin := (pin pins)(i := addr)\<rparr>"

text \<open>Compare the link at \<open>a\<close> with \<open>e\<close> and replace it by \<open>d\<close> if it is equal.\<close>

definition my_atomic_casptr :: "memory \<Rightarrow> intptr \<Rightarrow> intptr \<Rightarrow> intptr \<Rightarrow> fault + (bool \<times> memory)" where
  "my_atomic_casptr m a e d = (case nodes m a of
     None \<Rightarrow> Inl Fault
   | Some n \<Rightarrow> if link n = e then Inr (True, m\<lparr>nodes := (nodes m)(a \<mapsto> n\<lparr>link := d\<rparr>)\<rparr>) else Inr (False, m))"

definition add_to_purgatory :: "intptr \<Rightarrow> lf_pins \<Rightarrow> intptr \<Rightarrow> memory \<Rightarrow> lf_pins \<times> memory" where
  "add_to_purgatory free_ptr_offset pins addr m =
     (pins\<lparr>purgatory := addr, purgatory_count := purgatory_count pins + 1\<rparr>,
      m\<lparr>free_links := (free_links m)(addr + free_ptr_offset := purgatory pins)\<rparr>)"

section \<open>Operations\<close>

text \<open>
  Where a walk stands and its local variables. The parameters \<open>head\<close>, \<open>key\<close> and \<open>keylen\<close> of
  \<open>l_find\<close> are not used by its body.
\<close>

datatype find_pc =
  Test_curr | Read_hashnr | Read_keylen | Read_key | Read_link | Pin_next | Validate | Advance | Pin_curr
| Find_returned c_int | Find_fault

record walk =
  find_at :: find_pc
  walk_cursor :: cursor
  walk_pins :: lf_pins
  cur_hashnr :: "32 word"
  cur_keylen :: "64 word"
  cur_key :: intptr
  link_read :: intptr

text \<open>An access through \<open>cursor->curr\<close>.\<close>

definition read_node :: "memory \<Rightarrow> walk \<Rightarrow> (lf_slist \<Rightarrow> walk) \<Rightarrow> walk" where
  "read_node m w f = (case nodes m (curr (walk_cursor w)) of None \<Rightarrow> w\<lparr>find_at := Find_fault\<rparr> | Some n \<Rightarrow> f n)"

definition l_find :: "memory \<Rightarrow> walk \<Rightarrow> walk" where
  "l_find m w = (let cursor = walk_cursor w in case find_at w of
     Test_curr \<Rightarrow> w\<lparr>find_at := if curr cursor = 0 then Find_returned 0 else Read_hashnr\<rparr>
   | Read_hashnr \<Rightarrow> read_node m w (\<lambda>n. w\<lparr>cur_hashnr := hashnr n, find_at := Read_keylen\<rparr>)
   | Read_keylen \<Rightarrow> read_node m w (\<lambda>n. w\<lparr>cur_keylen := keylen n, find_at := Read_key\<rparr>)
   | Read_key \<Rightarrow> read_node m w (\<lambda>n. w\<lparr>cur_key := key n, find_at := Read_link\<rparr>)
   | Read_link \<Rightarrow> read_node m w (\<lambda>n.
       w\<lparr>link_read := link n, walk_cursor := cursor\<lparr>next_node := PTR (link n)\<rparr>, find_at := Pin_next\<rparr>)
   | Pin_next \<Rightarrow> w\<lparr>walk_pins := lf_pin (walk_pins w) 0 (next_node cursor), find_at := Validate\<rparr>
   | Validate \<Rightarrow> read_node m w (\<lambda>n. w\<lparr>find_at := if link_read w \<noteq> link n then Read_link else Advance\<rparr>)
   | Advance \<Rightarrow> w\<lparr>walk_cursor := cursor\<lparr>curr := next_node cursor\<rparr>, find_at := Pin_curr\<rparr>
   | Pin_curr \<Rightarrow> w\<lparr>walk_pins := lf_pin (walk_pins w) 1 (curr cursor), find_at := Test_curr\<rparr>
   | Find_returned r \<Rightarrow> w
   | Find_fault \<Rightarrow> w)"

abbreviation LF_PURGATORY_SIZE :: "32 word" where "LF_PURGATORY_SIZE \<equiv> 100"

text \<open>
  \<open>l_delete\<close>: the call of \<open>l_find\<close>, the two exchanges, and what follows them. Its cursor is a
  local variable that is not initialised, so the walk it starts with is arbitrary.
\<close>

datatype delete_pc = In_find | Mark_node | Unlink_node | Add_to_purgatory | Real_free | Delete_returned c_int | Delete_fault

record deletion =
  delete_at :: delete_pc
  walk_of :: walk

definition l_delete ::
  "(lf_pins \<Rightarrow> memory \<Rightarrow> lf_pins \<times> memory) \<Rightarrow> intptr \<Rightarrow> memory \<times> deletion \<Rightarrow> memory \<times> deletion"
where
  "l_delete lf_pinbox_real_free free_ptr_offset s = (case s of (m, d) \<Rightarrow>
     let w = walk_of d; cursor = walk_cursor w; pins = walk_pins w in case delete_at d of
     In_find \<Rightarrow> (case find_at w of
         Find_returned r \<Rightarrow> (m, d\<lparr>delete_at := if r = 0 then Delete_returned 1 else Mark_node\<rparr>)
       | Find_fault \<Rightarrow> (m, d\<lparr>delete_at := Delete_fault\<rparr>)
       | _ \<Rightarrow> (m, d\<lparr>walk_of := l_find m w\<rparr>))
   | Mark_node \<Rightarrow> (case my_atomic_casptr m (curr cursor) (next_node cursor) (deleted_mark (next_node cursor)) of
         Inl f \<Rightarrow> (m, d\<lparr>delete_at := Delete_fault\<rparr>)
       | Inr (True, m1) \<Rightarrow> (m1, d\<lparr>delete_at := Unlink_node\<rparr>)
       | Inr (False, m1) \<Rightarrow> (m1, d\<lparr>delete_at := In_find, walk_of := w\<lparr>find_at := Test_curr\<rparr>\<rparr>))
   | Unlink_node \<Rightarrow> (case my_atomic_casptr m (prev cursor) (curr cursor) (next_node cursor) of
         Inl f \<Rightarrow> (m, d\<lparr>delete_at := Delete_fault\<rparr>)
       | Inr (True, m1) \<Rightarrow> (m1, d\<lparr>delete_at := Add_to_purgatory\<rparr>)
       | Inr (False, m1) \<Rightarrow> (m1, d\<lparr>delete_at := Delete_returned 0\<rparr>))
   | Add_to_purgatory \<Rightarrow> (case add_to_purgatory free_ptr_offset pins (curr cursor) m of (pins1, m1) \<Rightarrow>
       (m1, d\<lparr>walk_of := w\<lparr>walk_pins := pins1\<rparr>,
          delete_at := if purgatory_count pins1 mod LF_PURGATORY_SIZE = 0 then Real_free else Delete_returned 0\<rparr>))
   | Real_free \<Rightarrow> (case lf_pinbox_real_free pins m of (pins1, m1) \<Rightarrow>
       (m1, d\<lparr>walk_of := w\<lparr>walk_pins := pins1\<rparr>, delete_at := Delete_returned 0\<rparr>))
   | Delete_returned r \<Rightarrow> (m, d)
   | Delete_fault \<Rightarrow> (m, d))"

section \<open>A walk among other threads\<close>

text \<open>
  The other threads may do anything to memory, except that they free no node that the walk has
  pinned and keep a condition \<open>R\<close> on it. Two conditions matter: that no link dangles, and that
  no link of a node that is not marked as deleted does.
\<close>

inductive find_step :: "(memory \<Rightarrow> bool) \<Rightarrow> memory \<times> walk \<Rightarrow> memory \<times> walk \<Rightarrow> bool" for R where
  walk: "find_step R (m, w) (m, l_find m w)"
| others: "R m' \<Longrightarrow> \<forall>a\<in>{pin (walk_pins w) 0, pin (walk_pins w) 1}. nodes m a \<noteq> None \<longrightarrow> nodes m' a \<noteq> None \<Longrightarrow>
    find_step R (m, w) (m', w)"

definition points_to_node :: "memory \<Rightarrow> intptr \<Rightarrow> bool" where
  "points_to_node m a \<longleftrightarrow> a = 0 \<or> nodes m a \<noteq> None"

definition links_ok :: "memory \<Rightarrow> bool" where
  "links_ok m \<longleftrightarrow> (\<forall>a n. nodes m a = Some n \<longrightarrow> points_to_node m (PTR (link n)))"

definition live_links_ok :: "memory \<Rightarrow> bool" where
  "live_links_ok m \<longleftrightarrow> (\<forall>a n. nodes m a = Some n \<longrightarrow> \<not> bit (link n) 0 \<longrightarrow> points_to_node m (PTR (link n)))"

text \<open>The walk starts at a pinned node, or at the end of the list.\<close>

definition pinned_start :: "memory \<Rightarrow> walk \<Rightarrow> bool" where
  "pinned_start m w \<longleftrightarrow> find_at w = Test_curr \<and> points_to_node m (curr (walk_cursor w)) \<and>
     pin (walk_pins w) 1 = curr (walk_cursor w)"

text \<open>
  What protects the walk at each step: it reads only the node in pin 1; the next node is in pin 0
  before its link is validated, and from then on it is allocated.
\<close>

definition walk_ok :: "memory \<Rightarrow> walk \<Rightarrow> bool" where
  "walk_ok m w \<longleftrightarrow> (let c = curr (walk_cursor w); n = next_node (walk_cursor w); p = pin (walk_pins w) in
     case find_at w of
       Test_curr \<Rightarrow> points_to_node m c \<and> p 1 = c
     | Pin_next \<Rightarrow> nodes m c \<noteq> None \<and> p 1 = c \<and> n = PTR (link_read w)
     | Validate \<Rightarrow> nodes m c \<noteq> None \<and> p 1 = c \<and> n = PTR (link_read w) \<and> p 0 = n
     | Advance \<Rightarrow> points_to_node m n \<and> p 0 = n
     | Pin_curr \<Rightarrow> points_to_node m c \<and> p 0 = c
     | Find_returned r \<Rightarrow> r = 0
     | Find_fault \<Rightarrow> False
     | _ \<Rightarrow> nodes m c \<noteq> None \<and> p 1 = c)"

lemma l_find_walk_ok: "links_ok m \<Longrightarrow> walk_ok m w \<Longrightarrow> walk_ok m (l_find m w)"
  by (cases "find_at w")
    (auto simp: walk_ok_def l_find_def read_node_def lf_pin_def Let_def points_to_node_def links_ok_def)

lemma others_walk_ok:
  assumes "walk_ok m w" "\<forall>a\<in>{pin (walk_pins w) 0, pin (walk_pins w) 1}. nodes m a \<noteq> None \<longrightarrow> nodes m' a \<noteq> None"
  shows "walk_ok m' w"
  using assms by (cases "find_at w") (auto simp: walk_ok_def Let_def points_to_node_def)

lemma find_step_ok:
  "find_step links_ok (m, w) (m', w') \<Longrightarrow> links_ok m \<and> walk_ok m w \<Longrightarrow> links_ok m' \<and> walk_ok m' w'"
  by (erule find_step.cases) (auto intro: l_find_walk_ok others_walk_ok)

lemma always_walk_ok:
  assumes "links_ok m" "pinned_start m w"
  shows "always (find_step links_ok) (m, w) (\<lambda>(m, w). walk_ok m w)"
proof (rule always_invariant)
  show "case (m, w) of (m, w) \<Rightarrow> links_ok m \<and> walk_ok m w"
    using assms by (simp add: walk_ok_def pinned_start_def Let_def)
qed (auto dest: find_step_ok)

lemma find_steps: "(find_step R)\<^sup>*\<^sup>* (m, w) (m, (l_find m ^^ k) w)"
  by (induction k) (auto intro: rtranclp.rtrancl_into_rtrancl walk)

section \<open>A walk by itself\<close>

text \<open>The nodes that are visited from \<open>a\<close>, up to the null pointer.\<close>

inductive chain :: "memory \<Rightarrow> intptr \<Rightarrow> nat \<Rightarrow> bool" for m where
  chain_end: "chain m 0 0"
| chain_node: "a \<noteq> 0 \<Longrightarrow> nodes m a = Some n \<Longrightarrow> chain m (PTR (link n)) k \<Longrightarrow> chain m a (Suc k)"

text \<open>Nine accesses take a walk that is not disturbed from a node to the next.\<close>

definition at_next :: "lf_slist \<Rightarrow> walk \<Rightarrow> walk" where
  "at_next n w = w\<lparr>walk_cursor := (walk_cursor w)\<lparr>next_node := PTR (link n), curr := PTR (link n)\<rparr>,
     walk_pins := lf_pin (lf_pin (walk_pins w) 0 (PTR (link n))) 1 (PTR (link n)),
     cur_hashnr := hashnr n, cur_keylen := keylen n, cur_key := key n, link_read := link n\<rparr>"

definition validated :: "lf_slist \<Rightarrow> walk \<Rightarrow> walk" where
  "validated n w = w\<lparr>find_at := Advance, walk_cursor := (walk_cursor w)\<lparr>next_node := PTR (link n)\<rparr>,
     walk_pins := lf_pin (walk_pins w) 0 (PTR (link n)),
     cur_hashnr := hashnr n, cur_keylen := keylen n, cur_key := key n, link_read := link n\<rparr>"

lemma l_find_validated:
  assumes "find_at w = Test_curr" "curr (walk_cursor w) \<noteq> 0" "nodes m (curr (walk_cursor w)) = Some n"
  shows "(l_find m ^^ 7) w = validated n w"
proof -
  have "(l_find m ^^ 7) w = l_find m (l_find m (l_find m (l_find m (l_find m (l_find m (l_find m w))))))"
    by (simp add: numeral_eq_Suc)
  also have "\<dots> = validated n w" using assms by (cases w) (simp add: l_find_def read_node_def validated_def)
  finally show ?thesis .
qed

lemma l_find_turn:
  assumes "find_at w = Test_curr" "curr (walk_cursor w) \<noteq> 0" "nodes m (curr (walk_cursor w)) = Some n"
  shows "(l_find m ^^ 9) w = at_next n w"
proof -
  have "(l_find m ^^ 9) w = (l_find m ^^ 2) ((l_find m ^^ 7) w)" by (simp add: numeral_eq_Suc)
  also have "\<dots> = at_next n w" unfolding l_find_validated [OF assms] numeral_2_eq_2 using assms(1)
    by (cases w) (simp add: l_find_def validated_def at_next_def)
  finally show ?thesis .
qed

lemma l_find_lost:
  assumes "find_at w = Test_curr" "curr (walk_cursor w) \<noteq> 0" "nodes m (curr (walk_cursor w)) = None"
  shows "find_at ((l_find m ^^ 2) w) = Find_fault"
  using assms by (simp add: l_find_def read_node_def numeral_2_eq_2)

lemma l_find_alone:
  assumes "find_at w = Test_curr" "chain m (curr (walk_cursor w)) k"
  shows "\<exists>w'. (l_find m ^^ (9 * k + 1)) w = w' \<and> find_at w' = Find_returned 0 \<and> curr (walk_cursor w') = 0 \<and>
    (k = 0 \<or> pin (walk_pins w') 0 = 0 \<and> pin (walk_pins w') 1 = 0)"
  using assms
proof (induction k arbitrary: w)
  case 0
  from 0(2) have "curr (walk_cursor w) = 0" by cases
  with 0(1) show ?case by (simp add: l_find_def)
next
  case (Suc k)
  from Suc.prems(2) obtain n where n: "curr (walk_cursor w) \<noteq> 0" "nodes m (curr (walk_cursor w)) = Some n"
    "chain m (PTR (link n)) k" by cases auto
  note turn = l_find_turn [OF Suc.prems(1) n(1,2)]
  have c: "chain m (curr (walk_cursor (at_next n w))) k" using n(3) by (simp add: at_next_def)
  have f: "find_at (at_next n w) = Test_curr" using Suc.prems(1) by (simp add: at_next_def)
  have e: "(l_find m ^^ (9 * Suc k + 1)) w = (l_find m ^^ (9 * k + 1)) (at_next n w)"
  proof -
    have "9 * Suc k + 1 = (9 * k + 1) + 9" by simp
    then show ?thesis using turn by (simp only: funpow_add o_apply)
  qed
  from Suc.IH [OF f c] obtain w' where w': "(l_find m ^^ (9 * k + 1)) (at_next n w) = w'" "find_at w' = Find_returned 0"
    "curr (walk_cursor w') = 0" "k = 0 \<or> pin (walk_pins w') 0 = 0 \<and> pin (walk_pins w') 1 = 0" by blast
  have "pin (walk_pins w') 0 = 0 \<and> pin (walk_pins w') 1 = 0"
  proof (cases k)
    case 0
    then have z: "PTR (link n) = 0" using n(3) by (auto elim: chain.cases)
    have "w' = l_find m (at_next n w)" using w'(1) 0 by simp
    with z show ?thesis by (simp add: l_find_def at_next_def lf_pin_def Suc.prems(1))
  qed (use w'(4) in simp)
  with e w' show ?case by blast
qed

lemma l_find_cycle:
  assumes "find_at w = Test_curr" "curr (walk_cursor w) = a" "a \<noteq> 0" "nodes m a = Some n" "PTR (link n) = a"
  shows "find_at ((l_find m ^^ (9 * k)) w) = Test_curr"
proof -
  have "find_at ((l_find m ^^ (9 * k)) w) = Test_curr \<and> curr (walk_cursor ((l_find m ^^ (9 * k)) w)) = a"
  proof (induction k)
    case (Suc k)
    let ?w = "(l_find m ^^ (9 * k)) w"
    have "9 * Suc k = 9 + 9 * k" by simp
    then have "(l_find m ^^ (9 * Suc k)) w = (l_find m ^^ 9) ?w" by (simp only: funpow_add o_apply)
    also have "\<dots> = at_next n ?w" using Suc assms by (intro l_find_turn) simp_all
    finally show ?case using Suc assms(5) by (simp add: at_next_def)
  qed (use assms(1,2) in simp)
  then show ?thesis by simp
qed

section \<open>Properties\<close>

text \<open>
  Marking a link as deleted and reading it back as a pointer gives the pointer
  again, if it was aligned; the mark is what distinguishes the two.
\<close>

theorem lf_tags:
  "PTR (PTR V) = PTR V \<and> PTR (deleted_mark V) = PTR V \<and> deleted_mark V \<noteq> PTR V \<and>
   (PTR V = V \<longleftrightarrow> deleted_mark V \<noteq> V)"
proof -
  have "PTR (PTR V) = PTR V" by (rule bit_word_eqI) (auto simp: bit_PTR)
  moreover have "deleted_mark V \<noteq> PTR V" by (metis bit_PTR bit_deleted_mark)
  moreover have "deleted_mark V = V \<longleftrightarrow> bit V 0"
    by (auto simp: bit_deleted_mark intro!: bit_word_eqI) (metis bit_deleted_mark)
  ultimately show ?thesis using PTR_aligned PTR_marked by auto
qed

definition no_pins :: lf_pins where
  "no_pins = \<lparr>pin = (\<lambda>_. 8), purgatory = 0, purgatory_count = 0\<rparr>"

definition walk_from :: "intptr \<Rightarrow> walk" where
  "walk_from a = \<lparr>find_at = Test_curr, walk_cursor = \<lparr>prev = 0, curr = a, next_node = 0\<rparr>,
     walk_pins = lf_pin no_pins 1 a, cur_hashnr = 0, cur_keylen = 0, cur_key = 0, link_read = 0\<rparr>"

definition some_node :: "intptr \<Rightarrow> lf_slist" where
  "some_node next = \<lparr>link = next, hashnr = 1, key = 64, keylen = 3\<rparr>"

text \<open>The node 16 with the node 32 after it; then both deleted, the second, which nobody has pinned, freed.\<close>

definition two_in_list :: memory where
  "two_in_list = \<lparr>nodes = [16 \<mapsto> some_node 32, 32 \<mapsto> some_node 0], free_links = (\<lambda>_. 0)\<rparr>"

definition both_deleted :: memory where
  "both_deleted = \<lparr>nodes = [16 \<mapsto> some_node (deleted_mark 32)], free_links = (\<lambda>_. 0)\<rparr>"

lemma both_deleted_fault: "find_at ((l_find both_deleted ^^ 11) (walk_from 16)) = Find_fault"
proof -
  let ?n = "some_node (deleted_mark 32)" and ?w = "walk_from 16"
  have w: "find_at ?w = Test_curr" "curr (walk_cursor ?w) \<noteq> 0" "nodes both_deleted (curr (walk_cursor ?w)) = Some ?n"
    by (simp_all add: walk_from_def both_deleted_def)
  have "(l_find both_deleted ^^ 11) ?w = (l_find both_deleted ^^ 2) ((l_find both_deleted ^^ 9) ?w)"
    by (simp add: numeral_eq_Suc)
  also have "\<dots> = (l_find both_deleted ^^ 2) (at_next ?n ?w)" by (simp only: l_find_turn [OF w])
  finally have e: "(l_find both_deleted ^^ 11) ?w = (l_find both_deleted ^^ 2) (at_next ?n ?w)" .
  have "PTR (deleted_mark 32) = 32" by (simp only: PTR_marked) (simp add: PTR_def)
  then have "curr (walk_cursor (at_next ?n ?w)) = 32" by (simp add: at_next_def some_node_def)
  moreover have "find_at (at_next ?n ?w) = Test_curr" by (simp add: at_next_def walk_from_def)
  moreover have "nodes both_deleted 32 = None" by (simp add: both_deleted_def)
  ultimately show ?thesis unfolding e by (intro l_find_lost) simp_all
qed

text \<open>
  C26. The pins and the re-reading of the link protect \<open>l_find\<close>. Under sequential
  consistency, let other threads change memory between any two of its accesses, as long as they
  free no node that is in one of its two pins and leave no link dangling: a walk that starts at a
  pinned node never follows a pointer to a freed node, at every access the node it reads is in
  pin 1, and when it has left the inner loop the next node is in pin 0 and allocated. The second
  condition is needed: if the others may free the node after a node that is marked as deleted,
  as they may in a lock-free list, the walk does reach a freed node, because it strips the mark
  and the link of a deleted node no longer changes, so that reading it again finds nothing.
\<close>

theorem lf_find_safe:
  assumes "links_ok m" "pinned_start m w"
  shows "always (find_step links_ok) (m, w) (\<lambda>(m, w). find_at w \<noteq> Find_fault \<and>
      (find_at w \<in> {Read_hashnr, Read_keylen, Read_key, Read_link, Validate} \<longrightarrow>
         nodes m (curr (walk_cursor w)) \<noteq> None \<and> pin (walk_pins w) 1 = curr (walk_cursor w)) \<and>
      (find_at w = Advance \<longrightarrow>
         points_to_node m (next_node (walk_cursor w)) \<and> pin (walk_pins w) 0 = next_node (walk_cursor w))) \<and>
    (\<exists>m w c. live_links_ok m \<and> pinned_start m w \<and> (find_step live_links_ok)\<^sup>*\<^sup>* (m, w) c \<and>
      find_at (snd c) = Find_fault)"
proof
  show "always (find_step links_ok) (m, w) (\<lambda>(m, w). find_at w \<noteq> Find_fault \<and>
      (find_at w \<in> {Read_hashnr, Read_keylen, Read_key, Read_link, Validate} \<longrightarrow>
         nodes m (curr (walk_cursor w)) \<noteq> None \<and> pin (walk_pins w) 1 = curr (walk_cursor w)) \<and>
      (find_at w = Advance \<longrightarrow>
         points_to_node m (next_node (walk_cursor w)) \<and> pin (walk_pins w) 0 = next_node (walk_cursor w)))"
    by (rule always_mono [OF always_walk_ok [OF assms]]) (auto simp: walk_ok_def Let_def)
  have "live_links_ok two_in_list" "pinned_start two_in_list (walk_from 16)"
    by (simp_all add: live_links_ok_def points_to_node_def two_in_list_def some_node_def PTR_def pinned_start_def
        walk_from_def lf_pin_def)
  moreover have "find_step live_links_ok (two_in_list, walk_from 16) (both_deleted, walk_from 16)"
    by (rule others)
      (simp_all add: live_links_ok_def both_deleted_def two_in_list_def some_node_def deleted_mark_def walk_from_def
        lf_pin_def no_pins_def bit_simps)
  ultimately show "\<exists>m w c. live_links_ok m \<and> pinned_start m w \<and> (find_step live_links_ok)\<^sup>*\<^sup>* (m, w) c \<and>
      find_at (snd c) = Find_fault"
    using converse_rtranclp_into_rtranclp [of "find_step live_links_ok", OF _
        find_steps [of live_links_ok both_deleted "walk_from 16" 11]] both_deleted_fault
    by (metis snd_conv)
qed

theorem lf_find_safe_witness:
  "links_ok two_in_list \<and> pinned_start two_in_list (walk_from 16) \<and>
   find_at ((l_find two_in_list ^^ 7) (walk_from 16)) = Advance \<and>
   pin (walk_pins ((l_find two_in_list ^^ 7) (walk_from 16))) 0 = 32"
proof -
  have l: "links_ok two_in_list" "pinned_start two_in_list (walk_from 16)"
    by (simp_all add: links_ok_def points_to_node_def two_in_list_def some_node_def PTR_def pinned_start_def
        walk_from_def lf_pin_def)
  let ?w = "(l_find two_in_list ^^ 7) (walk_from 16)"
  have w: "find_at (walk_from 16) = Test_curr" "curr (walk_cursor (walk_from 16)) \<noteq> 0"
    "nodes two_in_list (curr (walk_cursor (walk_from 16))) = Some (some_node 32)"
    by (simp_all add: walk_from_def two_in_list_def)
  have a: "find_at ?w = Advance" "next_node (walk_cursor ?w) = 32"
    unfolding l_find_validated [OF w] by (simp_all add: validated_def some_node_def PTR_def)
  from alwaysD [OF conjunct1 [OF lf_find_safe [OF l]] find_steps [of links_ok two_in_list "walk_from 16" 7]] a l
  show ?thesis by simp
qed

text \<open>
  A walk that is not disturbed, on a list of \<open>k\<close> nodes that ends in a
  null link, returns 0 after \<open>9 k + 1\<close> accesses, at the null pointer and with both pins cleared;
  on a node linked to itself it never returns.
\<close>

theorem lf_find_terminates:
  assumes "find_at w = Test_curr"
  shows "(chain m (curr (walk_cursor w)) (Suc k) \<longrightarrow> (\<exists>w'. (l_find m ^^ (9 * Suc k + 1)) w = w' \<and>
      find_at w' = Find_returned 0 \<and> curr (walk_cursor w') = 0 \<and> pin (walk_pins w') 0 = 0 \<and> pin (walk_pins w') 1 = 0)) \<and>
    (curr (walk_cursor w) \<noteq> 0 \<longrightarrow> nodes m (curr (walk_cursor w)) = Some n \<longrightarrow> PTR (link n) = curr (walk_cursor w) \<longrightarrow>
      find_at ((l_find m ^^ (9 * k)) w) = Test_curr)"
  using l_find_alone [OF assms, of m "Suc k"] l_find_cycle [OF assms refl, of m n k] by auto

text \<open>
  Because \<open>l_find\<close> reports every key as absent, \<open>l_delete\<close> deletes
  nothing, whatever the other threads do to memory between its accesses: it changes neither
  memory nor the purgatory, and when it returns it returns 1 (\<open>not found\<close>).
\<close>

definition deletes_nothing :: "deletion \<Rightarrow> bool" where
  "deletes_nothing d \<longleftrightarrow> delete_at d \<in> {In_find, Delete_returned 1, Delete_fault} \<and>
     (\<forall>r. find_at (walk_of d) = Find_returned r \<longrightarrow> r = 0)"

lemma l_find_zero:
  "\<forall>r. find_at w = Find_returned r \<longrightarrow> r = 0 \<Longrightarrow>
   (\<forall>r. find_at (l_find m w) = Find_returned r \<longrightarrow> r = 0) \<and>
   purgatory (walk_pins (l_find m w)) = purgatory (walk_pins w)"
  by (cases "find_at w") (auto simp: l_find_def read_node_def lf_pin_def Let_def split: option.splits)

lemma l_delete_in_find:
  assumes "delete_at d = In_find"
  shows "l_delete rf offset (m, d) = (case find_at (walk_of d) of
      Find_returned r \<Rightarrow> (m, d\<lparr>delete_at := if r = 0 then Delete_returned 1 else Mark_node\<rparr>)
    | Find_fault \<Rightarrow> (m, d\<lparr>delete_at := Delete_fault\<rparr>)
    | _ \<Rightarrow> (m, d\<lparr>walk_of := l_find m (walk_of d)\<rparr>))"
  unfolding l_delete_def prod.case Let_def assms delete_pc.case ..

lemma l_delete_ended:
  "delete_at d = Delete_returned r \<Longrightarrow> l_delete rf offset (m, d) = (m, d)"
  "delete_at d = Delete_fault \<Longrightarrow> l_delete rf offset (m, d) = (m, d)"
  unfolding l_delete_def prod.case Let_def by (simp_all only: delete_pc.case)

theorem lf_delete_nothing:
  assumes "deletes_nothing d"
  shows "fst (l_delete real_free offset (m, d)) = m \<and> deletes_nothing (snd (l_delete real_free offset (m, d))) \<and>
    purgatory (walk_pins (walk_of (snd (l_delete real_free offset (m, d))))) = purgatory (walk_pins (walk_of d))"
proof (cases "delete_at d = In_find")
  case True
  show ?thesis
  proof (cases "find_at (walk_of d)")
    case (Find_returned r)
    with assms True show ?thesis by (simp add: l_delete_in_find deletes_nothing_def)
  next
    case Find_fault
    with assms True show ?thesis by (simp add: l_delete_in_find deletes_nothing_def)
  qed (use assms True l_find_zero [of "walk_of d" m] in \<open>simp_all add: l_delete_in_find deletes_nothing_def\<close>)
next
  case False
  then have "delete_at d = Delete_returned 1 \<or> delete_at d = Delete_fault"
    using assms by (auto simp: deletes_nothing_def)
  then have "l_delete real_free offset (m, d) = (m, d)" using l_delete_ended by blast
  with assms show ?thesis by simp
qed

end
