(* ===== verification/Innodb_Mutex.thy ===== *)
theory Innodb_Mutex
  imports Transition_Systems
begin

text \<open>
  The mutex of InnoDB, \<open>Layer1/17-mysql.c\<close>: any number of threads that each enter and leave it
  once. All accesses are sequentially consistent atomics, so an interleaving of their steps is
  the program's meaning. \<open>os_rmb\<close> and \<open>signal\<close> are empty in the source; a call of \<open>signal\<close> is
  counted.
\<close>

section \<open>State and operations\<close>

abbreviation MUTEX_STATE_UNLOCKED :: c_int where "MUTEX_STATE_UNLOCKED \<equiv> 0"
abbreviation MUTEX_STATE_LOCKED :: c_int where "MUTEX_STATE_LOCKED \<equiv> 1"
abbreviation MUTEX_STATE_WAITERS :: c_int where "MUTEX_STATE_WAITERS \<equiv> 2"

text \<open>A program counter stands before each access to the lock word.\<close>

datatype mutex_pc = Enter | Inside | State_read | Store_unlocked | Exchange_unlocked | Left

record mutex =
  m_lock_word :: c_int
  mutex_pc :: "nat \<Rightarrow> mutex_pc"
  signals :: nat

definition try_lock :: "mutex \<Rightarrow> bool \<times> mutex" where
  "try_lock s =
     (if m_lock_word s = MUTEX_STATE_UNLOCKED then (True, s\<lparr>m_lock_word := MUTEX_STATE_LOCKED\<rparr>) else (False, s))"

definition TAS :: "c_int \<Rightarrow> mutex \<Rightarrow> c_int \<times> mutex" where
  "TAS new_val s = (m_lock_word s, s\<lparr>m_lock_word := new_val\<rparr>)"

definition unlock :: "mutex \<Rightarrow> c_int \<times> mutex" where
  "unlock s = TAS MUTEX_STATE_UNLOCKED s"

text \<open>The result of \<open>try_lock\<close> is tested, and both branches go on.\<close>

definition enter_mutex :: "mutex \<Rightarrow> mutex" where
  "enter_mutex s = (case try_lock s of (True, s1) \<Rightarrow> s1 | (False, s1) \<Rightarrow> s1)"

definition signal :: "mutex \<Rightarrow> mutex" where
  "signal s = s\<lparr>signals := signals s + 1\<rparr>"

definition jump :: "nat \<Rightarrow> mutex_pc \<Rightarrow> mutex \<Rightarrow> mutex" where
  "jump i p s = s\<lparr>mutex_pc := (mutex_pc s)(i := p)\<rparr>"

definition myExit :: "nat \<Rightarrow> mutex \<Rightarrow> mutex" where
  "myExit i s = (case mutex_pc s i of
     State_read \<Rightarrow>
       if m_lock_word s = MUTEX_STATE_WAITERS then jump i Store_unlocked s else jump i Exchange_unlocked s
   | Store_unlocked \<Rightarrow> jump i Left (signal (s\<lparr>m_lock_word := MUTEX_STATE_UNLOCKED\<rparr>))
   | Exchange_unlocked \<Rightarrow>
       (case unlock s of (old, s1) \<Rightarrow>
          if old = MUTEX_STATE_LOCKED then jump i Left s1 else jump i Left (signal s1))
   | _ \<Rightarrow> s)"

definition worker :: "nat \<Rightarrow> mutex \<Rightarrow> mutex" where
  "worker i s = (case mutex_pc s i of
     Enter \<Rightarrow> jump i Inside (enter_mutex s)
   | Inside \<Rightarrow> jump i State_read s
   | Left \<Rightarrow> s
   | _ \<Rightarrow> myExit i s)"

text \<open>\<open>main\<close> creates \<open>n\<close> threads (two in the source), which run in any order.\<close>

inductive mutex_step :: "nat \<Rightarrow> mutex \<Rightarrow> mutex \<Rightarrow> bool" for n where
  "i < n \<Longrightarrow> mutex_pc s i \<noteq> Left \<Longrightarrow> mutex_step n s (worker i s)"

definition mutex_init :: mutex where
  "mutex_init = \<lparr>m_lock_word = MUTEX_STATE_UNLOCKED, mutex_pc = (\<lambda>_. Enter), signals = 0\<rparr>"

section \<open>Invariant\<close>

text \<open>The word is 0 or 1, and 1 only while some thread has still to leave.\<close>

definition leaving :: "mutex_pc \<Rightarrow> bool" where
  "leaving p \<longleftrightarrow> p \<in> {Inside, State_read, Exchange_unlocked}"

definition mutex_ok :: "mutex \<Rightarrow> bool" where
  "mutex_ok s \<longleftrightarrow> m_lock_word s \<in> {MUTEX_STATE_UNLOCKED, MUTEX_STATE_LOCKED} \<and>
     (m_lock_word s = MUTEX_STATE_LOCKED \<longrightarrow> (\<exists>i. leaving (mutex_pc s i))) \<and>
     (\<forall>i. mutex_pc s i \<noteq> Store_unlocked)"

lemma jump_simps [simp]:
  "m_lock_word (jump i p s) = m_lock_word s" "mutex_pc (jump i p s) = (mutex_pc s)(i := p)"
  "signals (jump i p s) = signals s"
  by (simp_all add: jump_def)

lemmas mutex_defs = worker_def enter_mutex_def try_lock_def myExit_def unlock_def TAS_def signal_def

lemma mutex_ok_worker:
  assumes "mutex_ok s"
  shows "mutex_ok (worker i s)"
proof (cases "mutex_pc s i")
  case Enter
  then have "leaving (mutex_pc (worker i s) i)" by (simp add: worker_def leaving_def)
  then show ?thesis using assms Enter by (auto simp: mutex_ok_def mutex_defs)
next
  case Inside
  then have "leaving (mutex_pc (worker i s) i)" by (simp add: worker_def leaving_def)
  then show ?thesis using assms Inside by (auto simp: mutex_ok_def mutex_defs)
next
  case State_read
  have "m_lock_word s \<noteq> MUTEX_STATE_WAITERS" using assms by (auto simp: mutex_ok_def)
  with State_read have "worker i s = jump i Exchange_unlocked s" by (simp add: mutex_defs)
  moreover have "leaving Exchange_unlocked" by (simp add: leaving_def)
  ultimately show ?thesis using assms by (auto simp: mutex_ok_def intro: exI [of _ i])
next
  case Exchange_unlocked
  then show ?thesis using assms by (auto simp: mutex_ok_def mutex_defs)
next
  case Store_unlocked
  then show ?thesis using assms by (simp add: mutex_ok_def)
qed (use assms in \<open>simp add: worker_def\<close>)

lemma always_mutex_ok: "always (mutex_step n) mutex_init mutex_ok"
proof (rule always_invariant [of mutex_ok])
  show "mutex_ok mutex_init" by (simp add: mutex_ok_def mutex_init_def)
qed (auto elim: mutex_step.cases intro: mutex_ok_worker)

lemma worker_reach: "set is \<subseteq> {..<n} \<Longrightarrow> (mutex_step n)\<^sup>*\<^sup>* s (foldl (\<lambda>s i. worker i s) s is)"
proof (induction "is" arbitrary: s)
  case (Cons i "is")
  have "(mutex_step n)\<^sup>*\<^sup>* s (worker i s)"
    using Cons.prems mutex_step.intros [of i n s] by (cases "mutex_pc s i = Left") (auto simp: worker_def)
  with Cons show ?case by (auto intro: rtranclp_trans)
qed simp

section \<open>Properties\<close>

text \<open>
  In every reachable state of any number of threads the lock word is unlocked
  or locked, never \<open>MUTEX_STATE_WAITERS\<close>, so the branch of \<open>myExit\<close> for waiting threads is dead
  code; and when all threads have left, the mutex is free again.
\<close>

theorem innodb_word:
  "always (mutex_step n) mutex_init (\<lambda>c. m_lock_word c \<noteq> MUTEX_STATE_WAITERS \<and>
     (\<forall>i. mutex_pc c i \<noteq> Store_unlocked) \<and>
     ((\<forall>i. mutex_pc c i \<in> {Enter, Left}) \<longrightarrow> m_lock_word c = MUTEX_STATE_UNLOCKED))"
proof (rule always_mono [OF always_mutex_ok])
  fix c assume c: "mutex_ok c"
  have "\<not> leaving (mutex_pc c i)" if "\<forall>i. mutex_pc c i \<in> {Enter, Left}" for i
    using that by (auto simp: leaving_def dest: spec [of _ i])
  with c show "m_lock_word c \<noteq> MUTEX_STATE_WAITERS \<and> (\<forall>i. mutex_pc c i \<noteq> Store_unlocked) \<and>
     ((\<forall>i. mutex_pc c i \<in> {Enter, Left}) \<longrightarrow> m_lock_word c = MUTEX_STATE_UNLOCKED)"
    by (auto simp: mutex_ok_def)
qed

theorem innodb_word_witness:
  "\<exists>c. (mutex_step 1)\<^sup>*\<^sup>* mutex_init c \<and> (\<forall>i. mutex_pc c i \<in> {Enter, Left}) \<and> mutex_pc c 0 = Left \<and>
     m_lock_word c = MUTEX_STATE_UNLOCKED"
proof -
  let ?c = "foldl (\<lambda>s i. worker i s) mutex_init [0, 0, 0, 0]"
  have r: "(mutex_step 1)\<^sup>*\<^sup>* mutex_init ?c" by (rule worker_reach) simp
  have p: "mutex_pc ?c = (\<lambda>_. Enter)(0 := Left)"
    by (simp add: mutex_defs mutex_init_def fun_eq_iff)
  from alwaysD [OF innodb_word r] have "m_lock_word ?c = MUTEX_STATE_UNLOCKED"
    unfolding p by simp
  with r p show ?thesis by (intro exI [of _ ?c]) simp
qed

text \<open>
  C32. It is not a mutex: \<open>enter\<close> goes on although \<open>try_lock\<close> has failed, so
  under sequential consistency two threads can be inside together. The first to leave then
  frees the word that the second one holds, and the second finds it free and signals.
\<close>

theorem innodb_no_mutex:
  "\<exists>c d. (mutex_step 2)\<^sup>*\<^sup>* mutex_init c \<and> mutex_pc c 0 = Inside \<and> mutex_pc c 1 = Inside \<and>
     (mutex_step 2)\<^sup>*\<^sup>* c d \<and> mutex_pc d 1 = Inside \<and> m_lock_word d = MUTEX_STATE_UNLOCKED"
proof -
  let ?c = "foldl (\<lambda>s i. worker i s) mutex_init [0, 1]"
  let ?d = "foldl (\<lambda>s i. worker i s) ?c [0, 0, 0]"
  have "(mutex_step 2)\<^sup>*\<^sup>* mutex_init ?c" "(mutex_step 2)\<^sup>*\<^sup>* ?c ?d" by (rule worker_reach; simp)+
  moreover have "mutex_pc ?c 0 = Inside \<and> mutex_pc ?c 1 = Inside \<and> mutex_pc ?d 1 = Inside \<and>
      m_lock_word ?d = MUTEX_STATE_UNLOCKED"
    by (simp add: mutex_defs mutex_init_def)
  ultimately show ?thesis by blast
qed

end
