(* ===== verification/Ring_Buffer.thy ===== *)
theory Ring_Buffer
  imports Transition_Systems
begin

text \<open>
  The receive ring of IncludeOS, \<open>Layer1/16-includeos.c\<close>: a producer that fills two
  descriptors and a consumer that refills what has been produced, as an interleaving of their
  accesses under sequential consistency. Counters are integers; the invariant keeps them
  between 0 and 2, so the C arithmetic on them does not overflow.
\<close>

section \<open>State\<close>

abbreviation VMXNET3_NUM_RX_DESC :: int where "VMXNET3_NUM_RX_DESC \<equiv> 512"
abbreviation VMXNET3_RX_FILL :: int where "VMXNET3_RX_FILL \<equiv> 2"
abbreviation MAX_PACKET_LEN :: int where "MAX_PACKET_LEN \<equiv> 1500"

record descriptor =
  address :: int
  length_of :: int

text \<open>Where the threads stand: before the test, the two field writes, and the read and write of the increment.\<close>

datatype producer_pc = P_test | P_address int | P_length int | P_read | P_write int | P_done
datatype consumer_pc = C_test | C_address | C_length | C_read | C_write int | C_done

record ring =
  descriptors :: "int \<Rightarrow> descriptor"
  product_count :: int
  consumed_count :: int
  producer :: producer_pc
  consumer :: consumer_pc

section \<open>The threads\<close>

definition set_address :: "int \<Rightarrow> int \<Rightarrow> ring \<Rightarrow> ring" where
  "set_address k a s = s\<lparr>descriptors := (descriptors s)(k := (descriptors s k)\<lparr>address := a\<rparr>)\<rparr>"

definition set_length :: "int \<Rightarrow> int \<Rightarrow> ring \<Rightarrow> ring" where
  "set_length k n s = s\<lparr>descriptors := (descriptors s)(k := (descriptors s k)\<lparr>length_of := n\<rparr>)\<rparr>"

definition receive_handler :: "ring \<Rightarrow> ring" where
  "receive_handler s = (case producer s of
     P_test \<Rightarrow> s\<lparr>producer := if product_count s < VMXNET3_RX_FILL then P_address (product_count s) else P_done\<rparr>
   | P_address idx \<Rightarrow> (set_address (idx mod VMXNET3_NUM_RX_DESC) 1111 s)\<lparr>producer := P_length idx\<rparr>
   | P_length idx \<Rightarrow> (set_length (idx mod VMXNET3_NUM_RX_DESC) MAX_PACKET_LEN s)\<lparr>producer := P_read\<rparr>
   | P_read \<Rightarrow> s\<lparr>producer := P_write (product_count s)\<rparr>
   | P_write v \<Rightarrow> s\<lparr>product_count := v + 1, producer := P_test\<rparr>
   | P_done \<Rightarrow> s)"

definition refill :: "ring \<Rightarrow> ring" where
  "refill s = (case consumer s of
     C_test \<Rightarrow> s\<lparr>consumer := if consumed_count s < product_count s then C_address else C_done\<rparr>
   | C_address \<Rightarrow> (set_address (consumed_count s mod VMXNET3_NUM_RX_DESC) 1111 s)\<lparr>consumer := C_length\<rparr>
   | C_length \<Rightarrow> (set_length (consumed_count s mod VMXNET3_NUM_RX_DESC) MAX_PACKET_LEN s)\<lparr>consumer := C_read\<rparr>
   | C_read \<Rightarrow> s\<lparr>consumer := C_write (consumed_count s)\<rparr>
   | C_write v \<Rightarrow> s\<lparr>consumed_count := v + 1, consumer := C_test\<rparr>
   | C_done \<Rightarrow> s)"

inductive ring_step :: "ring \<Rightarrow> ring \<Rightarrow> bool" where
  produce: "producer s \<noteq> P_done \<Longrightarrow> ring_step s (receive_handler s)"
| consume: "consumer s \<noteq> C_done \<Longrightarrow> ring_step s (refill s)"

definition ring_init :: ring where
  "ring_init = \<lparr>descriptors = (\<lambda>_. \<lparr>address = 0, length_of = 0\<rparr>), product_count = 0, consumed_count = 0,
     producer = P_test, consumer = C_test\<rparr>"

section \<open>Invariant\<close>

definition full :: descriptor where
  "full = \<lparr>address = 1111, length_of = MAX_PACKET_LEN\<rparr>"

definition producer_ok :: "producer_pc \<Rightarrow> int \<Rightarrow> descriptor \<Rightarrow> bool" where
  "producer_ok p n d = (case p of
     P_test \<Rightarrow> True
   | P_address idx \<Rightarrow> idx = n \<and> n < 2
   | P_length idx \<Rightarrow> idx = n \<and> n < 2 \<and> address d = 1111
   | P_read \<Rightarrow> n < 2 \<and> d = full
   | P_write v \<Rightarrow> v = n \<and> n < 2 \<and> d = full
   | P_done \<Rightarrow> n = 2)"

definition consumer_ok :: "consumer_pc \<Rightarrow> int \<Rightarrow> int \<Rightarrow> bool" where
  "consumer_ok p c n = (case p of
     C_test \<Rightarrow> True | C_done \<Rightarrow> True | C_write v \<Rightarrow> v = c \<and> c < n | _ \<Rightarrow> c < n)"

definition ring_ok :: "ring \<Rightarrow> bool" where
  "ring_ok s \<longleftrightarrow> 0 \<le> consumed_count s \<and> consumed_count s \<le> product_count s \<and> product_count s \<le> 2 \<and>
     (\<forall>k. 0 \<le> k \<longrightarrow> k < product_count s \<longrightarrow> descriptors s k = full) \<and>
     producer_ok (producer s) (product_count s) (descriptors s (product_count s)) \<and>
     consumer_ok (consumer s) (consumed_count s) (product_count s)"

lemma consumer_ok_Suc: "consumer_ok p c n \<Longrightarrow> consumer_ok p c (n + 1)"
  by (cases p) (auto simp: consumer_ok_def)

lemma set_same [simp]:
  "descriptors s k = full \<Longrightarrow> set_address k 1111 s = s" "descriptors s k = full \<Longrightarrow> set_length k MAX_PACKET_LEN s = s"
  by (simp_all add: set_address_def set_length_def full_def fun_upd_idem)

lemma ring_ok_produce:
  assumes "ring_ok s"
  shows "ring_ok (receive_handler s)"
proof (cases "producer s")
  case (P_write v)
  then have v: "v = product_count s" "product_count s < 2" "descriptors s (product_count s) = full"
    using assms by (simp_all add: ring_ok_def producer_ok_def)
  then have "\<forall>k. 0 \<le> k \<longrightarrow> k < product_count s + 1 \<longrightarrow> descriptors s k = full"
    using assms by (metis ring_ok_def zle_add1_eq_le order_le_less)
  with P_write v assms show ?thesis
    by (simp add: ring_ok_def receive_handler_def producer_ok_def consumer_ok_Suc)
next
  case (P_address idx)
  with assms show ?thesis
    by (simp add: ring_ok_def receive_handler_def producer_ok_def set_address_def)
next
  case (P_length idx)
  with assms show ?thesis
    by (simp add: ring_ok_def receive_handler_def producer_ok_def set_length_def full_def)
next
  case P_test
  with assms show ?thesis by (auto simp: ring_ok_def receive_handler_def producer_ok_def)
qed (use assms in \<open>auto simp: ring_ok_def receive_handler_def producer_ok_def\<close>)

lemma ring_ok_consume:
  assumes "ring_ok s"
  shows "ring_ok (refill s)"
proof -
  have d: "consumed_count s < product_count s \<Longrightarrow>
    descriptors s (consumed_count s) = full \<and> consumed_count s mod VMXNET3_NUM_RX_DESC = consumed_count s"
    using assms by (auto simp: ring_ok_def)
  show ?thesis
    by (cases "consumer s") (use assms d in \<open>auto simp: ring_ok_def refill_def consumer_ok_def\<close>)
qed

lemma always_ring_ok: "always ring_step ring_init ring_ok"
proof (rule always_invariant [of ring_ok])
  show "ring_ok ring_init" by (simp add: ring_ok_def ring_init_def producer_ok_def consumer_ok_def)
qed (auto elim: ring_step.cases intro: ring_ok_produce ring_ok_consume)

section \<open>Termination\<close>

definition producer_left :: "producer_pc \<Rightarrow> int \<Rightarrow> nat" where
  "producer_left p n = (case p of
     P_test \<Rightarrow> 5 * nat (2 - n) + 1 | P_address _ \<Rightarrow> 5 * nat (2 - n) | P_length _ \<Rightarrow> 5 * nat (2 - n) - 1
   | P_read \<Rightarrow> 5 * nat (2 - n) - 2 | P_write _ \<Rightarrow> 5 * nat (2 - n) - 3 | P_done \<Rightarrow> 0)"

definition consumer_left :: "consumer_pc \<Rightarrow> int \<Rightarrow> nat" where
  "consumer_left p n = (case p of
     C_test \<Rightarrow> 5 * nat (2 - n) + 1 | C_address \<Rightarrow> 5 * nat (2 - n) | C_length \<Rightarrow> 5 * nat (2 - n) - 1
   | C_read \<Rightarrow> 5 * nat (2 - n) - 2 | C_write _ \<Rightarrow> 5 * nat (2 - n) - 3 | C_done \<Rightarrow> 0)"

definition steps_left :: "ring \<Rightarrow> nat" where
  "steps_left s = producer_left (producer s) (product_count s) + consumer_left (consumer s) (consumed_count s)"

lemma ring_step_left:
  assumes "ring_ok s" "ring_step s s'"
  shows "steps_left s' < steps_left s"
  using assms(2)
proof cases
  case produce
  with assms(1) show ?thesis
    by (cases "producer s") (auto simp: ring_ok_def steps_left_def receive_handler_def producer_left_def
        producer_ok_def set_address_def set_length_def)
next
  case consume
  with assms(1) show ?thesis
    by (cases "consumer s") (auto simp: ring_ok_def steps_left_def refill_def consumer_left_def
        consumer_ok_def set_address_def set_length_def)
qed

lemma ring_steps_left:
  "(ring_step ^^ k) s s' \<Longrightarrow> ring_ok s \<Longrightarrow> k + steps_left s' \<le> steps_left s \<and> ring_ok s'"
proof (induction k arbitrary: s')
  case (Suc k)
  then obtain t where t: "(ring_step ^^ k) s t" "ring_step t s'" by (metis relpowp_Suc_E)
  with Suc have "k + steps_left t \<le> steps_left s" "ring_ok t" by blast+
  moreover have "ring_ok s'" using t(2) \<open>ring_ok t\<close>
    by (auto elim!: ring_step.cases intro: ring_ok_produce ring_ok_consume)
  ultimately show ?case using ring_step_left [OF \<open>ring_ok t\<close> t(2)] by simp
qed simp

section \<open>Properties\<close>

text \<open>
  C14. Under sequential consistency, in every interleaving the consumer never
  overtakes the producer, neither counter leaves the range 0 to 2, every descriptor below the
  product count is filled, and the index of each access is within the array. The order of the
  stores is what this rests on: the barrier before \<open>product_count++\<close> is commented out in the
  source, and on PSO the version of this program for GENMC does count a descriptor before it is
  filled, \<open>Genmc_Publication\<close>.
\<close>

theorem ring_invariant:
  "always ring_step ring_init (\<lambda>s. 0 \<le> consumed_count s \<and> consumed_count s \<le> product_count s \<and>
     product_count s \<le> VMXNET3_RX_FILL \<and>
     (\<forall>k\<in>{0..<product_count s}. descriptors s k = full) \<and>
     consumed_count s mod VMXNET3_NUM_RX_DESC = consumed_count s)"
  by (rule always_mono [OF always_ring_ok]) (auto simp: ring_ok_def)

definition run_ring :: "bool list \<Rightarrow> ring \<Rightarrow> ring" where
  "run_ring bs s = foldl (\<lambda>s b. if b then receive_handler s else refill s) s bs"

lemma receive_handler_reach: "ring_step\<^sup>*\<^sup>* s (receive_handler s)"
proof (cases "producer s = P_done")
  case True
  then have "receive_handler s = s" by (simp add: receive_handler_def)
  then show ?thesis by simp
next
  case False
  then show ?thesis by (intro r_into_rtranclp produce)
qed

lemma refill_reach: "ring_step\<^sup>*\<^sup>* s (refill s)"
proof (cases "consumer s = C_done")
  case True
  then have "refill s = s" by (simp add: refill_def)
  then show ?thesis by simp
next
  case False
  then show ?thesis by (intro r_into_rtranclp consume)
qed

lemma run_ring_reach: "ring_step\<^sup>*\<^sup>* s (run_ring bs s)"
proof (induction bs arbitrary: s)
  case (Cons b bs)
  have "ring_step\<^sup>*\<^sup>* s (if b then receive_handler s else refill s)"
    by (simp add: receive_handler_reach refill_reach)
  also have "ring_step\<^sup>*\<^sup>* \<dots> (run_ring (b # bs) s)"
    using Cons.IH [of "if b then receive_handler s else refill s"] by (simp add: run_ring_def)
  finally show ?case .
qed (simp add: run_ring_def)

definition producer_first :: ring where
  "producer_first = run_ring (replicate 11 True) ring_init"

lemma producer_first_state: "product_count producer_first = 2 \<and> producer producer_first = P_done"
  by (simp add: producer_first_def run_ring_def ring_init_def receive_handler_def set_address_def set_length_def
      numeral_eq_Suc)

theorem ring_invariant_witness:
  "ring_step\<^sup>*\<^sup>* ring_init producer_first \<and>
   descriptors producer_first 0 = full \<and> descriptors producer_first 1 = full"
proof -
  have r: "ring_step\<^sup>*\<^sup>* ring_init producer_first" unfolding producer_first_def by (rule run_ring_reach)
  from alwaysD [OF ring_invariant r] producer_first_state
  have "\<forall>k\<in>{0..<2}. descriptors producer_first k = full" by simp
  with r show ?thesis by simp
qed

text \<open>
  Every execution ends after at most 22 steps, with both packets produced
  once the producer has ended.
\<close>

theorem ring_terminates:
  assumes "(ring_step ^^ k) ring_init s"
  shows "k \<le> 22 \<and> (producer s = P_done \<longrightarrow> product_count s = 2)"
proof -
  have "ring_ok ring_init" by (simp add: ring_ok_def ring_init_def producer_ok_def consumer_ok_def)
  from ring_steps_left [OF assms this] show ?thesis
    by (auto simp: ring_ok_def producer_ok_def steps_left_def ring_init_def producer_left_def consumer_left_def)
qed

theorem ring_terminates_witness:
  "\<exists>k. (ring_step ^^ k) ring_init producer_first \<and> k \<le> 22 \<and> product_count producer_first = 2"
proof -
  have "ring_step\<^sup>*\<^sup>* ring_init producer_first" unfolding producer_first_def by (rule run_ring_reach)
  then obtain k where k: "(ring_step ^^ k) ring_init producer_first" by (metis rtranclp_imp_relpowp)
  from ring_terminates [OF k] producer_first_state k show ?thesis by auto
qed

text \<open>
  The consumer may find the ring empty and end before anything is produced:
  both packets are then produced and none is consumed.
\<close>

theorem ring_missed:
  "\<exists>s. ring_step\<^sup>*\<^sup>* ring_init s \<and> producer s = P_done \<and> consumer s = C_done \<and>
     product_count s = 2 \<and> consumed_count s = 0"
proof -
  let ?s = "run_ring (False # replicate 11 True) ring_init"
  have "producer ?s = P_done \<and> consumer ?s = C_done \<and> product_count ?s = 2 \<and> consumed_count ?s = 0"
    by (simp add: run_ring_def ring_init_def receive_handler_def refill_def set_address_def set_length_def
        numeral_eq_Suc)
  with run_ring_reach show ?thesis by blast
qed

end
