(* ===== verification/Opal_Lifo.thy ===== *)
theory Opal_Lifo
  imports Transition_Systems
begin

text \<open>
  The lock-free stack of Open MPI, \<open>Layer1/15-openmpi.c\<close>, under sequential consistency. The
  pointer \<open>item\<close> is a global object that both operations read again for each use, so a step is
  one access to it, to the head or to a field of a node. A null pointer is \<open>None\<close>, and following
  it is a fault. The weak compare-and-swap of the pop may fail spuriously.
\<close>

section \<open>State\<close>

datatype opal_node = Ghost | Node nat

type_synonym opal_ptr = "opal_node option"

datatype push_pc =
  Push_item | Push_mark opal_ptr
| Push_head | Push_item_next opal_ptr | Push_link opal_ptr opal_ptr | Push_item_cas opal_ptr | Push_cas opal_ptr opal_ptr
| Push_item_free | Push_free opal_ptr | Push_returned

datatype pop_pc =
  Pop_head | Pop_set opal_ptr
| Pop_item_test | Pop_test opal_ptr | Pop_item_next | Pop_next opal_ptr | Pop_cas opal_ptr
| Pop_item_free | Pop_free opal_ptr | Pop_returned

record opal =
  head_item :: opal_ptr
  list_next :: "opal_node \<Rightarrow> opal_ptr"
  item_free :: "opal_node \<Rightarrow> c_int"
  item :: opal_ptr
  push_at :: push_pc
  pop_at :: pop_pc
  faulted :: bool
  threads :: nat

definition follow :: "opal_ptr \<Rightarrow> (opal_node \<Rightarrow> opal) \<Rightarrow> opal \<Rightarrow> opal" where
  "follow p f s = (case p of None \<Rightarrow> s\<lparr>faulted := True\<rparr> | Some n \<Rightarrow> f n)"

section \<open>Operations\<close>

definition opal_lifo_push_atomic :: "opal \<Rightarrow> opal" where
  "opal_lifo_push_atomic s = (case push_at s of
     Push_item \<Rightarrow> s\<lparr>push_at := Push_mark (item s)\<rparr>
   | Push_mark p \<Rightarrow> follow p (\<lambda>n. s\<lparr>item_free := (item_free s)(n := 1), push_at := Push_head\<rparr>) s
   | Push_head \<Rightarrow> s\<lparr>push_at := Push_item_next (head_item s)\<rparr>
   | Push_item_next next \<Rightarrow> s\<lparr>push_at := Push_link next (item s)\<rparr>
   | Push_link next p \<Rightarrow>
       follow p (\<lambda>n. s\<lparr>list_next := (list_next s)(n := next), push_at := Push_item_cas next\<rparr>) s
   | Push_item_cas next \<Rightarrow> s\<lparr>push_at := Push_cas next (item s)\<rparr>
   | Push_cas next p \<Rightarrow>
       if head_item s = next then s\<lparr>head_item := p, push_at := Push_item_free\<rparr> else s\<lparr>push_at := Push_head\<rparr>
   | Push_item_free \<Rightarrow> s\<lparr>push_at := Push_free (item s)\<rparr>
   | Push_free p \<Rightarrow> follow p (\<lambda>n. s\<lparr>item_free := (item_free s)(n := 0), push_at := Push_returned\<rparr>) s
   | Push_returned \<Rightarrow> s)"

definition opal_lifo_pop_atomic :: "bool \<Rightarrow> opal \<Rightarrow> opal" where
  "opal_lifo_pop_atomic spurious s = (case pop_at s of
     Pop_head \<Rightarrow> s\<lparr>pop_at := Pop_set (head_item s)\<rparr>
   | Pop_set h \<Rightarrow> s\<lparr>item := h, pop_at := (if h \<noteq> Some Ghost then Pop_item_test else Pop_returned)\<rparr>
   | Pop_item_test \<Rightarrow> s\<lparr>pop_at := Pop_test (item s)\<rparr>
   | Pop_test p \<Rightarrow> follow p (\<lambda>n. s\<lparr>pop_at := (if item_free s n = 1 then Pop_head else Pop_item_next)\<rparr>) s
   | Pop_item_next \<Rightarrow> s\<lparr>pop_at := Pop_next (item s)\<rparr>
   | Pop_next p \<Rightarrow> follow p (\<lambda>n. s\<lparr>pop_at := Pop_cas (list_next s n)\<rparr>) s
   | Pop_cas next \<Rightarrow>
       if head_item s = item s \<and> \<not> spurious then s\<lparr>head_item := next, pop_at := Pop_returned\<rparr>
       else s\<lparr>item := head_item s, pop_at := Pop_item_free\<rparr>
   | Pop_item_free \<Rightarrow> s\<lparr>pop_at := Pop_free (item s)\<rparr>
   | Pop_free p \<Rightarrow> follow p (\<lambda>n. s\<lparr>item_free := (item_free s)(n := 0), pop_at := Pop_head\<rparr>) s
   | Pop_returned \<Rightarrow> s)"

text \<open>
  \<open>opal_lifo_init\<close> does not check what \<open>malloc\<close> returns: its argument \<open>m\<close> is that result, null
  or the address of a node, called node 0, whose fields are arbitrary. Each thread makes one
  call, and \<open>main\<close> creates the pushing thread first; its sleep orders nothing.
\<close>

definition opal_lifo_init :: "opal_ptr \<Rightarrow> opal \<Rightarrow> opal" where
  "opal_lifo_init m s = s\<lparr>item_free := (item_free s)(Ghost := 0), list_next := (list_next s)(Ghost := None),
     item := m, head_item := Some Ghost\<rparr>"

definition main_opal :: "opal_ptr \<Rightarrow> opal \<Rightarrow> opal" where
  "main_opal m s =
     (opal_lifo_init m s)\<lparr>push_at := Push_item, pop_at := Pop_head, faulted := False, threads := 0\<rparr>"

inductive opal_step :: "opal \<Rightarrow> opal \<Rightarrow> bool" where
  create_thread: "threads s < 2 \<Longrightarrow> opal_step s (s\<lparr>threads := threads s + 1\<rparr>)"
| push_thread_func: "1 \<le> threads s \<Longrightarrow> \<not> faulted s \<Longrightarrow> opal_step s (opal_lifo_push_atomic s)"
| pop_thread_func: "threads s = 2 \<Longrightarrow> \<not> faulted s \<Longrightarrow> opal_step s (opal_lifo_pop_atomic spurious s)"

section \<open>The operations on a stack\<close>

text \<open>
  What the list represents: the nodes from the head to the ghost, all of them free to be taken.
  The specification is a stack.
\<close>

fun chain :: "(opal_node \<Rightarrow> opal_ptr) \<Rightarrow> opal_ptr \<Rightarrow> nat list \<Rightarrow> bool" where
  "chain nx p [] \<longleftrightarrow> p = Some Ghost"
| "chain nx p (a # xs) \<longleftrightarrow> p = Some (Node a) \<and> chain nx (nx (Node a)) xs"

definition lifo :: "opal \<Rightarrow> nat list \<Rightarrow> bool" where
  "lifo s xs \<longleftrightarrow> chain (list_next s) (head_item s) xs \<and> distinct xs \<and> (\<forall>a\<in>set xs. item_free s (Node a) = 0)"

lemma chain_other: "a \<notin> set xs \<Longrightarrow> chain (nx(Node a := q)) p xs \<longleftrightarrow> chain nx p xs"
  by (induction xs arbitrary: p) auto

definition push_alone :: "opal \<Rightarrow> opal" where
  "push_alone s = (opal_lifo_push_atomic ^^ 9) s"

text \<open>The pop by itself, its compare-and-swap failing spuriously \<open>k\<close> times.\<close>

definition pop_alone :: "nat \<Rightarrow> opal \<Rightarrow> opal" where
  "pop_alone k s = (opal_lifo_pop_atomic False ^^ 7) (((opal_lifo_pop_atomic True ^^ 9) ^^ k) s)"

lemma push_alone_state:
  assumes "push_at s = Push_item" "item s = Some (Node a)"
  shows "push_alone s = s\<lparr>item_free := (item_free s)(Node a := 0), list_next := (list_next s)(Node a := head_item s),
    head_item := Some (Node a), push_at := Push_returned\<rparr>"
  using assms by (cases s) (simp add: push_alone_def opal_lifo_push_atomic_def follow_def numeral_eq_Suc)

lemma push_alone_lifo:
  assumes "push_at s = Push_item" "item s = Some (Node a)" "lifo s xs" "a \<notin> set xs"
  shows "lifo (push_alone s) (a # xs)"
  using assms by (auto simp: push_alone_state lifo_def chain_other)

lemma pop_returned: "pop_at s = Pop_returned \<Longrightarrow> (opal_lifo_pop_atomic b ^^ n) s = s"
  by (induction n) (simp_all add: opal_lifo_pop_atomic_def)

lemma pop_empty:
  assumes "pop_at s = Pop_head" "head_item s = Some Ghost"
  shows "(opal_lifo_pop_atomic b ^^ (n + 2)) s = s\<lparr>item := Some Ghost, pop_at := Pop_returned\<rparr>"
proof -
  have "(opal_lifo_pop_atomic b ^^ 2) s = s\<lparr>item := Some Ghost, pop_at := Pop_returned\<rparr>"
    using assms by (simp add: opal_lifo_pop_atomic_def numeral_2_eq_2)
  then show ?thesis by (simp only: funpow_add o_apply) (simp add: pop_returned)
qed

lemma pop_fails:
  assumes "pop_at s = Pop_head" "head_item s = Some (Node a)" "item_free s (Node a) = 0"
  shows "(opal_lifo_pop_atomic True ^^ 9) s = s\<lparr>item := Some (Node a)\<rparr>"
  using assms by (cases s) (simp add: opal_lifo_pop_atomic_def follow_def numeral_eq_Suc fun_upd_idem)

lemma pop_takes:
  assumes "pop_at s = Pop_head" "head_item s = Some (Node a)" "item_free s (Node a) = 0"
  shows "(opal_lifo_pop_atomic False ^^ 7) s =
    s\<lparr>item := Some (Node a), head_item := list_next s (Node a), pop_at := Pop_returned\<rparr>"
  using assms by (cases s) (simp add: opal_lifo_pop_atomic_def follow_def numeral_eq_Suc)

lemma pop_alone_state:
  assumes "pop_at s = Pop_head" "head_item s = Some (Node a)" "item_free s (Node a) = 0"
  shows "pop_alone k s = s\<lparr>item := Some (Node a), head_item := list_next s (Node a), pop_at := Pop_returned\<rparr>"
proof -
  have "((opal_lifo_pop_atomic True ^^ 9) ^^ k) s = s\<lparr>item := if k = 0 then item s else Some (Node a)\<rparr>"
  proof (induction k)
    case (Suc k)
    then show ?case using pop_fails [of "s\<lparr>item := if k = 0 then item s else Some (Node a)\<rparr>"] assms by simp
  qed simp
  with pop_takes [of "s\<lparr>item := if k = 0 then item s else Some (Node a)\<rparr>"] assms show ?thesis
    by (simp add: pop_alone_def)
qed

lemma pop_alone_empty:
  assumes "pop_at s = Pop_head" "head_item s = Some Ghost"
  shows "pop_alone k s = s\<lparr>item := Some Ghost, pop_at := Pop_returned\<rparr>"
proof (cases k)
  case 0
  with pop_empty [OF assms, where b = False and n = 5] show ?thesis by (simp add: pop_alone_def)
next
  case (Suc j)
  have "((opal_lifo_pop_atomic True ^^ 9) ^^ Suc j) s = (opal_lifo_pop_atomic True ^^ (9 + 9 * j)) s"
    by (simp only: funpow_mult mult_Suc_right)
  also have "\<dots> = s\<lparr>item := Some Ghost, pop_at := Pop_returned\<rparr>"
    using pop_empty [OF assms, where b = True and n = "9 * j + 7"] by (simp add: add.commute)
  finally show ?thesis using Suc by (simp add: pop_alone_def pop_returned)
qed

section \<open>Memory safety\<close>

text \<open>
  With the threads of \<open>main\<close> only node 0 and the ghost are ever reached. The head is the ghost
  until the push has exchanged it; if it is then the node, the node's next is the ghost. The pop
  goes beyond its test only while the head and the item are the node.
\<close>

abbreviation ghost :: opal_ptr where "ghost \<equiv> Some Ghost"
abbreviation node :: opal_ptr where "node \<equiv> Some (Node 0)"

fun before_cas :: "push_pc \<Rightarrow> bool" where
  "before_cas Push_item_free = False" | "before_cas (Push_free p) = False" | "before_cas Push_returned = False"
| "before_cas _ = True"

definition linked_node :: "opal \<Rightarrow> bool" where
  "linked_node s \<longleftrightarrow> list_next s (Node 0) = ghost"

definition push_ok :: "opal \<Rightarrow> bool" where
  "push_ok s \<longleftrightarrow> (before_cas (push_at s) \<longrightarrow> head_item s = ghost) \<and> (case push_at s of
     Push_mark p \<Rightarrow> p \<in> {ghost, node}
   | Push_item_next n \<Rightarrow> n = ghost
   | Push_link n p \<Rightarrow> n = ghost \<and> p \<in> {ghost, node} \<and> (item s = node \<longrightarrow> p = node)
   | Push_item_cas n \<Rightarrow> n = ghost \<and> (item s = node \<longrightarrow> linked_node s)
   | Push_cas n p \<Rightarrow> n = ghost \<and> p \<in> {ghost, node} \<and> (p = node \<longrightarrow> linked_node s)
   | Push_free p \<Rightarrow> p \<in> {ghost, node}
   | _ \<Rightarrow> True)"

definition pop_ok :: "opal \<Rightarrow> bool" where
  "pop_ok s \<longleftrightarrow> (case pop_at s of
     Pop_head \<Rightarrow> True
   | Pop_set h \<Rightarrow> h = ghost \<or> h = node \<and> head_item s = node
   | Pop_test p \<Rightarrow> p = node \<and> item s = node \<and> head_item s = node
   | Pop_next p \<Rightarrow> p = node \<and> item s = node \<and> head_item s = node
   | Pop_free p \<Rightarrow> p = node \<and> item s = node \<and> head_item s = node
   | Pop_cas n \<Rightarrow> n = ghost \<and> item s = node \<and> head_item s = node
   | Pop_returned \<Rightarrow> True
   | _ \<Rightarrow> item s = node \<and> head_item s = node)"

definition opal_ok :: "opal \<Rightarrow> bool" where
  "opal_ok s \<longleftrightarrow> item s \<in> {ghost, node} \<and> (head_item s = ghost \<or> head_item s = node \<and> linked_node s) \<and>
     push_ok s \<and> pop_ok s \<and> \<not> faulted s"

lemma push_ok_mono:
  assumes "push_ok s" "push_at s' = push_at s" "linked_node s' = linked_node s"
    "before_cas (push_at s) \<Longrightarrow> head_item s' = head_item s \<and> (item s' = node \<longrightarrow> item s = node)"
  shows "push_ok s'"
  using assms by (cases "push_at s") (simp_all add: push_ok_def)

lemma pop_ok_mono:
  assumes "pop_ok s" "pop_at s' = pop_at s" "item s' = item s" "head_item s = node \<Longrightarrow> head_item s' = node"
  shows "pop_ok s'"
  using assms by (cases "pop_at s") (auto simp: pop_ok_def)

lemma push_step_ok:
  assumes "push_ok s" "item s \<in> {ghost, node}" "\<not> faulted s"
  shows "push_ok (opal_lifo_push_atomic s) \<and> \<not> faulted (opal_lifo_push_atomic s)"
  using assms
  by (cases "push_at s") (auto simp: push_ok_def linked_node_def opal_lifo_push_atomic_def follow_def)

lemma push_frame:
  "pop_at (opal_lifo_push_atomic s) = pop_at s" "item (opal_lifo_push_atomic s) = item s"
  by (cases "push_at s"; simp add: opal_lifo_push_atomic_def follow_def split: option.split)+

lemma push_head:
  assumes "push_ok s" "head_item s = ghost \<or> head_item s = node \<and> linked_node s"
  shows "(head_item (opal_lifo_push_atomic s) = ghost \<or>
      head_item (opal_lifo_push_atomic s) = node \<and> linked_node (opal_lifo_push_atomic s)) \<and>
    (head_item s = node \<longrightarrow> head_item (opal_lifo_push_atomic s) = node)"
  using assms
  by (cases "push_at s") (auto simp: push_ok_def linked_node_def opal_lifo_push_atomic_def follow_def)

lemma opal_okD:
  assumes "opal_ok s"
  shows "item s \<in> {ghost, node}" "head_item s = ghost \<or> head_item s = node \<and> linked_node s" "push_ok s" "pop_ok s"
    "\<not> faulted s"
  using assms by (simp_all add: opal_ok_def)

lemma opal_okI:
  assumes "item s \<in> {ghost, node}" "head_item s = ghost \<or> head_item s = node \<and> linked_node s" "push_ok s" "pop_ok s"
    "\<not> faulted s"
  shows "opal_ok s"
  using assms unfolding opal_ok_def by blast

lemma push_keeps:
  assumes "opal_ok s"
  shows "opal_ok (opal_lifo_push_atomic s)"
proof -
  note o = opal_okD [OF assms]
  note h = push_head [OF o(3) o(2)] and p = push_step_ok [OF o(3) o(1) o(5)]
  have "pop_ok (opal_lifo_push_atomic s)"
    by (rule pop_ok_mono [OF o(4) push_frame]) (use h in blast)
  with o(1) h p show ?thesis by (intro opal_okI) (simp_all only: push_frame not_False_eq_True)
qed

lemma pop_step_ok:
  assumes "pop_ok s" "head_item s = ghost \<or> head_item s = node \<and> linked_node s" "\<not> faulted s"
  shows "pop_ok (opal_lifo_pop_atomic b s) \<and> \<not> faulted (opal_lifo_pop_atomic b s)"
  using assms
  by (cases "pop_at s") (auto simp: pop_ok_def linked_node_def opal_lifo_pop_atomic_def follow_def)

lemma pop_frame:
  "push_at (opal_lifo_pop_atomic b s) = push_at s" "linked_node (opal_lifo_pop_atomic b s) = linked_node s"
  by (cases "pop_at s"; simp add: opal_lifo_pop_atomic_def linked_node_def follow_def split: option.split)+

lemma pop_head:
  assumes "pop_ok s" "head_item s = ghost \<or> head_item s = node \<and> linked_node s"
  shows "(head_item (opal_lifo_pop_atomic b s) = head_item s \<or>
      head_item s = node \<and> head_item (opal_lifo_pop_atomic b s) = ghost) \<and>
    (item (opal_lifo_pop_atomic b s) = item s \<or> item (opal_lifo_pop_atomic b s) = ghost \<or>
      item (opal_lifo_pop_atomic b s) = node \<and> head_item s = node)"
  using assms
  by (cases "pop_at s") (auto simp: pop_ok_def opal_lifo_pop_atomic_def follow_def)

lemma pop_keeps:
  assumes "opal_ok s"
  shows "opal_ok (opal_lifo_pop_atomic b s)"
proof -
  note o = opal_okD [OF assms]
  note h = pop_head [OF o(4) o(2), of b] and p = pop_step_ok [OF o(4) o(2) o(5), of b]
  have "push_ok (opal_lifo_pop_atomic b s)"
  proof (rule push_ok_mono [OF o(3) pop_frame])
    assume "before_cas (push_at s)"
    then have "head_item s = ghost" using o(3) by (simp only: push_ok_def)
    then have "head_item s \<noteq> node" by simp
    with h \<open>head_item s = ghost\<close> show "head_item (opal_lifo_pop_atomic b s) = head_item s \<and>
        (item (opal_lifo_pop_atomic b s) = node \<longrightarrow> item s = node)" by (metis option.inject opal_node.distinct(1))
  qed
  moreover have "head_item (opal_lifo_pop_atomic b s) = ghost \<or>
      head_item (opal_lifo_pop_atomic b s) = node \<and> linked_node s"
    using h o(2) by metis
  moreover have "item (opal_lifo_pop_atomic b s) \<in> {ghost, node}" using h o(1) by (metis insertCI)
  ultimately show ?thesis using p by (intro opal_okI) (simp_all only: pop_frame not_False_eq_True)
qed

lemma threads_keeps:
  assumes "opal_ok s"
  shows "opal_ok (s\<lparr>threads := n\<rparr>)"
proof -
  have "push_ok (s\<lparr>threads := n\<rparr>)" "pop_ok (s\<lparr>threads := n\<rparr>)"
    using assms by (auto simp: opal_ok_def linked_node_def intro: push_ok_mono [of s] pop_ok_mono [of s])
  then show ?thesis using assms by (simp add: opal_ok_def linked_node_def)
qed

lemma opal_ok_step: "opal_step s s' \<Longrightarrow> opal_ok s \<Longrightarrow> opal_ok s'"
  by (erule opal_step.cases) (simp_all only: threads_keeps push_keeps pop_keeps)

lemma always_opal_ok: "always opal_step (main_opal node s) opal_ok"
proof (rule always_invariant)
  show "opal_ok (main_opal node s)"
    by (simp add: opal_ok_def main_opal_def opal_lifo_init_def push_ok_def pop_ok_def)
qed (auto intro: opal_ok_step)

text \<open>
  Without memory for the node the list stays empty and \<open>item\<close> is null until the pop has set it
  to the ghost. The push follows a null pointer if it reads \<open>item\<close> before that.
\<close>

definition null_push_ok :: "opal \<Rightarrow> bool" where
  "null_push_ok s \<longleftrightarrow> (case push_at s of
     Push_item \<Rightarrow> True
   | Push_mark p \<Rightarrow> p = None \<or> p = ghost \<and> item s = ghost
   | Push_item_next n \<Rightarrow> n = ghost \<and> item s = ghost
   | Push_link n p \<Rightarrow> n = ghost \<and> p = ghost \<and> item s = ghost
   | Push_item_cas n \<Rightarrow> n = ghost \<and> item s = ghost
   | Push_cas n p \<Rightarrow> n = ghost \<and> p = ghost \<and> item s = ghost
   | Push_free p \<Rightarrow> p = ghost \<and> item s = ghost
   | _ \<Rightarrow> item s = ghost)"

definition null_ok :: "opal \<Rightarrow> bool" where
  "null_ok s \<longleftrightarrow> head_item s = ghost \<and> item s \<in> {None, ghost} \<and> null_push_ok s \<and>
     pop_at s \<in> {Pop_head, Pop_set ghost, Pop_returned} \<and> (faulted s \<longrightarrow> push_at s = Push_mark None)"

lemma null_push: "null_ok s \<Longrightarrow> \<not> faulted s \<Longrightarrow> null_ok (opal_lifo_push_atomic s)"
  by (cases "push_at s") (auto simp: null_ok_def null_push_ok_def opal_lifo_push_atomic_def follow_def)

lemma null_pop: "null_ok s \<Longrightarrow> \<not> faulted s \<Longrightarrow> null_ok (opal_lifo_pop_atomic b s)"
  by (cases "push_at s") (auto simp: null_ok_def null_push_ok_def opal_lifo_pop_atomic_def)

lemma null_threads: "null_ok s \<Longrightarrow> null_ok (s\<lparr>threads := n\<rparr>)"
  by (cases "push_at s") (auto simp: null_ok_def null_push_ok_def)

lemma always_null_ok: "always opal_step (main_opal None s) null_ok"
proof (rule always_invariant)
  show "null_ok (main_opal None s)"
    by (simp add: null_ok_def null_push_ok_def main_opal_def opal_lifo_init_def)
qed (auto elim!: opal_step.cases intro: null_push null_pop null_threads)

section \<open>Executions\<close>

datatype opal_move = Create | Push | Pop bool

definition opal_perform :: "opal \<Rightarrow> opal_move \<Rightarrow> opal" where
  "opal_perform s m = (case m of
     Create \<Rightarrow> if threads s < 2 then s\<lparr>threads := threads s + 1\<rparr> else s
   | Push \<Rightarrow> if 1 \<le> threads s \<and> \<not> faulted s then opal_lifo_push_atomic s else s
   | Pop b \<Rightarrow> if threads s = 2 \<and> \<not> faulted s then opal_lifo_pop_atomic b s else s)"

definition opal_run :: "opal_move list \<Rightarrow> opal_ptr \<Rightarrow> opal \<Rightarrow> opal" where
  "opal_run ms m s = foldl opal_perform (main_opal m s) ms"

lemma opal_run_reach: "opal_step\<^sup>*\<^sup>* (main_opal m s) (opal_run ms m s)"
  unfolding opal_run_def
proof (rule foldl_reach)
  fix s :: opal and m show "opal_step\<^sup>*\<^sup>* s (opal_perform s m)"
    using create_thread [of s] push_thread_func [of s] pop_thread_func [of s]
    by (cases m) (auto simp: opal_perform_def intro: r_into_rtranclp)
qed

definition some_opal :: opal where
  "some_opal = \<lparr>head_item = None, list_next = (\<lambda>_. None), item_free = (\<lambda>_. 7), item = None,
     push_at = Push_item, pop_at = Pop_head, faulted = False, threads = 0\<rparr>"

text \<open>The pop, run first, finds the list empty but leaves the ghost in \<open>item\<close> for the push.\<close>

definition pop_first :: "opal_move list" where
  "pop_first = replicate 2 Create @ replicate 2 (Pop False) @ replicate 9 Push"

text \<open>The pop reads the empty head just before the push and sets \<open>item\<close> just after it.\<close>

definition pop_within :: "opal_move list" where
  "pop_within = replicate 2 Create @ replicate 6 Push @ [Pop False, Push, Pop False] @ replicate 2 Push"

definition marked :: "opal \<Rightarrow> bool" where
  "marked s \<longleftrightarrow> head_item s = node \<and> item_free s (Node 0) = 1 \<and>
     (pop_at s = Pop_head \<or> pop_at s = Pop_set node \<or> pop_at s = Pop_item_test \<and> item s = node \<or>
      pop_at s = Pop_test node)"

lemma marked_pop: "marked s \<Longrightarrow> marked (opal_lifo_pop_atomic b s)"
  by (auto simp: marked_def opal_lifo_pop_atomic_def follow_def)

lemma marked_spins: "marked s \<Longrightarrow> pop_at (foldl (\<lambda>s b. opal_lifo_pop_atomic b s) s bs) \<noteq> Pop_returned"
proof (induction bs arbitrary: s)
  case Nil
  then show ?case by (auto simp: marked_def)
qed (auto intro: marked_pop)

section \<open>Properties\<close>

text \<open>
  C6. Each operation alone implements a stack: a push of a node that is not in the list puts it on top;
  a pop, however often its compare-and-swap fails spuriously, leaves the rest of the stack and
  the popped node in \<open>item\<close>, or the ghost if the stack was empty.
\<close>

theorem opal_stack:
  assumes "lifo s xs"
  shows "(push_at s = Push_item \<longrightarrow> item s = Some (Node a) \<longrightarrow> a \<notin> set xs \<longrightarrow>
      push_at (push_alone s) = Push_returned \<and> lifo (push_alone s) (a # xs)) \<and>
    (pop_at s = Pop_head \<longrightarrow> pop_at (pop_alone k s) = Pop_returned \<and> lifo (pop_alone k s) (tl xs) \<and>
      item (pop_alone k s) = (case xs of [] \<Rightarrow> ghost | b # _ \<Rightarrow> Some (Node b)))"
proof -
  have "pop_at (pop_alone k s) = Pop_returned \<and> lifo (pop_alone k s) (tl xs) \<and>
      item (pop_alone k s) = (case xs of [] \<Rightarrow> ghost | b # _ \<Rightarrow> Some (Node b))" if "pop_at s = Pop_head"
    using assms pop_alone_state [OF that] pop_alone_empty [OF that] by (cases xs) (auto simp: lifo_def)
  moreover have "push_at (push_alone s) = Push_returned \<and> lifo (push_alone s) (a # xs)"
    if "push_at s = Push_item" "item s = Some (Node a)" "a \<notin> set xs"
    using push_alone_lifo [OF that(1,2) assms that(3)] push_alone_state [OF that(1,2)] by simp
  ultimately show ?thesis by blast
qed

definition two_nodes :: opal where
  "two_nodes = some_opal\<lparr>head_item := Some (Node 3),
     list_next := (\<lambda>n. if n = Node 3 then Some (Node 1) else Some Ghost), item_free := (\<lambda>_. 0),
     item := Some (Node 5)\<rparr>"

theorem opal_stack_witness:
  "lifo two_nodes [3, 1] \<and> lifo (push_alone two_nodes) [5, 3, 1] \<and> lifo (pop_alone 2 two_nodes) [1] \<and>
   item (pop_alone 2 two_nodes) = Some (Node 3)"
proof -
  have l: "lifo two_nodes [3, 1]" by (simp add: lifo_def two_nodes_def)
  from opal_stack [OF l, of 5 2] show ?thesis using l by (simp add: two_nodes_def some_opal_def)
qed

text \<open>
  C15. If \<open>malloc\<close> gives \<open>opal_lifo_init\<close> a node, then in every interleaving of the two threads no
  null pointer is followed, the head is the ghost or the node whose next is the ghost, and
  \<open>item\<close> is one of the two. If \<open>malloc\<close> returns null, which the program does not check, then the
  push follows that null pointer in some interleaving; it is the only one that is ever followed,
  in the first line of the push, and the list stays empty.
\<close>

theorem opal_safe:
  "always opal_step (main_opal node s) (\<lambda>c. \<not> faulted c \<and> item c \<in> {ghost, node} \<and>
     (head_item c = ghost \<or> head_item c = node \<and> list_next c (Node 0) = ghost)) \<and>
   always opal_step (main_opal None s) (\<lambda>c. head_item c = ghost \<and> item c \<in> {None, ghost} \<and>
     (if faulted c then push_at c = Push_mark None else True)) \<and>
   (\<exists>c. opal_step\<^sup>*\<^sup>* (main_opal None s) c \<and> faulted c)"
proof (intro conjI)
  show "always opal_step (main_opal node s) (\<lambda>c. \<not> faulted c \<and> item c \<in> {ghost, node} \<and>
     (head_item c = ghost \<or> head_item c = node \<and> list_next c (Node 0) = ghost))"
    by (rule always_mono [OF always_opal_ok]) (simp add: opal_ok_def linked_node_def)
  show "always opal_step (main_opal None s) (\<lambda>c. head_item c = ghost \<and> item c \<in> {None, ghost} \<and>
     (if faulted c then push_at c = Push_mark None else True))"
    by (rule always_mono [OF always_null_ok]) (simp add: null_ok_def)
  have "faulted (opal_run [Create, Push, Push] None s)"
    by (simp add: opal_run_def opal_perform_def main_opal_def opal_lifo_init_def opal_lifo_push_atomic_def follow_def)
  then show "\<exists>c. opal_step\<^sup>*\<^sup>* (main_opal None s) c \<and> faulted c" using opal_run_reach by blast
qed

text \<open>
  But because both operations use the global \<open>item\<close>, the interleaved program is no stack even
  under sequential consistency. The push can be lost, the ghost being linked to itself instead;
  and it can leave the node marked as not yet free, so that every later pop spins forever.
\<close>

theorem opal_lost:
  "(\<exists>c. opal_step\<^sup>*\<^sup>* (main_opal node some_opal) c \<and> push_at c = Push_returned \<and> pop_at c = Pop_returned \<and>
      head_item c = ghost \<and> list_next c Ghost = ghost) \<and>
   (\<exists>c. opal_step\<^sup>*\<^sup>* (main_opal node some_opal) c \<and> push_at c = Push_returned \<and> pop_at c = Pop_returned \<and>
      head_item c = node \<and>
      (\<forall>bs. pop_at (foldl (\<lambda>s b. opal_lifo_pop_atomic b s) (c\<lparr>pop_at := Pop_head\<rparr>) bs) \<noteq> Pop_returned))"
proof
  have "push_at (opal_run pop_first node some_opal) = Push_returned" "pop_at (opal_run pop_first node some_opal) = Pop_returned"
    "head_item (opal_run pop_first node some_opal) = ghost" "list_next (opal_run pop_first node some_opal) Ghost = ghost"
    by code_simp+
  then show "\<exists>c. opal_step\<^sup>*\<^sup>* (main_opal node some_opal) c \<and> push_at c = Push_returned \<and> pop_at c = Pop_returned \<and>
      head_item c = ghost \<and> list_next c Ghost = ghost"
    using opal_run_reach by blast
  have "push_at (opal_run pop_within node some_opal) = Push_returned"
    "pop_at (opal_run pop_within node some_opal) = Pop_returned"
    "head_item (opal_run pop_within node some_opal) = node" "item_free (opal_run pop_within node some_opal) (Node 0) = 1"
    by code_simp+
  moreover from this have "marked ((opal_run pop_within node some_opal)\<lparr>pop_at := Pop_head\<rparr>)"
    by (simp add: marked_def)
  ultimately show "\<exists>c. opal_step\<^sup>*\<^sup>* (main_opal node some_opal) c \<and> push_at c = Push_returned \<and>
      pop_at c = Pop_returned \<and> head_item c = node \<and>
      (\<forall>bs. pop_at (foldl (\<lambda>s b. opal_lifo_pop_atomic b s) (c\<lparr>pop_at := Pop_head\<rparr>) bs) \<noteq> Pop_returned)"
    using opal_run_reach marked_spins by blast
qed

end
