(* ===== verification/Handshake.thy ===== *)
theory Handshake
  imports Transition_Systems
begin

text \<open>
  The test protocol that two of the MySQL programs share: a reader resets the shared objects,
  starts the writer by a start flag, watches for the published flag while the writer is not
  done, and stops the writer before the next round. The specification keeps of the objects only
  whether the data is there, whether the flag is, whether the writer has said that it is done
  and whether it is started; the rounds are counted. A program is related to it by a simulation,
  the interface \<open>test_harness\<close>.
\<close>

section \<open>The specification\<close>

datatype hs_writer = W_start | W_data | W_flag | W_done | W_reset
datatype hs_reader = R_flag0 | R_data0 | R_done0 | R_start | R_loop | R_read | R_data | R_stop | R_bug

record handshake =
  published :: bool
  present :: bool
  finished :: bool
  started :: bool
  hs_writer :: hs_writer
  hs_reader :: hs_reader
  rounds :: int

inductive hs_step :: "handshake \<Rightarrow> handshake \<Rightarrow> bool" where
  w_start: "hs_writer s = W_start \<Longrightarrow> started s \<Longrightarrow> hs_step s (s\<lparr>hs_writer := W_data\<rparr>)"
| w_data: "hs_writer s = W_data \<Longrightarrow> hs_step s (s\<lparr>present := True, hs_writer := W_flag\<rparr>)"
| w_flag: "hs_writer s = W_flag \<Longrightarrow> hs_step s (s\<lparr>published := True, hs_writer := W_done\<rparr>)"
| w_done: "hs_writer s = W_done \<Longrightarrow> hs_step s (s\<lparr>finished := True, hs_writer := W_reset\<rparr>)"
| w_reset: "hs_writer s = W_reset \<Longrightarrow> \<not> started s \<Longrightarrow> hs_step s (s\<lparr>hs_writer := W_start\<rparr>)"
| r_flag0: "hs_reader s = R_flag0 \<Longrightarrow> hs_step s (s\<lparr>published := False, hs_reader := R_data0\<rparr>)"
| r_data0: "hs_reader s = R_data0 \<Longrightarrow> hs_step s (s\<lparr>present := False, hs_reader := R_done0\<rparr>)"
| r_done0: "hs_reader s = R_done0 \<Longrightarrow> hs_step s (s\<lparr>finished := False, hs_reader := R_start\<rparr>)"
| r_start: "hs_reader s = R_start \<Longrightarrow> hs_step s (s\<lparr>started := True, hs_reader := R_loop\<rparr>)"
| r_end: "hs_reader s = R_loop \<Longrightarrow> finished s \<Longrightarrow> hs_step s (s\<lparr>hs_reader := R_stop\<rparr>)"
| r_look: "hs_reader s = R_loop \<Longrightarrow> \<not> finished s \<Longrightarrow> hs_step s (s\<lparr>hs_reader := R_read\<rparr>)"
| r_none: "hs_reader s = R_read \<Longrightarrow> \<not> published s \<Longrightarrow> hs_step s (s\<lparr>hs_reader := R_loop\<rparr>)"
| r_some: "hs_reader s = R_read \<Longrightarrow> published s \<Longrightarrow> hs_step s (s\<lparr>hs_reader := R_data\<rparr>)"
| r_ok: "hs_reader s = R_data \<Longrightarrow> present s \<Longrightarrow> hs_step s (s\<lparr>hs_reader := R_stop\<rparr>)"
| r_bug: "hs_reader s = R_data \<Longrightarrow> \<not> present s \<Longrightarrow> hs_step s (s\<lparr>hs_reader := R_bug\<rparr>)"
| r_stop: "hs_reader s = R_stop \<Longrightarrow>
    hs_step s (s\<lparr>started := False, rounds := rounds s + 1, hs_reader := R_flag0\<rparr>)"

definition hs_init :: handshake where
  "hs_init = \<lparr>published = False, present = False, finished = False, started = False,
     hs_writer = W_start, hs_reader = R_flag0, rounds = 0\<rparr>"

section \<open>No report in the first two rounds\<close>

text \<open>
  In the first two rounds the writer writes only while the reader watches. After the second one
  this can fail: a reader that has left its watch early does not wait for the writer, whose
  \<open>finished\<close> may then belong to an earlier round.
\<close>

definition early_ok :: "handshake \<Rightarrow> bool" where
  "early_ok s \<longleftrightarrow>
     (published s \<longrightarrow> present s) \<and> (hs_writer s = W_flag \<longrightarrow> present s) \<and>
     (hs_writer s \<in> {W_data, W_flag} \<longrightarrow> hs_reader s \<in> {R_loop, R_read, R_stop} \<and> \<not> published s) \<and>
     (hs_writer s = W_start \<and> started s \<longrightarrow> hs_reader s \<in> {R_loop, R_read, R_stop} \<and> \<not> published s) \<and>
     (hs_reader s \<in> {R_data0, R_done0, R_start} \<longrightarrow> \<not> published s) \<and>
     (started s \<longleftrightarrow> hs_reader s \<notin> {R_flag0, R_data0, R_done0, R_start}) \<and>
     (hs_reader s = R_data \<longrightarrow> published s) \<and> hs_reader s \<noteq> R_bug"

definition first_ok :: "handshake \<Rightarrow> bool" where
  "first_ok s \<longleftrightarrow>
     (hs_writer s \<in> {W_data, W_flag, W_done, W_reset} \<longrightarrow> started s) \<and>
     (finished s \<longrightarrow> hs_writer s = W_reset) \<and>
     (published s \<longrightarrow> hs_writer s \<in> {W_done, W_reset}) \<and>
     (hs_reader s = R_stop \<longrightarrow> hs_writer s \<in> {W_done, W_reset})"

definition hs_ok :: "handshake \<Rightarrow> bool" where
  "hs_ok s \<longleftrightarrow> 0 \<le> rounds s \<and> (rounds s \<le> 1 \<longrightarrow> early_ok s) \<and> (rounds s = 0 \<longrightarrow> first_ok s)"

definition stops :: "handshake \<Rightarrow> handshake \<Rightarrow> bool" where
  "stops s s' \<longleftrightarrow> hs_reader s = R_stop \<and> hs_reader s' = R_flag0"

lemma early_step:
  assumes "hs_step s s'" "early_ok s" "stops s s' \<Longrightarrow> hs_writer s \<in> {W_done, W_reset}"
  shows "early_ok s'"
  using assms by cases (auto simp: early_ok_def stops_def)

lemma first_step:
  assumes "hs_step s s'" "first_ok s" "early_ok s" "\<not> stops s s'"
  shows "first_ok s'"
  using assms by cases (auto simp: first_ok_def early_ok_def stops_def)

lemma rounds_step: "hs_step s s' \<Longrightarrow> rounds s' = (if stops s s' then rounds s + 1 else rounds s)"
  by (cases rule: hs_step.cases) (auto simp: stops_def)

lemma hs_ok_step:
  assumes "hs_ok s" "hs_step s s'"
  shows "hs_ok s'"
proof (cases "stops s s'")
  case True
  then have w: "rounds s = 0 \<Longrightarrow> hs_writer s \<in> {W_done, W_reset}"
    using assms(1) by (simp add: hs_ok_def first_ok_def stops_def)
  from True rounds_step [OF assms(2)] assms(1) have "rounds s' = rounds s + 1" "0 \<le> rounds s"
    by (auto simp: hs_ok_def)
  then show ?thesis using w early_step [OF assms(2)] assms(1) by (auto simp: hs_ok_def)
next
  case False
  with rounds_step [OF assms(2)] early_step [OF assms(2)] first_step [OF assms(2)] assms(1)
  show ?thesis by (auto simp: hs_ok_def)
qed

theorem no_early_report: "always hs_step hs_init (\<lambda>s. hs_reader s = R_bug \<longrightarrow> 2 \<le> rounds s)"
proof (rule always_invariant)
  show "hs_ok hs_init" by (simp add: hs_ok_def early_ok_def first_ok_def hs_init_def)
next
  fix a b assume "hs_ok a" "hs_step a b"
  then show "hs_ok b" by (rule hs_ok_step)
next
  fix a assume "hs_ok a"
  then show "hs_reader a = R_bug \<longrightarrow> 2 \<le> rounds a" by (simp add: hs_ok_def early_ok_def) arith
qed

section \<open>The interface of a program\<close>

locale test_harness =
  fixes step :: "'c \<Rightarrow> 'c \<Rightarrow> bool" and rel :: "'c \<Rightarrow> handshake \<Rightarrow> bool"
    and reports :: "'c \<Rightarrow> bool" and iterations :: "'c \<Rightarrow> int"
  assumes implements: "rel c s \<Longrightarrow> step c c' \<Longrightarrow> \<exists>s'. hs_step\<^sup>*\<^sup>* s s' \<and> rel c' s'"
    and reports_bug: "rel c s \<Longrightarrow> reports c \<Longrightarrow> hs_reader s = R_bug"
    and counts_rounds: "rel c s \<Longrightarrow> iterations c = rounds s"

sublocale test_harness \<subseteq> simulation step hs_step rel
  by unfold_locales (rule implements)

context test_harness
begin

lemma reports_late:
  assumes "rel c0 hs_init"
  shows "always step c0 (\<lambda>c. reports c \<longrightarrow> 2 \<le> iterations c)"
  by (rule always_transfer [OF no_early_report assms]) (metis reports_bug counts_rounds)

end

end
