(* ===== verification/Rwlock_Test.thy ===== *)
theory Rwlock_Test
  imports Handshake
begin

text \<open>
  The test program \<open>Layer1/24-mysql_rwlock_deadlock.c\<close> under sequential consistency. A step of a
  thread is one access to shared memory; the waiting loops change nothing while they wait. The
  reader's round number is a mathematical integer (the overflow of a \<open>long\<close> is undefined), and
  \<open>exit\<close> ends both threads.
\<close>

section \<open>The program\<close>

type_synonym os_thread_id_t = "64 word"

datatype rwt_writer =
  Wait_start | Write_thread | Release_fence | Write_recursive | Write_done | Wait_reset

datatype rwt_reader =
  Reset_recursive | Reset_thread | Reset_done | Raise_start
| Test_done | Read_recursive | Read_thread c_int | Lower_start | Exited

record rwlock_test =
  lock_recursive :: c_int
  lock_writer_thread :: os_thread_id_t
  start_flag :: c_int
  writer_done :: c_int
  writer_pc :: rwt_writer
  reader_pc :: rwt_reader
  iterations :: int
  created :: nat

definition thread_writer_rwt :: "os_thread_id_t \<Rightarrow> rwlock_test \<Rightarrow> rwlock_test" where
  "thread_writer_rwt my_tid s = (case writer_pc s of
     Wait_start \<Rightarrow> if start_flag s = 0 then s else s\<lparr>writer_pc := Write_thread\<rparr>
   | Write_thread \<Rightarrow> s\<lparr>lock_writer_thread := my_tid, writer_pc := Release_fence\<rparr>
   | Release_fence \<Rightarrow> s\<lparr>writer_pc := Write_recursive\<rparr>
   | Write_recursive \<Rightarrow> s\<lparr>lock_recursive := 1, writer_pc := Write_done\<rparr>
   | Write_done \<Rightarrow> s\<lparr>writer_done := 1, writer_pc := Wait_reset\<rparr>
   | Wait_reset \<Rightarrow> if start_flag s = 1 then s else s\<lparr>writer_pc := Wait_start\<rparr>)"

definition thread_reader_rwt :: "os_thread_id_t \<Rightarrow> rwlock_test \<Rightarrow> rwlock_test" where
  "thread_reader_rwt writer_tid s = (case reader_pc s of
     Reset_recursive \<Rightarrow> s\<lparr>lock_recursive := 0, reader_pc := Reset_thread\<rparr>
   | Reset_thread \<Rightarrow> s\<lparr>lock_writer_thread := 0, reader_pc := Reset_done\<rparr>
   | Reset_done \<Rightarrow> s\<lparr>writer_done := 0, reader_pc := Raise_start\<rparr>
   | Raise_start \<Rightarrow> s\<lparr>start_flag := 1, reader_pc := Test_done\<rparr>
   | Test_done \<Rightarrow> s\<lparr>reader_pc := (if writer_done s = 0 then Read_recursive else Lower_start)\<rparr>
   | Read_recursive \<Rightarrow> s\<lparr>reader_pc := Read_thread (lock_recursive s)\<rparr>
   | Read_thread r_recursive \<Rightarrow> (let r_writer = lock_writer_thread s in
       if r_recursive = 1 \<and> r_writer \<noteq> writer_tid then s\<lparr>reader_pc := Exited\<rparr>
       else if r_recursive = 1 \<and> r_writer = writer_tid then s\<lparr>reader_pc := Lower_start\<rparr>
       else s\<lparr>reader_pc := Test_done\<rparr>)
   | Lower_start \<Rightarrow> s\<lparr>start_flag := 0, iterations := iterations s + 1, reader_pc := Reset_recursive\<rparr>
   | Exited \<Rightarrow> s)"

text \<open>\<open>main\<close> creates the two threads with the same thread number; its joins never return.\<close>

definition mock_tid :: os_thread_id_t where
  "mock_tid = 1001"

inductive rwt_step :: "rwlock_test \<Rightarrow> rwlock_test \<Rightarrow> bool" where
  create: "created s < 2 \<Longrightarrow> reader_pc s \<noteq> Exited \<Longrightarrow> rwt_step s (s\<lparr>created := created s + 1\<rparr>)"
| writer: "1 \<le> created s \<Longrightarrow> reader_pc s \<noteq> Exited \<Longrightarrow> rwt_step s (thread_writer_rwt mock_tid s)"
| reader: "created s = 2 \<Longrightarrow> reader_pc s \<noteq> Exited \<Longrightarrow> rwt_step s (thread_reader_rwt mock_tid s)"

definition rwt_init :: rwlock_test where
  "rwt_init = \<lparr>lock_recursive = 0, lock_writer_thread = 0, start_flag = 0, writer_done = 0,
     writer_pc = Wait_start, reader_pc = Reset_recursive, iterations = 0, created = 0\<rparr>"

section \<open>The program follows the protocol\<close>

fun writer_phase :: "rwt_writer \<Rightarrow> hs_writer" where
  "writer_phase Wait_start = W_start" | "writer_phase Write_thread = W_data"
| "writer_phase Release_fence = W_flag" | "writer_phase Write_recursive = W_flag"
| "writer_phase Write_done = W_done" | "writer_phase Wait_reset = W_reset"

fun reader_phase :: "rwt_reader \<Rightarrow> hs_reader" where
  "reader_phase Reset_recursive = R_flag0" | "reader_phase Reset_thread = R_data0"
| "reader_phase Reset_done = R_done0" | "reader_phase Raise_start = R_start"
| "reader_phase Test_done = R_loop" | "reader_phase Read_recursive = R_read"
| "reader_phase (Read_thread r) = (if r = 1 then R_data else R_loop)"
| "reader_phase Lower_start = R_stop" | "reader_phase Exited = R_bug"

definition rwt_abs :: "rwlock_test \<Rightarrow> handshake" where
  "rwt_abs c = \<lparr>published = (lock_recursive c = 1), present = (lock_writer_thread c = mock_tid),
     finished = (writer_done c \<noteq> 0), started = (start_flag c \<noteq> 0),
     hs_writer = writer_phase (writer_pc c), hs_reader = reader_phase (reader_pc c), rounds = iterations c\<rparr>"

definition rwt_rel :: "rwlock_test \<Rightarrow> handshake \<Rightarrow> bool" where
  "rwt_rel c s \<longleftrightarrow> s = rwt_abs c \<and> start_flag c \<in> {0, 1}"

lemma writer_follows:
  assumes "start_flag c \<in> {0, 1}"
  shows "hs_step\<^sup>*\<^sup>* (rwt_abs c) (rwt_abs (thread_writer_rwt mock_tid c))"
proof (cases "rwt_abs (thread_writer_rwt mock_tid c) = rwt_abs c")
  case False
  have "hs_step (rwt_abs c) (rwt_abs (thread_writer_rwt mock_tid c))"
  proof (cases "writer_pc c")
    case Wait_start
    with False w_start [of "rwt_abs c"] show ?thesis by (auto simp: rwt_abs_def thread_writer_rwt_def)
  next
    case Write_thread
    with w_data [of "rwt_abs c"] show ?thesis by (simp add: rwt_abs_def thread_writer_rwt_def)
  next
    case Release_fence
    with False show ?thesis by (simp add: rwt_abs_def thread_writer_rwt_def)
  next
    case Write_recursive
    with w_flag [of "rwt_abs c"] show ?thesis by (simp add: rwt_abs_def thread_writer_rwt_def)
  next
    case Write_done
    with w_done [of "rwt_abs c"] show ?thesis by (simp add: rwt_abs_def thread_writer_rwt_def)
  next
    case Wait_reset
    with False assms w_reset [of "rwt_abs c"] show ?thesis by (auto simp: rwt_abs_def thread_writer_rwt_def)
  qed
  then show ?thesis by blast
qed simp

lemma reader_follows: "hs_step\<^sup>*\<^sup>* (rwt_abs c) (rwt_abs (thread_reader_rwt mock_tid c))"
proof (cases "rwt_abs (thread_reader_rwt mock_tid c) = rwt_abs c")
  case False
  have "hs_step (rwt_abs c) (rwt_abs (thread_reader_rwt mock_tid c))"
  proof (cases "reader_pc c")
    case Reset_recursive
    with r_flag0 [of "rwt_abs c"] show ?thesis by (simp add: rwt_abs_def thread_reader_rwt_def)
  next
    case Reset_thread
    with r_data0 [of "rwt_abs c"] show ?thesis by (simp add: rwt_abs_def thread_reader_rwt_def mock_tid_def)
  next
    case Reset_done
    with r_done0 [of "rwt_abs c"] show ?thesis by (simp add: rwt_abs_def thread_reader_rwt_def)
  next
    case Raise_start
    with r_start [of "rwt_abs c"] show ?thesis by (simp add: rwt_abs_def thread_reader_rwt_def)
  next
    case Test_done
    with r_look [of "rwt_abs c"] r_end [of "rwt_abs c"] show ?thesis
      by (auto simp: rwt_abs_def thread_reader_rwt_def)
  next
    case Read_recursive
    with r_none [of "rwt_abs c"] r_some [of "rwt_abs c"] show ?thesis
      by (auto simp: rwt_abs_def thread_reader_rwt_def)
  next
    case (Read_thread r)
    with False r_ok [of "rwt_abs c"] r_bug [of "rwt_abs c"] show ?thesis
      by (auto simp: rwt_abs_def thread_reader_rwt_def Let_def split: if_splits)
  next
    case Lower_start
    with r_stop [of "rwt_abs c"] show ?thesis by (simp add: rwt_abs_def thread_reader_rwt_def)
  next
    case Exited
    with False show ?thesis by (simp add: thread_reader_rwt_def)
  qed
  then show ?thesis by blast
qed simp

lemma start_flag_threads:
  "start_flag c \<in> {0, 1} \<Longrightarrow> start_flag (thread_writer_rwt t c) \<in> {0, 1}"
  "start_flag c \<in> {0, 1} \<Longrightarrow> start_flag (thread_reader_rwt t c) \<in> {0, 1}"
  by (auto simp: thread_writer_rwt_def thread_reader_rwt_def Let_def split: rwt_writer.split rwt_reader.split)

interpretation rwt: test_harness rwt_step rwt_rel "\<lambda>c. reader_pc c = Exited" iterations
proof
  fix c s c' assume r: "rwt_rel c s" and step: "rwt_step c c'"
  have abs: "s = rwt_abs c" "start_flag c \<in> {0, 1}" using r by (auto simp: rwt_rel_def)
  from step have "hs_step\<^sup>*\<^sup>* s (rwt_abs c') \<and> start_flag c' \<in> {0, 1}"
  proof cases
    case create
    then show ?thesis using abs by (simp add: rwt_abs_def)
  next
    case writer
    then show ?thesis using writer_follows abs start_flag_threads by simp
  next
    case reader
    then show ?thesis using reader_follows abs start_flag_threads by simp
  qed
  then show "\<exists>s'. hs_step\<^sup>*\<^sup>* s s' \<and> rwt_rel c' s'" by (auto simp: rwt_rel_def)
qed (auto simp: rwt_rel_def rwt_abs_def)

section \<open>Executions\<close>

text \<open>An execution is given by the threads that move; a move that is not possible is skipped.\<close>

datatype rwt_move = Create | Writer | Reader

definition rwt_perform :: "rwlock_test \<Rightarrow> rwt_move \<Rightarrow> rwlock_test" where
  "rwt_perform s m = (if reader_pc s = Exited then s else case m of
     Create \<Rightarrow> if created s < 2 then s\<lparr>created := created s + 1\<rparr> else s
   | Writer \<Rightarrow> if 1 \<le> created s then thread_writer_rwt mock_tid s else s
   | Reader \<Rightarrow> if created s = 2 then thread_reader_rwt mock_tid s else s)"

definition rwt_run :: "rwt_move list \<Rightarrow> rwlock_test" where
  "rwt_run ms = foldl rwt_perform rwt_init ms"

lemma rwt_perform_reach: "rwt_step\<^sup>*\<^sup>* s (rwt_perform s m)"
  using create [of s] writer [of s] reader [of s]
  by (cases m) (auto simp: rwt_perform_def intro: r_into_rtranclp)

lemma rwt_run_reach: "rwt_step\<^sup>*\<^sup>* rwt_init (rwt_run ms)"
  unfolding rwt_run_def by (rule foldl_reach) (rule rwt_perform_reach)

text \<open>The reader sees the lock taken before the writer has said that it is done.\<close>

definition first_round :: "rwt_move list" where
  "first_round = replicate 2 Create @ replicate 4 Reader @ replicate 4 Writer @ replicate 4 Reader"

text \<open>
  The late \<open>writer_done\<close> of the first round falls into the second one, which ends at once; the
  writer, already started, is then at work while the reader resets the objects.
\<close>

definition false_alarm :: "rwt_move list" where
  "false_alarm = first_round @ replicate 3 Reader @ replicate 2 Writer @ [Reader] @ replicate 2 Writer @
     replicate 4 Reader @ replicate 2 Writer @ replicate 5 Reader"

text \<open>Or the reset of \<open>start_flag\<close> passes unnoticed, and each thread waits for the other.\<close>

definition missed_reset :: "rwt_move list" where
  "missed_reset = first_round @ replicate 2 Reader @ [Writer] @ replicate 2 Reader"

definition waiting :: "rwlock_test \<Rightarrow> bool" where
  "waiting c \<longleftrightarrow> writer_pc c = Wait_reset \<and> start_flag c = 1 \<and> writer_done c = 0 \<and> lock_recursive c = 0 \<and>
     reader_pc c \<in> {Test_done, Read_recursive, Read_thread 0} \<and> created c = 2 \<and> iterations c = 1"

lemma waiting_step: "rwt_step c c' \<Longrightarrow> waiting c \<Longrightarrow> waiting c'"
  by (erule rwt_step.cases) (auto simp: waiting_def thread_writer_rwt_def thread_reader_rwt_def Let_def)

lemma waiting_forever: "waiting c \<Longrightarrow> always rwt_step c waiting"
  by (rule always_invariant [of waiting]) (auto intro: waiting_step)

lemma false_alarm_state: "reader_pc (rwt_run false_alarm) = Exited" "iterations (rwt_run false_alarm) = 2"
  by code_simp+

lemma missed_reset_state: "waiting (rwt_run missed_reset)"
  by code_simp

section \<open>Properties\<close>

text \<open>
  C18. Under sequential consistency the rw-lock test reports nothing in its first two rounds.
\<close>

theorem rwlock_test_early:
  "always rwt_step rwt_init (\<lambda>c. reader_pc c = Exited \<longrightarrow> 2 \<le> iterations c)"
  by (rule rwt.reports_late) (simp add: rwt_rel_def rwt_abs_def rwt_init_def hs_init_def mock_tid_def)

theorem rwlock_test_early_witness:
  "rwt_step\<^sup>*\<^sup>* rwt_init (rwt_run false_alarm) \<and> reader_pc (rwt_run false_alarm) = Exited \<and>
   2 \<le> iterations (rwt_run false_alarm)"
  using alwaysD [OF rwlock_test_early rwt_run_reach] false_alarm_state(1) rwt_run_reach by blast

text \<open>
  But it is no test of memory ordering: without any reordering it can report the bug, in
  its third round, and it can hang with the reader waiting for the writer and the writer for
  the reader.
\<close>

theorem rwlock_test_unsound:
  "(\<exists>c. rwt_step\<^sup>*\<^sup>* rwt_init c \<and> reader_pc c = Exited \<and> iterations c = 2) \<and>
   (\<exists>c. rwt_step\<^sup>*\<^sup>* rwt_init c \<and> always rwt_step c (\<lambda>d. writer_pc d = Wait_reset \<and> start_flag d = 1 \<and>
      writer_done d = 0 \<and> lock_recursive d = 0 \<and> iterations d = 1))"
proof
  show "\<exists>c. rwt_step\<^sup>*\<^sup>* rwt_init c \<and> reader_pc c = Exited \<and> iterations c = 2"
    using rwt_run_reach false_alarm_state by blast
  have "always rwt_step (rwt_run missed_reset) (\<lambda>d. writer_pc d = Wait_reset \<and> start_flag d = 1 \<and>
      writer_done d = 0 \<and> lock_recursive d = 0 \<and> iterations d = 1)"
    by (rule always_mono [OF waiting_forever [OF missed_reset_state]]) (simp add: waiting_def)
  then show "\<exists>c. rwt_step\<^sup>*\<^sup>* rwt_init c \<and> always rwt_step c (\<lambda>d. writer_pc d = Wait_reset \<and> start_flag d = 1 \<and>
      writer_done d = 0 \<and> lock_recursive d = 0 \<and> iterations d = 1)"
    using rwt_run_reach by blast
qed

end
