(* ===== verification/Binlog_Test.thy ===== *)
theory Binlog_Test
  imports Handshake
begin

text \<open>
  The test program \<open>Layer1/25-mysql_volatile_bug.c\<close> under sequential consistency, modelled like
  the rw-lock test: a step is one access to shared memory, \<open>exit\<close> ends both threads.
\<close>

section \<open>The program\<close>

abbreviation LOG_CLOSED :: c_int where "LOG_CLOSED \<equiv> 0"
abbreviation LOG_OPENED :: c_int where "LOG_OPENED \<equiv> 1"

datatype open_pc = Await_start | Write_data | Write_state | Say_done | Await_reset

datatype use_pc =
  Close_log | Clear_data | Clear_done | Set_start
| Watch_done | Read_state | Read_data | Clear_start | Quit

record binlog =
  log_state :: c_int
  log_file_data :: c_int
  start_flag :: c_int
  writer_done :: c_int
  open_pc :: open_pc
  use_pc :: use_pc
  iterations :: int
  created :: nat

definition thread_open_binlog :: "binlog \<Rightarrow> binlog" where
  "thread_open_binlog s = (case open_pc s of
     Await_start \<Rightarrow> if start_flag s = 0 then s else s\<lparr>open_pc := Write_data\<rparr>
   | Write_data \<Rightarrow> s\<lparr>log_file_data := 999, open_pc := Write_state\<rparr>
   | Write_state \<Rightarrow> s\<lparr>log_state := LOG_OPENED, open_pc := Say_done\<rparr>
   | Say_done \<Rightarrow> s\<lparr>writer_done := 1, open_pc := Await_reset\<rparr>
   | Await_reset \<Rightarrow> if start_flag s = 1 then s else s\<lparr>open_pc := Await_start\<rparr>)"

definition thread_use_binlog :: "binlog \<Rightarrow> binlog" where
  "thread_use_binlog s = (case use_pc s of
     Close_log \<Rightarrow> s\<lparr>log_state := LOG_CLOSED, use_pc := Clear_data\<rparr>
   | Clear_data \<Rightarrow> s\<lparr>log_file_data := 0, use_pc := Clear_done\<rparr>
   | Clear_done \<Rightarrow> s\<lparr>writer_done := 0, use_pc := Set_start\<rparr>
   | Set_start \<Rightarrow> s\<lparr>start_flag := 1, use_pc := Watch_done\<rparr>
   | Watch_done \<Rightarrow> s\<lparr>use_pc := (if writer_done s = 0 then Read_state else Clear_start)\<rparr>
   | Read_state \<Rightarrow> s\<lparr>use_pc := (if log_state s = LOG_OPENED then Read_data else Watch_done)\<rparr>
   | Read_data \<Rightarrow> s\<lparr>use_pc := (if log_file_data s \<noteq> 999 then Quit else Clear_start)\<rparr>
   | Clear_start \<Rightarrow> s\<lparr>start_flag := 0, iterations := iterations s + 1, use_pc := Close_log\<rparr>
   | Quit \<Rightarrow> s)"

text \<open>\<open>main\<close> creates the two threads; its joins never return.\<close>

inductive binlog_step :: "binlog \<Rightarrow> binlog \<Rightarrow> bool" where
  create_binlog: "created s < 2 \<Longrightarrow> use_pc s \<noteq> Quit \<Longrightarrow> binlog_step s (s\<lparr>created := created s + 1\<rparr>)"
| open_binlog: "1 \<le> created s \<Longrightarrow> use_pc s \<noteq> Quit \<Longrightarrow> binlog_step s (thread_open_binlog s)"
| use_binlog: "created s = 2 \<Longrightarrow> use_pc s \<noteq> Quit \<Longrightarrow> binlog_step s (thread_use_binlog s)"

definition binlog_init :: binlog where
  "binlog_init = \<lparr>log_state = LOG_CLOSED, log_file_data = 0, start_flag = 0, writer_done = 0,
     open_pc = Await_start, use_pc = Close_log, iterations = 0, created = 0\<rparr>"

section \<open>The program follows the protocol\<close>

fun open_phase :: "open_pc \<Rightarrow> hs_writer" where
  "open_phase Await_start = W_start" | "open_phase Write_data = W_data"
| "open_phase Write_state = W_flag" | "open_phase Say_done = W_done" | "open_phase Await_reset = W_reset"

fun use_phase :: "use_pc \<Rightarrow> hs_reader" where
  "use_phase Close_log = R_flag0" | "use_phase Clear_data = R_data0"
| "use_phase Clear_done = R_done0" | "use_phase Set_start = R_start"
| "use_phase Watch_done = R_loop" | "use_phase Read_state = R_read" | "use_phase Read_data = R_data"
| "use_phase Clear_start = R_stop" | "use_phase Quit = R_bug"

definition binlog_abs :: "binlog \<Rightarrow> handshake" where
  "binlog_abs c = \<lparr>published = (log_state c = LOG_OPENED), present = (log_file_data c = 999),
     finished = (writer_done c \<noteq> 0), started = (start_flag c \<noteq> 0),
     hs_writer = open_phase (open_pc c), hs_reader = use_phase (use_pc c), rounds = iterations c\<rparr>"

definition binlog_rel :: "binlog \<Rightarrow> handshake \<Rightarrow> bool" where
  "binlog_rel c s \<longleftrightarrow> s = binlog_abs c \<and> start_flag c \<in> {0, 1}"

lemma open_follows:
  assumes "start_flag c \<in> {0, 1}"
  shows "thread_open_binlog c = c \<or> hs_step (binlog_abs c) (binlog_abs (thread_open_binlog c))"
  using assms w_start [of "binlog_abs c"] w_data [of "binlog_abs c"] w_flag [of "binlog_abs c"]
    w_done [of "binlog_abs c"] w_reset [of "binlog_abs c"]
  by (cases "open_pc c") (auto simp: binlog_abs_def thread_open_binlog_def)

lemma use_follows:
  assumes "use_pc c \<noteq> Quit"
  shows "hs_step (binlog_abs c) (binlog_abs (thread_use_binlog c))"
proof (cases "use_pc c")
  case Watch_done
  with r_look [of "binlog_abs c"] r_end [of "binlog_abs c"] show ?thesis
    by (auto simp: binlog_abs_def thread_use_binlog_def)
next
  case Read_state
  with r_none [of "binlog_abs c"] r_some [of "binlog_abs c"] show ?thesis
    by (auto simp: binlog_abs_def thread_use_binlog_def)
next
  case Read_data
  with r_ok [of "binlog_abs c"] r_bug [of "binlog_abs c"] show ?thesis
    by (auto simp: binlog_abs_def thread_use_binlog_def)
next
  case Quit
  with assms show ?thesis by simp
qed (use r_flag0 [of "binlog_abs c"] r_data0 [of "binlog_abs c"] r_done0 [of "binlog_abs c"]
    r_start [of "binlog_abs c"] r_stop [of "binlog_abs c"]
    in \<open>simp_all add: binlog_abs_def thread_use_binlog_def\<close>)

lemma start_flag_binlog:
  "start_flag c \<in> {0, 1} \<Longrightarrow> start_flag (thread_open_binlog c) \<in> {0, 1}"
  "start_flag c \<in> {0, 1} \<Longrightarrow> start_flag (thread_use_binlog c) \<in> {0, 1}"
  by (auto simp: thread_open_binlog_def thread_use_binlog_def split: open_pc.split use_pc.split)

interpretation binlog: test_harness binlog_step binlog_rel "\<lambda>c. use_pc c = Quit" iterations
proof
  fix c s c' assume r: "binlog_rel c s" and step: "binlog_step c c'"
  have abs: "s = binlog_abs c" "start_flag c \<in> {0, 1}" using r by (auto simp: binlog_rel_def)
  from step have "hs_step\<^sup>*\<^sup>* s (binlog_abs c') \<and> start_flag c' \<in> {0, 1}"
  proof cases
    case create_binlog
    then show ?thesis using abs by (simp add: binlog_abs_def)
  next
    case open_binlog
    then show ?thesis using open_follows [OF abs(2)] abs start_flag_binlog(1) by (metis r_into_rtranclp rtranclp.rtrancl_refl)
  next
    case use_binlog
    then show ?thesis using use_follows [of c] abs start_flag_binlog(2) by (simp add: r_into_rtranclp)
  qed
  then show "\<exists>s'. hs_step\<^sup>*\<^sup>* s s' \<and> binlog_rel c' s'" by (auto simp: binlog_rel_def)
qed (auto simp: binlog_rel_def binlog_abs_def)

section \<open>Executions\<close>

datatype binlog_move = Creates | Opens | Uses

definition binlog_perform :: "binlog \<Rightarrow> binlog_move \<Rightarrow> binlog" where
  "binlog_perform s m = (if use_pc s = Quit then s else case m of
     Creates \<Rightarrow> if created s < 2 then s\<lparr>created := created s + 1\<rparr> else s
   | Opens \<Rightarrow> if 1 \<le> created s then thread_open_binlog s else s
   | Uses \<Rightarrow> if created s = 2 then thread_use_binlog s else s)"

definition binlog_run :: "binlog_move list \<Rightarrow> binlog" where
  "binlog_run ms = foldl binlog_perform binlog_init ms"

lemma binlog_perform_reach: "binlog_step\<^sup>*\<^sup>* s (binlog_perform s m)"
  using create_binlog [of s] open_binlog [of s] use_binlog [of s]
  by (cases m) (auto simp: binlog_perform_def intro: r_into_rtranclp)

lemma binlog_run_reach: "binlog_step\<^sup>*\<^sup>* binlog_init (binlog_run ms)"
  unfolding binlog_run_def by (rule foldl_reach) (rule binlog_perform_reach)

definition binlog_round :: "binlog_move list" where
  "binlog_round = replicate 2 Creates @ replicate 4 Uses @ replicate 3 Opens @ replicate 4 Uses"

definition binlog_alarm :: "binlog_move list" where
  "binlog_alarm = binlog_round @ replicate 3 Uses @ replicate 2 Opens @ [Uses] @ replicate 2 Opens @
     replicate 4 Uses @ [Opens] @ replicate 5 Uses"

definition binlog_missed :: "binlog_move list" where
  "binlog_missed = binlog_round @ replicate 2 Uses @ [Opens] @ replicate 2 Uses"

definition binlog_waiting :: "binlog \<Rightarrow> bool" where
  "binlog_waiting c \<longleftrightarrow> open_pc c = Await_reset \<and> start_flag c = 1 \<and> writer_done c = 0 \<and>
     log_state c = LOG_CLOSED \<and> use_pc c \<in> {Watch_done, Read_state} \<and> created c = 2 \<and> iterations c = 1"

lemma binlog_waiting_step: "binlog_step c c' \<Longrightarrow> binlog_waiting c \<Longrightarrow> binlog_waiting c'"
  by (erule binlog_step.cases) (auto simp: binlog_waiting_def thread_open_binlog_def thread_use_binlog_def)

lemma binlog_waits: "binlog_waiting c \<Longrightarrow> always binlog_step c binlog_waiting"
  by (rule always_invariant [of binlog_waiting]) (auto intro: binlog_waiting_step)

lemma binlog_alarm_state: "use_pc (binlog_run binlog_alarm) = Quit" "iterations (binlog_run binlog_alarm) = 2"
  by code_simp+

lemma binlog_missed_state: "binlog_waiting (binlog_run binlog_missed)"
  by code_simp

section \<open>Properties\<close>

text \<open>
  Under sequential consistency the binlog test reports nothing in its first two rounds.
\<close>

theorem binlog_test_early:
  "always binlog_step binlog_init (\<lambda>c. use_pc c = Quit \<longrightarrow> 2 \<le> iterations c)"
  by (rule binlog.reports_late) (simp add: binlog_rel_def binlog_abs_def binlog_init_def hs_init_def)

theorem binlog_test_early_witness:
  "binlog_step\<^sup>*\<^sup>* binlog_init (binlog_run binlog_alarm) \<and> use_pc (binlog_run binlog_alarm) = Quit \<and>
   2 \<le> iterations (binlog_run binlog_alarm)"
  using alwaysD [OF binlog_test_early binlog_run_reach] binlog_alarm_state(1) binlog_run_reach by blast

text \<open>
  Without any reordering the binlog test can report the bug, in its third round, and it can
  hang with each thread waiting for the other.
\<close>

theorem binlog_test_unsound:
  "(\<exists>c. binlog_step\<^sup>*\<^sup>* binlog_init c \<and> use_pc c = Quit \<and> iterations c = 2) \<and>
   (\<exists>c. binlog_step\<^sup>*\<^sup>* binlog_init c \<and> always binlog_step c (\<lambda>d. open_pc d = Await_reset \<and> start_flag d = 1 \<and>
      writer_done d = 0 \<and> log_state d = LOG_CLOSED \<and> iterations d = 1))"
proof
  show "\<exists>c. binlog_step\<^sup>*\<^sup>* binlog_init c \<and> use_pc c = Quit \<and> iterations c = 2"
    using binlog_run_reach binlog_alarm_state by blast
  have "always binlog_step (binlog_run binlog_missed) (\<lambda>d. open_pc d = Await_reset \<and> start_flag d = 1 \<and>
      writer_done d = 0 \<and> log_state d = LOG_CLOSED \<and> iterations d = 1)"
    by (rule always_mono [OF binlog_waits [OF binlog_missed_state]]) (simp add: binlog_waiting_def)
  then show "\<exists>c. binlog_step\<^sup>*\<^sup>* binlog_init c \<and> always binlog_step c (\<lambda>d. open_pc d = Await_reset \<and>
      start_flag d = 1 \<and> writer_done d = 0 \<and> log_state d = LOG_CLOSED \<and> iterations d = 1)"
    using binlog_run_reach by blast
qed

end
