(* ===== verification/Ut_Delay.thy ===== *)
theory Ut_Delay
  imports Transition_Systems
begin

text \<open>
  The test of \<open>UT_RELAX_CPU\<close>, \<open>Layer1/27-mysql-ut-realx.c\<close>, under sequential consistency: a
  writer that publishes data under a spin lock, a reader that waits for it without the lock,
  and a \<open>main\<close> that runs the pair twice, with each of the two relax functions. These access
  only a variable of their own, so a call is a step without effect, and which one is called does
  not matter. The weak compare-and-swap may fail spuriously.
\<close>

section \<open>State\<close>

definition ITERATIONS :: nat where
  "ITERATIONS = 2000000"

lemma ITERATIONS_bounds [simp]: "0 < ITERATIONS" "ITERATIONS \<noteq> 0" "Suc 0 < ITERATIONS" "ITERATIONS < 2 ^ 32"
  by (simp_all add: ITERATIONS_def)

datatype utw_pc = W_absent | W_spin | W_for | W_lock | W_relax nat | W_write | W_publish | W_unlock | W_returned

datatype utr_pc =
  R_absent | R_spin | R_for | R_relax | R_poll | R_fetch c_int | R_clear c_int c_int | R_report c_int c_int | R_returned

datatype utm_pc = M_reset nat | M_writer nat | M_reader nat | M_start nat | M_join_writer nat | M_join_reader nat | M_returned

record inno_mutex =
  lock_word :: c_int
  data :: c_int
  data_ready :: c_int

record ut = inno_mutex +
  bug_detected :: c_int
  start_flag :: c_int
  writer_at :: utw_pc
  writer_i :: nat
  reader_at :: utr_pc
  reader_i :: nat
  ooo_count :: int
  main_at :: utm_pc

section \<open>The lock\<close>

text \<open>The two ways to go through the loop of \<open>mutex_lock\<close>: taken, or 50 relaxes and again.\<close>

definition mutex_lock :: "bool \<Rightarrow> ut \<Rightarrow> ut" where
  "mutex_lock spurious s = (case writer_at s of
     W_lock \<Rightarrow>
       if lock_word s = 0 \<and> \<not> spurious then s\<lparr>lock_word := 1, writer_at := W_write\<rparr>
       else s\<lparr>writer_at := W_relax 0\<rparr>
   | W_relax i \<Rightarrow> if i < 50 then s\<lparr>writer_at := W_relax (i + 1)\<rparr> else s\<lparr>writer_at := W_lock\<rparr>
   | _ \<Rightarrow> s)"

definition mutex_unlock :: "ut \<Rightarrow> ut" where
  "mutex_unlock s = s\<lparr>lock_word := 0\<rparr>"

section \<open>The threads\<close>

definition thread_writer_ut :: "bool \<Rightarrow> ut \<Rightarrow> ut" where
  "thread_writer_ut spurious s = (case writer_at s of
     W_spin \<Rightarrow> if start_flag s = 0 then s else s\<lparr>writer_i := 0, writer_at := W_for\<rparr>
   | W_for \<Rightarrow> s\<lparr>writer_at := (if writer_i s < ITERATIONS \<and> bug_detected s = 0 then W_lock else W_returned)\<rparr>
   | W_lock \<Rightarrow> mutex_lock spurious s
   | W_relax i \<Rightarrow> mutex_lock spurious s
   | W_write \<Rightarrow> s\<lparr>data := word_of_nat (writer_i s) + 1, writer_at := W_publish\<rparr>
   | W_publish \<Rightarrow> s\<lparr>data_ready := 1, writer_at := W_unlock\<rparr>
   | W_unlock \<Rightarrow> (mutex_unlock s)\<lparr>writer_i := writer_i s + 1, writer_at := W_for\<rparr>
   | _ \<Rightarrow> s)"

definition thread_reader_ut :: "ut \<Rightarrow> ut" where
  "thread_reader_ut s = (case reader_at s of
     R_spin \<Rightarrow> if start_flag s = 0 then s else s\<lparr>reader_i := 0, ooo_count := 0, reader_at := R_for\<rparr>
   | R_for \<Rightarrow> s\<lparr>reader_at := (if reader_i s < ITERATIONS \<and> bug_detected s = 0 then R_relax else R_returned)\<rparr>
   | R_relax \<Rightarrow> s\<lparr>reader_at := R_poll\<rparr>
   | R_poll \<Rightarrow> s\<lparr>reader_at := (if data_ready s = 0 then R_relax else R_fetch (data_ready s))\<rparr>
   | R_fetch ready \<Rightarrow> s\<lparr>reader_at := R_clear ready (data s)\<rparr>
   | R_clear ready val \<Rightarrow> s\<lparr>data_ready := 0, reader_at := R_report ready val\<rparr>
   | R_report ready val \<Rightarrow>
       (if val = 0 \<and> ready = 1
        then s\<lparr>ooo_count := ooo_count s + 1,
               bug_detected := (if ooo_count s + 1 = 1 then 1 else bug_detected s),
               reader_i := reader_i s + 1, reader_at := R_for\<rparr>
        else s\<lparr>reader_i := reader_i s + 1, reader_at := R_for\<rparr>)
   | _ \<Rightarrow> s)"

text \<open>
  \<open>main\<close>, with the number of the test. It resets the objects while no thread runs, which is one
  step here.
\<close>

definition main_ut :: "ut \<Rightarrow> ut" where
  "main_ut s = (case main_at s of
     M_reset t \<Rightarrow> s\<lparr>lock_word := 0, data := 0, data_ready := 0, bug_detected := 0, start_flag := 0,
       main_at := M_writer t\<rparr>
   | M_writer t \<Rightarrow> s\<lparr>writer_at := W_spin, main_at := M_reader t\<rparr>
   | M_reader t \<Rightarrow> s\<lparr>reader_at := R_spin, main_at := M_start t\<rparr>
   | M_start t \<Rightarrow> s\<lparr>start_flag := 1, main_at := M_join_writer t\<rparr>
   | M_join_writer t \<Rightarrow> if writer_at s = W_returned then s\<lparr>main_at := M_join_reader t\<rparr> else s
   | M_join_reader t \<Rightarrow>
       if reader_at s = R_returned then s\<lparr>main_at := (if t = 1 then M_reset 2 else M_returned)\<rparr> else s
   | M_returned \<Rightarrow> s)"

inductive ut_step :: "ut \<Rightarrow> ut \<Rightarrow> bool" where
  main_moves: "ut_step s (main_ut s)"
| writer_moves: "ut_step s (thread_writer_ut spurious s)"
| reader_moves: "ut_step s (thread_reader_ut s)"

definition ut_init :: ut where
  "ut_init = \<lparr>lock_word = 0, data = 0, data_ready = 0, bug_detected = 0, start_flag = 0,
     writer_at = W_absent, writer_i = 0, reader_at = R_absent, reader_i = 0, ooo_count = 0, main_at = M_reset 1\<rparr>"

section \<open>No report\<close>

text \<open>
  The flag is raised only after nonzero data, and data is cleared only while no thread runs. The
  lock is held exactly between the writer's lock and unlock.
\<close>

definition resting :: "ut \<Rightarrow> bool" where
  "resting s \<longleftrightarrow> writer_at s \<in> {W_absent, W_returned} \<and> reader_at s \<in> {R_absent, R_returned}"

fun main_ok :: "utm_pc \<Rightarrow> ut \<Rightarrow> bool" where
  "main_ok (M_reset t) s \<longleftrightarrow> resting s"
| "main_ok (M_writer t) s \<longleftrightarrow> resting s \<and> start_flag s = 0 \<and> data_ready s = 0"
| "main_ok (M_reader t) s \<longleftrightarrow> writer_at s = W_spin \<and> reader_at s \<in> {R_absent, R_returned} \<and>
     start_flag s = 0 \<and> data_ready s = 0"
| "main_ok (M_start t) s \<longleftrightarrow> writer_at s = W_spin \<and> reader_at s = R_spin \<and> start_flag s = 0 \<and> data_ready s = 0"
| "main_ok (M_join_writer t) s \<longleftrightarrow> True"
| "main_ok (M_join_reader t) s \<longleftrightarrow> writer_at s = W_returned"
| "main_ok M_returned s \<longleftrightarrow> resting s"

fun in_round :: "utw_pc \<Rightarrow> bool" where
  "in_round W_lock \<longleftrightarrow> True" | "in_round (W_relax n) \<longleftrightarrow> True" | "in_round W_write \<longleftrightarrow> True"
| "in_round W_publish \<longleftrightarrow> True" | "in_round W_unlock \<longleftrightarrow> True" | "in_round _ \<longleftrightarrow> False"

definition writer_ok :: "ut \<Rightarrow> bool" where
  "writer_ok s \<longleftrightarrow> writer_i s \<le> ITERATIONS \<and>
     (in_round (writer_at s) \<longrightarrow> writer_i s < ITERATIONS) \<and>
     (writer_at s = W_publish \<longrightarrow> data s \<noteq> 0) \<and>
     (lock_word s = (if writer_at s \<in> {W_write, W_publish, W_unlock} then 1 else 0))"

definition reader_ok :: "ut \<Rightarrow> bool" where
  "reader_ok s \<longleftrightarrow> (data_ready s \<noteq> 0 \<longrightarrow> data s \<noteq> 0) \<and> (case reader_at s of
     R_fetch ready \<Rightarrow> data s \<noteq> 0 | R_clear ready val \<Rightarrow> val \<noteq> 0 | R_report ready val \<Rightarrow> val \<noteq> 0 | _ \<Rightarrow> True)"

definition ut_ok :: "ut \<Rightarrow> bool" where
  "ut_ok s \<longleftrightarrow> main_ok (main_at s) s \<and> writer_ok s \<and> reader_ok s \<and> bug_detected s = 0"

lemma value_nonzero: "i < ITERATIONS \<Longrightarrow> (word_of_nat i :: c_int) + 1 \<noteq> 0"
proof
  assume i: "i < ITERATIONS" and "(word_of_nat i :: c_int) + 1 = 0"
  then have "(word_of_nat (Suc i) :: c_int) = 0" by (simp add: add.commute)
  then have "2 ^ LENGTH(32) dvd Suc i" by (simp only: word_of_nat_eq_0_iff)
  then have "2 ^ 32 \<le> Suc i" by (auto dest: dvd_imp_le)
  then show False using i ITERATIONS_bounds(4) by linarith
qed

text \<open>Before \<open>main\<close> joins, the threads cannot move.\<close>

definition joining :: "utm_pc \<Rightarrow> bool" where
  "joining m \<longleftrightarrow> (\<exists>t. m = M_join_writer t \<or> m = M_join_reader t)"

lemma idle_writer: "main_ok m s \<Longrightarrow> \<not> joining m \<Longrightarrow> thread_writer_ut spurious s = s"
  by (cases m) (auto simp: thread_writer_ut_def resting_def joining_def)

lemma idle_reader: "main_ok m s \<Longrightarrow> \<not> joining m \<Longrightarrow> thread_reader_ut s = s"
  by (cases m) (auto simp: thread_reader_ut_def resting_def joining_def)

lemma main_ok_writer: "main_ok m s \<Longrightarrow> main_ok m (thread_writer_ut spurious s)"
  using idle_writer [of m s] by (cases m) (auto simp: joining_def thread_writer_ut_def)

lemma reader_keeps: "writer_at (thread_reader_ut s) = writer_at s" "writer_i (thread_reader_ut s) = writer_i s"
    "lock_word (thread_reader_ut s) = lock_word s" "data (thread_reader_ut s) = data s"
  by (simp_all add: thread_reader_ut_def split: utr_pc.split)

lemma main_ok_reader: "main_ok m s \<Longrightarrow> main_ok m (thread_reader_ut s)"
  using idle_reader [of m s] by (cases m) (auto simp: joining_def reader_keeps)

lemma writer_ok_writer: "writer_ok s \<Longrightarrow> writer_ok (thread_writer_ut spurious s)"
  using value_nonzero [of "writer_i s"]
  by (cases "writer_at s") (auto simp: writer_ok_def thread_writer_ut_def mutex_lock_def mutex_unlock_def)

lemma reader_ok_writer: "writer_ok s \<Longrightarrow> reader_ok s \<Longrightarrow> reader_ok (thread_writer_ut spurious s)"
  using value_nonzero [of "writer_i s"]
  by (cases "writer_at s")
    (auto simp: writer_ok_def reader_ok_def thread_writer_ut_def mutex_lock_def mutex_unlock_def split: utr_pc.splits)

lemma writer_ok_reader: "writer_ok s \<Longrightarrow> writer_ok (thread_reader_ut s)"
  by (simp add: writer_ok_def reader_keeps)

lemma reader_ok_reader: "reader_ok s \<Longrightarrow> reader_ok (thread_reader_ut s)"
  by (cases "reader_at s") (auto simp: reader_ok_def thread_reader_ut_def)

lemma no_report_reader: "reader_ok s \<Longrightarrow> bug_detected (thread_reader_ut s) = bug_detected s"
  by (cases "reader_at s") (auto simp: reader_ok_def thread_reader_ut_def)

lemma no_report_writer: "bug_detected (thread_writer_ut spurious s) = bug_detected s"
  by (cases "writer_at s") (simp_all add: thread_writer_ut_def mutex_lock_def mutex_unlock_def)

lemma main_steps:
  assumes "ut_ok s"
  shows "ut_ok (main_ut s)"
proof (cases "main_at s")
  case (M_reset t)
  with assms have r: "resting s" by (simp add: ut_ok_def)
  then have "writer_ok (main_ut s)" using assms M_reset
    by (auto simp: ut_ok_def writer_ok_def main_ut_def resting_def)
  moreover have "reader_ok (main_ut s)" using r M_reset by (auto simp: reader_ok_def main_ut_def resting_def)
  moreover have "main_ok (main_at (main_ut s)) (main_ut s)" using r M_reset by (simp add: main_ut_def resting_def)
  ultimately show ?thesis using M_reset by (simp add: ut_ok_def main_ut_def)
next
  case (M_join_writer t)
  then show ?thesis using assms
    by (simp add: ut_ok_def main_ut_def writer_ok_def reader_ok_def split: utr_pc.splits)
next
  case (M_join_reader t)
  then show ?thesis using assms
    by (simp add: ut_ok_def main_ut_def writer_ok_def reader_ok_def resting_def)
next
  case (M_writer t)
  with assms show ?thesis
    by (cases "writer_at s"; cases "reader_at s")
      (simp_all add: ut_ok_def main_ut_def writer_ok_def reader_ok_def resting_def)
next
  case (M_reader t)
  with assms show ?thesis
    by (cases "reader_at s") (simp_all add: ut_ok_def main_ut_def writer_ok_def reader_ok_def)
next
  case (M_start t)
  with assms show ?thesis
    by (simp add: ut_ok_def main_ut_def writer_ok_def reader_ok_def)
qed (use assms in \<open>simp add: main_ut_def\<close>)

lemma always_ut_ok: "always ut_step ut_init ut_ok"
proof (rule always_invariant)
  show "ut_ok ut_init" by (simp add: ut_ok_def ut_init_def writer_ok_def reader_ok_def resting_def)
next
  fix a b assume a: "ut_ok a" and "ut_step a b"
  from this(2) show "ut_ok b"
  proof cases
    case main_moves
    with a main_steps show ?thesis by simp
  next
    case (writer_moves spurious)
    moreover have "main_at b = main_at a" using writer_moves
      by (cases "writer_at a") (simp_all add: thread_writer_ut_def mutex_lock_def mutex_unlock_def)
    ultimately show ?thesis using a main_ok_writer writer_ok_writer reader_ok_writer no_report_writer
      by (simp add: ut_ok_def)
  next
    case reader_moves
    moreover have "main_at b = main_at a" using reader_moves
      by (simp add: thread_reader_ut_def split: utr_pc.split)
    ultimately show ?thesis using a main_ok_reader writer_ok_reader reader_ok_reader no_report_reader
      by (simp add: ut_ok_def)
  qed
qed

section \<open>An execution that hangs\<close>

lemma writer_reach: "ut_step\<^sup>*\<^sup>* s ((thread_writer_ut False ^^ k) s)"
  by (induction k) (auto intro: rtranclp.rtrancl_into_rtrancl writer_moves)

lemma reader_reach: "ut_step\<^sup>*\<^sup>* s ((thread_reader_ut ^^ k) s)"
  by (induction k) (auto intro: rtranclp.rtrancl_into_rtrancl reader_moves)

lemma main_reach: "ut_step\<^sup>*\<^sup>* s ((main_ut ^^ k) s)"
  by (induction k) (auto intro: rtranclp.rtrancl_into_rtrancl main_moves)

lemma writer_round:
  assumes "writer_at s = W_for" "writer_i s < ITERATIONS" "bug_detected s = 0" "lock_word s = 0"
  shows "(thread_writer_ut False ^^ 5) s =
    s\<lparr>data := word_of_nat (writer_i s) + 1, data_ready := 1, writer_i := writer_i s + 1\<rparr>"
  using assms by (cases s) (simp add: thread_writer_ut_def mutex_lock_def mutex_unlock_def numeral_eq_Suc)

lemma writer_rounds:
  assumes "writer_at s = W_for" "writer_i s + k \<le> ITERATIONS" "bug_detected s = 0" "lock_word s = 0"
  shows "\<exists>d r. ut_step\<^sup>*\<^sup>* s (s\<lparr>data := d, data_ready := r, writer_i := writer_i s + k\<rparr>) \<and> (r = 1 \<and> d \<noteq> 0 \<or> k = 0)"
  using assms(2)
proof (induction k)
  case 0
  have "s = s\<lparr>data := data s, data_ready := data_ready s, writer_i := writer_i s\<rparr>" by simp
  then show ?case by (metis add_0_right rtranclp.rtrancl_refl)
next
  case (Suc k)
  then obtain d r where r: "ut_step\<^sup>*\<^sup>* s (s\<lparr>data := d, data_ready := r, writer_i := writer_i s + k\<rparr>)" by auto
  let ?t = "s\<lparr>data := d, data_ready := r, writer_i := writer_i s + k\<rparr>"
  have "(thread_writer_ut False ^^ 5) ?t = s\<lparr>data := word_of_nat (writer_i s + k) + 1, data_ready := 1,
      writer_i := writer_i s + Suc k\<rparr>"
    using writer_round [of ?t] assms Suc.prems by simp
  moreover have "word_of_nat (writer_i s + k) + 1 \<noteq> (0 :: c_int)"
    by (rule value_nonzero) (use Suc.prems in simp)
  ultimately show ?case using rtranclp_trans [OF r writer_reach [of ?t 5]] by (intro exI conjI disjI1) simp_all
qed

definition both_started :: ut where
  "both_started = ut_init\<lparr>start_flag := 1, writer_at := W_for, reader_at := R_spin, main_at := M_join_writer 1\<rparr>"

lemma both_started_reach: "ut_step\<^sup>*\<^sup>* ut_init both_started"
proof -
  have "both_started = thread_writer_ut False ((main_ut ^^ 4) ut_init)"
    by (simp add: both_started_def ut_init_def main_ut_def thread_writer_ut_def numeral_eq_Suc)
  with main_reach [of ut_init 4] writer_moves [of "(main_ut ^^ 4) ut_init" False] show ?thesis
    by (metis rtranclp.rtrancl_into_rtrancl)
qed

lemma writer_returns:
  "writer_at s = W_for \<Longrightarrow> writer_i s = ITERATIONS \<Longrightarrow> thread_writer_ut b s = s\<lparr>writer_at := W_returned\<rparr>"
  by (simp add: thread_writer_ut_def)

lemma reader_round:
  assumes "reader_at s = R_spin" "start_flag s = 1" "data_ready s = 1" "data s \<noteq> 0" "bug_detected s = 0"
  shows "(thread_reader_ut ^^ 8) s = s\<lparr>ooo_count := 0, reader_i := 1, data_ready := 0, reader_at := R_relax\<rparr>"
  using assms by (cases s) (simp add: thread_reader_ut_def numeral_eq_Suc)

definition starved :: "ut \<Rightarrow> bool" where
  "starved s \<longleftrightarrow> main_at s = M_join_reader 1 \<and> writer_at s = W_returned \<and> reader_at s \<in> {R_relax, R_poll} \<and>
     data_ready s = 0 \<and> reader_i s = 1"

lemma starved_step: "starved s \<Longrightarrow> ut_step s s' \<Longrightarrow> starved s'"
  by (erule ut_step.cases) (auto simp: starved_def main_ut_def thread_writer_ut_def thread_reader_ut_def)

lemma starved_reach: "\<exists>c. ut_step\<^sup>*\<^sup>* ut_init c \<and> starved c"
proof -
  obtain d r where r: "ut_step\<^sup>*\<^sup>* both_started (both_started\<lparr>data := d, data_ready := r, writer_i := ITERATIONS\<rparr>)"
    "r = 1" "d \<noteq> 0"
    using writer_rounds [of both_started ITERATIONS] by (auto simp: both_started_def ut_init_def)
  let ?t = "both_started\<lparr>data := d, data_ready := 1, writer_i := ITERATIONS\<rparr>"
  let ?u = "?t\<lparr>writer_at := W_returned\<rparr>"
  let ?v = "?u\<lparr>ooo_count := 0, reader_i := 1, data_ready := 0, reader_at := R_relax\<rparr>"
  have "thread_writer_ut False ?t = ?u" by (rule writer_returns) (simp_all add: both_started_def)
  then have "ut_step\<^sup>*\<^sup>* ?t ?u" by (metis writer_moves r_into_rtranclp)
  also have "ut_step\<^sup>*\<^sup>* ?u ?v"
    using reader_reach [of ?u 8] reader_round [of ?u] r(3) by (simp add: both_started_def ut_init_def)
  also have "ut_step\<^sup>*\<^sup>* ?v (main_ut ?v)" by (intro r_into_rtranclp main_moves)
  finally have "ut_step\<^sup>*\<^sup>* ?t (main_ut ?v)" .
  moreover have "starved (main_ut ?v)"
    by (simp add: starved_def both_started_def main_ut_def)
  ultimately show ?thesis using both_started_reach r by (meson rtranclp_trans)
qed

section \<open>Properties\<close>

text \<open>
  C19. Under sequential consistency neither test reports the bug, whichever relax function is used and
  whatever fails spuriously; and the lock word is 1 exactly while the writer is in its critical
  section.
\<close>

theorem ut_no_report:
  "always ut_step ut_init (\<lambda>c. bug_detected c = 0 \<and>
     lock_word c = (if writer_at c \<in> {W_write, W_publish, W_unlock} then 1 else 0))"
  by (rule always_mono [OF always_ut_ok]) (simp add: ut_ok_def writer_ok_def)

text \<open>
  But the program need not end: a writer that runs ahead finishes all its rounds while the reader
  makes one, and the reader then waits forever for data that is not published any more.
\<close>

theorem ut_hangs:
  "\<exists>c. ut_step\<^sup>*\<^sup>* ut_init c \<and> always ut_step c (\<lambda>d. main_at d = M_join_reader 1 \<and>
     writer_at d = W_returned \<and> reader_at d \<in> {R_relax, R_poll} \<and> data_ready d = 0 \<and> reader_i d = 1)"
proof -
  obtain c where c: "ut_step\<^sup>*\<^sup>* ut_init c" "starved c" using starved_reach by blast
  have "always ut_step c (\<lambda>d. main_at d = M_join_reader 1 \<and>
     writer_at d = W_returned \<and> reader_at d \<in> {R_relax, R_poll} \<and> data_ready d = 0 \<and> reader_i d = 1)"
    by (rule always_invariant [of starved, OF c(2)]) (rule starved_step, assumption+, simp add: starved_def)
  with c(1) show ?thesis by blast
qed

end
