(* ===== verification/Sofa_Test.thy ===== *)
theory Sofa_Test
  imports Transition_Systems
begin

text \<open>
  The test of sofa-pbrpc, \<open>Layer1/29-sofa_pbrpc_hang.c\<close>, under sequential consistency. \<open>main\<close>
  repeats for ever: reset, create the two threads, release them, join them, and report if
  neither has done the work. The round number, a \<open>long\<close>, is a mathematical integer.
\<close>

section \<open>The program\<close>

datatype sofa_pc = Absent | Barrier | Store | Load | Decide c_int | Returned

datatype sofa_main_pc =
  Reset_count | Reset_token | Reset_work | Reset_barrier | Create_first | Create_second | Release
| Join_first | Join_second | Check | Exited

record sofa =
  pending_message_count :: c_int
  send_token :: c_int
  work_done :: c_int
  start_barrier :: c_int
  sender :: sofa_pc
  getter :: sofa_pc
  sofa_main :: sofa_main_pc
  sofa_iterations :: int

definition thread_try_start_send_sofa :: "sofa \<Rightarrow> sofa" where
  "thread_try_start_send_sofa s = (case sender s of
     Barrier \<Rightarrow> if start_barrier s = 0 then s else s\<lparr>sender := Store\<rparr>
   | Store \<Rightarrow> s\<lparr>pending_message_count := 1, sender := Load\<rparr>
   | Load \<Rightarrow> s\<lparr>sender := Decide (send_token s)\<rparr>
   | Decide token \<Rightarrow> if token = 0 then s\<lparr>work_done := 1, sender := Returned\<rparr> else s\<lparr>sender := Returned\<rparr>
   | _ \<Rightarrow> s)"

definition thread_get_from_queue_sofa :: "sofa \<Rightarrow> sofa" where
  "thread_get_from_queue_sofa s = (case getter s of
     Barrier \<Rightarrow> if start_barrier s = 0 then s else s\<lparr>getter := Store\<rparr>
   | Store \<Rightarrow> s\<lparr>send_token := 0, getter := Load\<rparr>
   | Load \<Rightarrow> s\<lparr>getter := Decide (pending_message_count s)\<rparr>
   | Decide count \<Rightarrow>
       if signed_less 0 count then s\<lparr>work_done := 1, getter := Returned\<rparr> else s\<lparr>getter := Returned\<rparr>
   | _ \<Rightarrow> s)"

definition main_sofa_test :: "sofa \<Rightarrow> sofa" where
  "main_sofa_test s = (case sofa_main s of
     Reset_count \<Rightarrow> s\<lparr>sofa_iterations := sofa_iterations s + 1, pending_message_count := 0, sofa_main := Reset_token\<rparr>
   | Reset_token \<Rightarrow> s\<lparr>send_token := 1, sofa_main := Reset_work\<rparr>
   | Reset_work \<Rightarrow> s\<lparr>work_done := 0, sofa_main := Reset_barrier\<rparr>
   | Reset_barrier \<Rightarrow> s\<lparr>start_barrier := 0, sofa_main := Create_first\<rparr>
   | Create_first \<Rightarrow> s\<lparr>sender := Barrier, sofa_main := Create_second\<rparr>
   | Create_second \<Rightarrow> s\<lparr>getter := Barrier, sofa_main := Release\<rparr>
   | Release \<Rightarrow> s\<lparr>start_barrier := 1, sofa_main := Join_first\<rparr>
   | Join_first \<Rightarrow> if sender s = Returned then s\<lparr>sofa_main := Join_second\<rparr> else s
   | Join_second \<Rightarrow> if getter s = Returned then s\<lparr>sofa_main := Check\<rparr> else s
   | Check \<Rightarrow> s\<lparr>sofa_main := (if work_done s = 0 then Exited else Reset_count)\<rparr>
   | Exited \<Rightarrow> s)"

inductive sofa_step :: "sofa \<Rightarrow> sofa \<Rightarrow> bool" where
  sends: "sofa_main s \<noteq> Exited \<Longrightarrow> sofa_step s (thread_try_start_send_sofa s)"
| gets: "sofa_main s \<noteq> Exited \<Longrightarrow> sofa_step s (thread_get_from_queue_sofa s)"
| tests: "sofa_main s \<noteq> Exited \<Longrightarrow> sofa_step s (main_sofa_test s)"

definition sofa_init :: sofa where
  "sofa_init = \<lparr>pending_message_count = 0, send_token = 1, work_done = 0, start_barrier = 0,
     sender = Absent, getter = Absent, sofa_main = Reset_count, sofa_iterations = 0\<rparr>"

section \<open>The thread that loads last does the work\<close>

fun stored :: "sofa_pc \<Rightarrow> bool" where
  "stored Load = True" | "stored (Decide v) = True" | "stored Returned = True" | "stored _ = False"

text \<open>
  A thread has given up when it has decided not to do the work; then the other thread has not
  loaded yet, or has seen its store, or has done the work.
\<close>

definition run_ok :: "sofa \<Rightarrow> bool" where
  "run_ok s \<longleftrightarrow>
     pending_message_count s = (if stored (sender s) then 1 else 0) \<and>
     send_token s = (if stored (getter s) then 0 else 1) \<and>
     (\<forall>t. sender s = Decide t \<longrightarrow> t = 0 \<or> (\<forall>c. getter s = Decide c \<longrightarrow> c = 1)) \<and>
     (\<forall>c. getter s = Decide c \<longrightarrow> c = 1 \<or> c = 0 \<and> (\<forall>t. sender s = Decide t \<longrightarrow> t = 0)) \<and>
     (\<forall>t. sender s = Decide t \<and> getter s = Returned \<longrightarrow> t = 0 \<or> work_done s = 1) \<and>
     (\<forall>c. getter s = Decide c \<and> sender s = Returned \<longrightarrow> c = 1 \<or> work_done s = 1) \<and>
     (sender s = Returned \<and> getter s = Returned \<longrightarrow> work_done s = 1)"

fun sofa_ok :: "sofa_main_pc \<Rightarrow> sofa \<Rightarrow> bool" where
  "sofa_ok Reset_count s \<longleftrightarrow> \<not> (stored (sender s) \<and> sender s \<noteq> Returned) \<and> sender s \<in> {Absent, Returned} \<and>
     getter s \<in> {Absent, Returned}"
| "sofa_ok Reset_token s \<longleftrightarrow> sender s \<in> {Absent, Returned} \<and> getter s \<in> {Absent, Returned} \<and> pending_message_count s = 0"
| "sofa_ok Reset_work s \<longleftrightarrow> sender s \<in> {Absent, Returned} \<and> getter s \<in> {Absent, Returned} \<and>
     pending_message_count s = 0 \<and> send_token s = 1"
| "sofa_ok Reset_barrier s \<longleftrightarrow> sender s \<in> {Absent, Returned} \<and> getter s \<in> {Absent, Returned} \<and>
     pending_message_count s = 0 \<and> send_token s = 1"
| "sofa_ok Create_first s \<longleftrightarrow> sender s \<in> {Absent, Returned} \<and> getter s \<in> {Absent, Returned} \<and>
     pending_message_count s = 0 \<and> send_token s = 1 \<and> start_barrier s = 0"
| "sofa_ok Create_second s \<longleftrightarrow> sender s = Barrier \<and> getter s \<in> {Absent, Returned} \<and>
     pending_message_count s = 0 \<and> send_token s = 1 \<and> start_barrier s = 0"
| "sofa_ok Release s \<longleftrightarrow> sender s = Barrier \<and> getter s = Barrier \<and>
     pending_message_count s = 0 \<and> send_token s = 1 \<and> start_barrier s = 0"
| "sofa_ok Join_first s \<longleftrightarrow> run_ok s"
| "sofa_ok Join_second s \<longleftrightarrow> run_ok s \<and> sender s = Returned"
| "sofa_ok Check s \<longleftrightarrow> sender s = Returned \<and> getter s = Returned \<and> work_done s = 1"
| "sofa_ok Exited s \<longleftrightarrow> False"

lemma run_ok_send:
  assumes "run_ok s"
  shows "run_ok (thread_try_start_send_sofa s)"
  using assms by (cases "sender s"; cases "getter s") (auto simp: run_ok_def thread_try_start_send_sofa_def)

lemma run_ok_get:
  assumes "run_ok s"
  shows "run_ok (thread_get_from_queue_sofa s)"
  using assms
  by (cases "getter s"; cases "sender s") (auto simp: run_ok_def thread_get_from_queue_sofa_def signed_less_def)

text \<open>Before the release no thread moves.\<close>

lemma sofa_ok_idle:
  assumes "sofa_ok p s" "p \<notin> {Join_first, Join_second}"
  shows "thread_try_start_send_sofa s = s" "thread_get_from_queue_sofa s = s"
  using assms by (cases p; auto simp: thread_try_start_send_sofa_def thread_get_from_queue_sofa_def)+

lemma sofa_frame:
  "sofa_main (thread_try_start_send_sofa s) = sofa_main s" "sofa_main (thread_get_from_queue_sofa s) = sofa_main s"
  "sender s = Returned \<Longrightarrow> sender (thread_try_start_send_sofa s) = Returned"
  "sender (thread_get_from_queue_sofa s) = sender s"
  by (simp_all add: thread_try_start_send_sofa_def thread_get_from_queue_sofa_def split: sofa_pc.split)

lemma sofa_ok_main:
  assumes "sofa_ok (sofa_main s) s"
  shows "sofa_ok (sofa_main (main_sofa_test s)) (main_sofa_test s)"
  using assms by (cases "sofa_main s") (auto simp: main_sofa_test_def run_ok_def)

lemma sofa_ok_step:
  assumes "sofa_step s s'" "sofa_ok (sofa_main s) s"
  shows "sofa_ok (sofa_main s') s'"
  using assms(1)
proof cases
  case sends
  with assms(2) sofa_ok_idle(1) [OF assms(2)] show ?thesis
    by (cases "sofa_main s") (auto simp: sofa_frame intro: run_ok_send)
next
  case gets
  with assms(2) sofa_ok_idle(2) [OF assms(2)] show ?thesis
    by (cases "sofa_main s") (auto simp: sofa_frame intro: run_ok_get)
next
  case tests
  with sofa_ok_main [OF assms(2)] show ?thesis by simp
qed

lemma always_sofa_ok: "always sofa_step sofa_init (\<lambda>s. sofa_ok (sofa_main s) s)"
  by (rule always_invariant [of "\<lambda>s. sofa_ok (sofa_main s) s"]) (auto simp: sofa_init_def intro: sofa_ok_step)

section \<open>Properties\<close>

text \<open>
  Under sequential consistency the sofa-pbrpc test never reports a lost message, however many
  rounds it makes: when both threads have returned, one of them has done the work.
\<close>

theorem sofa_no_report: "always sofa_step sofa_init (\<lambda>c. sofa_main c \<noteq> Exited)"
  by (rule always_mono [OF always_sofa_ok]) auto

end
