(* ===== verification/Point_Test.thy ===== *)
theory Point_Test
  imports Transition_Systems
begin

text \<open>
  The two tests of unsafe publication of a point, under sequential consistency:
  \<open>Layer1/31-unsafe_publish.c\<close>, whose writer takes its points from an array and starts again at
  its beginning, and \<open>Layer1/5-StackOverFlowEasy.c\<close>, whose writer allocates each point. The
  coordinates are mathematical integers (the overflow of an \<open>int\<close> is undefined).
\<close>

section \<open>The array of points\<close>

definition ARENA_SIZE :: nat where
  "ARENA_SIZE = 1000000"

lemma ARENA_SIZE_pos [simp]: "0 < ARENA_SIZE" "1 < ARENA_SIZE" "Suc 0 < ARENA_SIZE" "ARENA_SIZE \<noteq> Suc 0"
  by (simp_all add: ARENA_SIZE_def)

datatype writer_pc = Write_x | Write_y | Publish

datatype reader_pc = Await_point | Read_pointer | Read_x nat | Read_y nat int | Report

record arena =
  arena_x :: "nat \<Rightarrow> int"
  arena_y :: "nat \<Rightarrow> int"
  current_pos :: "nat option"
  writer_at :: writer_pc
  idx :: nat
  seed :: int
  reader_at :: reader_pc
  writer_created :: bool

definition writer_arena :: "arena \<Rightarrow> arena" where
  "writer_arena s = (case writer_at s of
     Write_x \<Rightarrow> s\<lparr>arena_x := (arena_x s)(idx s := seed s), writer_at := Write_y\<rparr>
   | Write_y \<Rightarrow> s\<lparr>arena_y := (arena_y s)(idx s := seed s + 1), writer_at := Publish\<rparr>
   | Publish \<Rightarrow> s\<lparr>current_pos := Some (idx s), idx := (idx s + 1) mod ARENA_SIZE, seed := seed s + 1,
       writer_at := Write_x\<rparr>)"

definition reader_arena :: "arena \<Rightarrow> arena" where
  "reader_arena s = (case reader_at s of
     Await_point \<Rightarrow> if current_pos s = None then s else s\<lparr>reader_at := Read_pointer\<rparr>
   | Read_pointer \<Rightarrow> (case current_pos s of None \<Rightarrow> s | Some p \<Rightarrow> s\<lparr>reader_at := Read_x p\<rparr>)
   | Read_x p \<Rightarrow> s\<lparr>reader_at := Read_y p (arena_x s p)\<rparr>
   | Read_y p x \<Rightarrow> s\<lparr>reader_at := (if x + 1 \<noteq> arena_y s p then Report else Read_pointer)\<rparr>
   | Report \<Rightarrow> s)"

text \<open>\<open>main\<close> creates the reader before the writer; the reader's \<open>exit\<close> ends the program.\<close>

inductive arena_step :: "arena \<Rightarrow> arena \<Rightarrow> bool" where
  arena_create: "\<not> writer_created s \<Longrightarrow> reader_at s \<noteq> Report \<Longrightarrow> arena_step s (s\<lparr>writer_created := True\<rparr>)"
| arena_write: "writer_created s \<Longrightarrow> reader_at s \<noteq> Report \<Longrightarrow> arena_step s (writer_arena s)"
| arena_read: "reader_at s \<noteq> Report \<Longrightarrow> arena_step s (reader_arena s)"

definition arena_init :: arena where
  "arena_init = \<lparr>arena_x = (\<lambda>_. 0), arena_y = (\<lambda>_. 0), current_pos = None, writer_at = Write_x, idx = 0, seed = 1,
     reader_at = Await_point, writer_created = False\<rparr>"

text \<open>
  During its first lap the writer never writes to a point that it has published: the points
  below \<open>idx\<close> are complete, and the reader has none of the others.
\<close>

definition published :: "arena \<Rightarrow> nat \<Rightarrow> bool" where
  "published s p \<longleftrightarrow> p < idx s \<and> arena_x s p + 1 = arena_y s p"

definition reader_holds :: "arena \<Rightarrow> bool" where
  "reader_holds s \<longleftrightarrow> (case reader_at s of
     Read_x p \<Rightarrow> published s p | Read_y p x \<Rightarrow> published s p \<and> x = arena_x s p | Report \<Rightarrow> False | _ \<Rightarrow> True)"

definition first_lap :: "arena \<Rightarrow> bool" where
  "first_lap s \<longleftrightarrow> seed s = int (idx s) + 1 \<and> idx s < ARENA_SIZE \<and>
     (\<forall>p<idx s. arena_x s p + 1 = arena_y s p) \<and>
     (writer_at s \<noteq> Write_x \<longrightarrow> arena_x s (idx s) = seed s) \<and>
     (writer_at s = Publish \<longrightarrow> arena_y s (idx s) = seed s + 1) \<and>
     (\<forall>p. current_pos s = Some p \<longrightarrow> published s p) \<and> reader_holds s"

definition arena_ok :: "arena \<Rightarrow> bool" where
  "arena_ok s \<longleftrightarrow> first_lap s \<or> int ARENA_SIZE < seed s"

lemma published_later:
  assumes "published s p" "idx s \<le> idx s'" "\<And>q. q < idx s \<Longrightarrow> arena_x s' q = arena_x s q \<and> arena_y s' q = arena_y s q"
  shows "published s' p"
  using assms by (auto simp: published_def)

lemma writer_frame:
  assumes "idx s + 1 < ARENA_SIZE \<or> writer_at s \<noteq> Publish"
  shows "idx s \<le> idx (writer_arena s)"
    and "q < idx s \<Longrightarrow> arena_x (writer_arena s) q = arena_x s q \<and> arena_y (writer_arena s) q = arena_y s q"
    and "reader_at (writer_arena s) = reader_at s"
  using assms by (cases "writer_at s"; simp add: writer_arena_def)+

lemma first_lap_write:
  assumes "first_lap s"
  shows "arena_ok (writer_arena s)"
proof (cases "writer_at s = Publish \<and> \<not> idx s + 1 < ARENA_SIZE")
  case True
  then have "int (idx s) + 1 = int ARENA_SIZE" using assms by (auto simp: first_lap_def)
  then show ?thesis using assms True by (simp add: arena_ok_def first_lap_def writer_arena_def)
next
  case False
  then have n: "idx s + 1 < ARENA_SIZE \<or> writer_at s \<noteq> Publish" by blast
  note frame = writer_frame [OF n]
  have p: "published (writer_arena s) q" if "published s q" for q
    using published_later [OF that frame(1,2)] .
  have r: "arena_x (writer_arena s) q = arena_x s q" if "published s q" for q
    using that frame(2) by (simp add: published_def)
  have reader: "reader_holds (writer_arena s)"
    using assms p r frame(3) by (auto simp: first_lap_def reader_holds_def split: reader_pc.splits)
  have "first_lap (writer_arena s)"
  proof (cases "writer_at s")
    case Write_x
    with assms reader p show ?thesis by (simp add: first_lap_def writer_arena_def)
  next
    case Write_y
    with assms reader p show ?thesis by (simp add: first_lap_def writer_arena_def)
  next
    case Publish
    then have "(idx s + 1) mod ARENA_SIZE = idx s + 1" using n by simp
    moreover have "arena_x s (idx s) + 1 = arena_y s (idx s)" using assms Publish by (simp add: first_lap_def)
    ultimately show ?thesis using assms reader Publish n
      by (simp add: first_lap_def writer_arena_def published_def less_Suc_eq)
  qed
  then show ?thesis by (simp add: arena_ok_def)
qed

lemma first_lap_read: "first_lap s \<Longrightarrow> first_lap (reader_arena s)"
  by (cases "reader_at s") (auto simp: first_lap_def reader_holds_def reader_arena_def published_def split: option.split)

lemma arena_ok_step: "arena_step s s' \<Longrightarrow> arena_ok s \<Longrightarrow> arena_ok s'"
proof (erule arena_step.cases)
  fix t assume "arena_ok s" "s = t" "s' = writer_arena t"
  moreover have "seed t \<le> seed (writer_arena t)" by (simp add: writer_arena_def split: writer_pc.split)
  ultimately show "arena_ok s'" using first_lap_write [of t] by (auto simp: arena_ok_def)
next
  fix t assume "arena_ok s" "s = t" "s' = reader_arena t"
  moreover have "seed (reader_arena t) = seed t"
    by (simp add: reader_arena_def split: reader_pc.split option.split)
  ultimately show "arena_ok s'" using first_lap_read [of t] by (auto simp: arena_ok_def)
next
  fix t assume "arena_ok s" "s = t" "s' = t\<lparr>writer_created := True\<rparr>"
  then show "arena_ok s'"
    by (cases "reader_at t") (auto simp: arena_ok_def first_lap_def reader_holds_def published_def)
qed

text \<open>
  Under sequential consistency the reader of the array reports a torn point only after
  the writer has gone once through the whole array.
\<close>

theorem arena_early:
  "always arena_step arena_init (\<lambda>c. reader_at c = Report \<longrightarrow> int ARENA_SIZE < seed c)"
proof (rule always_invariant)
  show "arena_ok arena_init" by (simp add: arena_ok_def first_lap_def reader_holds_def arena_init_def)
next
  fix a b assume "arena_ok a" "arena_step a b"
  then show "arena_ok b" by (blast intro: arena_ok_step)
qed (auto simp: arena_ok_def first_lap_def reader_holds_def)

text \<open>A full lap of the writer while the reader holds the first point.\<close>

lemma writes_reach:
  assumes "writer_created s" "reader_at s \<noteq> Report"
  shows "arena_step\<^sup>*\<^sup>* s ((writer_arena ^^ k) s) \<and> writer_created ((writer_arena ^^ k) s) \<and>
    reader_at ((writer_arena ^^ k) s) = reader_at s"
proof (induction k)
  case (Suc k)
  let ?t = "(writer_arena ^^ k) s"
  have "writer_created (writer_arena t) = writer_created t" "reader_at (writer_arena t) = reader_at t" for t
    by (simp_all add: writer_arena_def split: writer_pc.split)
  moreover have "arena_step ?t (writer_arena ?t)" using arena_write [of ?t] Suc assms(2) by simp
  ultimately show ?case using Suc by (auto intro: rtranclp.rtrancl_into_rtrancl)
qed (use assms in simp)

lemma arena_round:
  "writer_at s = Write_x \<Longrightarrow> (writer_arena ^^ 3) s = s\<lparr>arena_x := (arena_x s)(idx s := seed s),
    arena_y := (arena_y s)(idx s := seed s + 1), current_pos := Some (idx s), idx := (idx s + 1) mod ARENA_SIZE,
    seed := seed s + 1\<rparr>"
  by (cases s) (simp add: writer_arena_def numeral_3_eq_3)

lemma writer_laps:
  assumes "writer_at s = Write_x" "0 < idx s" "idx s + k \<le> ARENA_SIZE" "idx s < ARENA_SIZE"
    "writer_created s" "reader_at s \<noteq> Report"
  shows "\<exists>x y c. y 0 = arena_y s 0 \<and> arena_step\<^sup>*\<^sup>* s (s\<lparr>arena_x := x, arena_y := y, current_pos := c,
    idx := (idx s + k) mod ARENA_SIZE, seed := seed s + int k\<rparr>)"
  using assms(3)
proof (induction k)
  case 0
  have "s = s\<lparr>arena_x := arena_x s, arena_y := arena_y s, current_pos := current_pos s,
      idx := (idx s + 0) mod ARENA_SIZE, seed := seed s + int 0\<rparr>" using assms(4) by simp
  then show ?case by (metis rtranclp.rtrancl_refl)
next
  case (Suc k)
  then obtain x y c where i: "y 0 = arena_y s 0" "arena_step\<^sup>*\<^sup>* s (s\<lparr>arena_x := x, arena_y := y, current_pos := c,
      idx := (idx s + k) mod ARENA_SIZE, seed := seed s + int k\<rparr>)" by auto
  let ?t = "s\<lparr>arena_x := x, arena_y := y, current_pos := c, idx := (idx s + k) mod ARENA_SIZE, seed := seed s + int k\<rparr>"
  have j: "(idx s + k) mod ARENA_SIZE = idx s + k" using Suc.prems by simp
  have "arena_step\<^sup>*\<^sup>* ?t ((writer_arena ^^ 3) ?t)" using writes_reach [of ?t 3] assms by simp
  moreover have "(writer_arena ^^ 3) ?t = s\<lparr>arena_x := x(idx s + k := seed s + int k),
      arena_y := y(idx s + k := seed s + int k + 1), current_pos := Some (idx s + k),
      idx := (idx s + Suc k) mod ARENA_SIZE, seed := seed s + int (Suc k)\<rparr>" (is "_ = ?u")
    using arena_round [of ?t] assms(1) j by (simp add: add.assoc)
  ultimately have "arena_step\<^sup>*\<^sup>* s ?u" using i(2) by (metis (no_types) rtranclp_trans)
  moreover have "(y(idx s + k := seed s + int k + 1)) 0 = arena_y s 0" using i(1) assms(2) by simp
  ultimately show ?case by (intro exI conjI)
qed

lemma arena_alarm: "\<exists>c. arena_step\<^sup>*\<^sup>* arena_init c \<and> reader_at c = Report \<and> seed c = int ARENA_SIZE + 1"
proof -
  let ?a = "arena_init\<lparr>writer_created := True\<rparr>"
  let ?b = "(writer_arena ^^ 3) ?a"
  let ?c = "?b\<lparr>reader_at := Read_x 0\<rparr>"
  have b: "?b = ?a\<lparr>arena_x := (\<lambda>_. 0)(0 := 1), arena_y := (\<lambda>_. 0)(0 := 2), current_pos := Some 0, idx := 1, seed := 2\<rparr>"
    using arena_round [of ?a] by (simp add: arena_init_def)
  have "arena_step\<^sup>*\<^sup>* arena_init ?a" using arena_create [of arena_init] by (auto simp: arena_init_def)
  also have "arena_step\<^sup>*\<^sup>* ?a ?b" using writes_reach [of ?a 3] by (simp add: arena_init_def)
  also have "arena_step\<^sup>*\<^sup>* ?b ?c"
  proof -
    have "arena_step ?b (?b\<lparr>reader_at := Read_pointer\<rparr>)"
      using arena_read [of ?b] unfolding b by (simp add: reader_arena_def arena_init_def)
    moreover have "arena_step (?b\<lparr>reader_at := Read_pointer\<rparr>) ?c"
      using arena_read [of "?b\<lparr>reader_at := Read_pointer\<rparr>"] unfolding b by (simp add: reader_arena_def arena_init_def)
    ultimately show ?thesis by (meson converse_rtranclp_into_rtranclp r_into_rtranclp)
  qed
  finally have c: "arena_step\<^sup>*\<^sup>* arena_init ?c" .
  have "writer_at ?c = Write_x" "idx ?c = 1" "writer_created ?c" "reader_at ?c = Read_x 0" "seed ?c = 2" "arena_y ?c 0 = 2"
    unfolding b by (simp_all add: arena_init_def)
  moreover have "(1 + (ARENA_SIZE - 1)) mod ARENA_SIZE = 0" "2 + int (ARENA_SIZE - 1) = int ARENA_SIZE + 1"
    "1 + (ARENA_SIZE - 1) \<le> ARENA_SIZE" using ARENA_SIZE_pos(1)
    by (simp_all add: int_ops(6) Suc_leI)
  ultimately have "\<exists>x y p. y 0 = 2 \<and>
    arena_step\<^sup>*\<^sup>* ?c (?c\<lparr>arena_x := x, arena_y := y, current_pos := p, idx := 0, seed := int ARENA_SIZE + 1\<rparr>)"
    using writer_laps [of ?c "ARENA_SIZE - 1"] by (simp only: ARENA_SIZE_pos zero_less_one reader_pc.distinct simp_thms)
  then obtain x y p where y: "y 0 = 2"
    "arena_step\<^sup>*\<^sup>* ?c (?c\<lparr>arena_x := x, arena_y := y, current_pos := p, idx := 0, seed := int ARENA_SIZE + 1\<rparr>)"
    by blast
  let ?d = "?c\<lparr>arena_x := x, arena_y := y, current_pos := p, idx := 0, seed := int ARENA_SIZE + 1\<rparr>"
  let ?e = "?d\<lparr>arena_x := x(0 := int ARENA_SIZE + 1), writer_at := Write_y\<rparr>"
  let ?f = "?e\<lparr>reader_at := Read_y 0 (int ARENA_SIZE + 1)\<rparr>" and ?g = "?e\<lparr>reader_at := Report\<rparr>"
  have "arena_step ?d ?e"
    using arena_write [of ?d] unfolding b by (simp add: writer_arena_def arena_init_def)
  moreover have "arena_step ?e ?f"
    using arena_read [of ?e] unfolding b by (simp add: reader_arena_def arena_init_def)
  moreover have "arena_step ?f ?g"
    using arena_read [of ?f] y(1) unfolding b by (simp add: reader_arena_def arena_init_def)
  ultimately have "arena_step\<^sup>*\<^sup>* ?d ?g" by (meson converse_rtranclp_into_rtranclp r_into_rtranclp)
  with c y(2) have "arena_step\<^sup>*\<^sup>* arena_init ?g" by (meson rtranclp_trans)
  then show ?thesis by (intro exI [of _ ?g]) simp
qed

theorem arena_early_witness:
  "\<exists>c. arena_step\<^sup>*\<^sup>* arena_init c \<and> reader_at c = Report \<and> int ARENA_SIZE < seed c \<and> seed c = int ARENA_SIZE + 1"
  using arena_alarm arena_early unfolding always_def by blast

section \<open>Allocated points\<close>

text \<open>
  The pointer is the number of an allocation. The mutex is taken by the checking thread only, so
  it orders nothing; a comparison reads the pointer twice.
\<close>

datatype check_pc = Test_null | Check_x | Check_y int | Wrong | Over

datatype update_pc = Malloc | Fill_x nat | Fill_y nat | Set_current nat

record points =
  point_x :: "nat \<Rightarrow> int"
  point_y :: "nat \<Rightarrow> int"
  currentPos :: "nat option"
  allocated :: nat
  checker :: check_pc
  updater :: update_pc

definition f_points :: "points \<Rightarrow> points" where
  "f_points s = (case checker s of
     Test_null \<Rightarrow> s\<lparr>checker := (if currentPos s \<noteq> None then Check_x else Over)\<rparr>
   | Check_x \<Rightarrow> (case currentPos s of None \<Rightarrow> s | Some p \<Rightarrow> s\<lparr>checker := Check_y (point_x s p)\<rparr>)
   | Check_y x \<Rightarrow> (case currentPos s of None \<Rightarrow> s
      | Some p \<Rightarrow> s\<lparr>checker := (if x + 1 \<noteq> point_y s p then Wrong else Test_null)\<rparr>)
   | _ \<Rightarrow> s)"

definition threadFunction_points :: "points \<Rightarrow> points" where
  "threadFunction_points s = (case updater s of
     Malloc \<Rightarrow> s\<lparr>allocated := allocated s + 1, updater := Fill_x (allocated s)\<rparr>
   | Fill_x a \<Rightarrow> (case currentPos s of None \<Rightarrow> s
      | Some p \<Rightarrow> s\<lparr>point_x := (point_x s)(a := point_x s p + 1), updater := Fill_y a\<rparr>)
   | Fill_y a \<Rightarrow> (case currentPos s of None \<Rightarrow> s
      | Some p \<Rightarrow> s\<lparr>point_y := (point_y s)(a := point_y s p + 1), updater := Set_current a\<rparr>)
   | Set_current a \<Rightarrow> s\<lparr>currentPos := Some a, updater := Malloc\<rparr>)"

inductive points_step :: "points \<Rightarrow> points \<Rightarrow> bool" where
  check: "checker s \<noteq> Wrong \<Longrightarrow> points_step s (f_points s)"
| update: "checker s \<noteq> Wrong \<Longrightarrow> points_step s (threadFunction_points s)"

definition main_points :: points where
  "main_points = \<lparr>point_x = (\<lambda>_. 0)(0 := 1), point_y = (\<lambda>_. 0)(0 := 2), currentPos = Some 0, allocated = 1,
     checker = Test_null, updater = Malloc\<rparr>"

definition points_ok :: "points \<Rightarrow> bool" where
  "points_ok s \<longleftrightarrow> (case currentPos s of None \<Rightarrow> False
      | Some p \<Rightarrow> p < allocated s \<and> point_x s p + 1 = point_y s p \<and> (case updater s of
          Malloc \<Rightarrow> True
        | Fill_x a \<Rightarrow> a < allocated s \<and> a \<noteq> p
        | Fill_y a \<Rightarrow> a < allocated s \<and> a \<noteq> p \<and> point_x s a = point_x s p + 1
        | Set_current a \<Rightarrow> a < allocated s \<and> a \<noteq> p \<and> point_x s a + 1 = point_y s a)) \<and>
     checker s \<noteq> Over"

lemma points_ok_check: "points_ok s \<Longrightarrow> points_ok (f_points s)"
  by (cases "checker s"; cases "currentPos s"; cases "updater s") (auto simp: points_ok_def f_points_def)

lemma points_ok_update: "points_ok s \<Longrightarrow> points_ok (threadFunction_points s)"
  by (cases "updater s"; cases "currentPos s") (auto simp: points_ok_def threadFunction_points_def)

lemma points_ok_step: "points_step s s' \<Longrightarrow> points_ok s \<Longrightarrow> points_ok s'"
  by (erule points_step.cases) (simp_all add: points_ok_check points_ok_update)

lemma always_points_ok: "always points_step main_points points_ok"
proof (rule always_invariant)
  show "points_ok main_points" by (simp add: points_ok_def main_points_def)
next
  fix a b assume "points_ok a" "points_step a b"
  then show "points_ok b" by (blast intro: points_ok_step)
qed

text \<open>A run: \<open>True\<close> is a step of the updating thread, \<open>False\<close> one of the checking thread.\<close>

definition points_perform :: "points \<Rightarrow> bool \<Rightarrow> points" where
  "points_perform s u = (if checker s = Wrong then s else if u then threadFunction_points s else f_points s)"

lemma points_perform_reach: "points_step\<^sup>*\<^sup>* s (points_perform s u)"
  using check [of s] update [of s] by (auto simp: points_perform_def)

text \<open>
  In every reachable state of the allocating program under sequential
  consistency the pointer is a point whose \<open>y\<close> is its \<open>x\<close> plus one, and the checking loop never
  ends; nevertheless the program can report two coordinates that do not fit, since the comparison
  \<open>currentPos->x + 1 != currentPos->y\<close> reads the pointer twice.
\<close>

theorem points_published:
  "always points_step main_points (\<lambda>s. \<exists>p. currentPos s = Some p \<and> point_x s p + 1 = point_y s p \<and> checker s \<noteq> Over) \<and>
   (\<exists>s. points_step\<^sup>*\<^sup>* main_points s \<and> checker s = Wrong)"
proof
  show "always points_step main_points (\<lambda>s. \<exists>p. currentPos s = Some p \<and> point_x s p + 1 = point_y s p \<and> checker s \<noteq> Over)"
    by (rule always_mono [OF always_points_ok]) (auto simp: points_ok_def split: option.splits)
next
  have "points_step\<^sup>*\<^sup>* main_points
      (foldl points_perform main_points [False, False, True, True, True, True, False])"
    by (rule foldl_reach) (rule points_perform_reach)
  moreover have "checker (foldl points_perform main_points [False, False, True, True, True, True, False]) = Wrong"
    by (simp add: points_perform_def f_points_def threadFunction_points_def main_points_def)
  ultimately show "\<exists>s. points_step\<^sup>*\<^sup>* main_points s \<and> checker s = Wrong" by blast
qed

end
