(* ===== verification/Semaphore_Tests.thy ===== *)
theory Semaphore_Tests
  imports Transition_Systems
begin

text \<open>
  The two litmus tests that run in rounds, \<open>Layer1/28-pso_test.c\<close> and \<open>Layer1/30-tso_test.c\<close>, under
  sequential consistency. Their \<open>main\<close> differs in the test that ends the loop only: a round clears
  the objects, creates two threads that wait for a semaphore, posts it twice, joins the threads and
  inspects what they have read. The locale \<open>semaphore_round\<close> says what a pair of threads has to
  keep, and proves that then no round reports anything.
\<close>

section \<open>State\<close>

datatype sem_pc = T_absent | T_wait | T_first | T_second | Keep_first c_int | Keep_second c_int | T_done

datatype sem_main_pc =
  M_clear_x | M_clear_y | M_create_1 | M_create_2 | M_post_1 | M_post_2 | M_join_1 | M_join_2 | M_check | M_break | M_end

record sem_test =
  sx :: c_int
  sy :: c_int
  sr1 :: c_int
  sr2 :: c_int
  start_sem :: nat
  thread_a :: sem_pc
  thread_b :: sem_pc
  sem_main :: sem_main_pc
  sem_round :: nat

section \<open>The programs\<close>

text \<open>\<open>sem_wait\<close> by the first and by the second thread.\<close>

definition sem_wait_a :: "sem_test \<Rightarrow> sem_test" where
  "sem_wait_a s = (if start_sem s = 0 then s else s\<lparr>start_sem := start_sem s - 1, thread_a := T_first\<rparr>)"

definition sem_wait_b :: "sem_test \<Rightarrow> sem_test" where
  "sem_wait_b s = (if start_sem s = 0 then s else s\<lparr>start_sem := start_sem s - 1, thread_b := T_first\<rparr>)"

definition thread_writer_pso_test :: "sem_test \<Rightarrow> sem_test" where
  "thread_writer_pso_test s = (case thread_a s of
     T_wait \<Rightarrow> sem_wait_a s
   | T_first \<Rightarrow> s\<lparr>sx := 1, thread_a := T_second\<rparr>
   | T_second \<Rightarrow> s\<lparr>sy := 1, thread_a := T_done\<rparr>
   | _ \<Rightarrow> s)"

definition thread_reader_pso_test :: "sem_test \<Rightarrow> sem_test" where
  "thread_reader_pso_test s = (case thread_b s of
     T_wait \<Rightarrow> sem_wait_b s
   | T_first \<Rightarrow> s\<lparr>thread_b := Keep_first (sy s)\<rparr>
   | Keep_first v \<Rightarrow> s\<lparr>sr1 := v, thread_b := T_second\<rparr>
   | T_second \<Rightarrow> s\<lparr>thread_b := Keep_second (sx s)\<rparr>
   | Keep_second v \<Rightarrow> s\<lparr>sr2 := v, thread_b := T_done\<rparr>
   | _ \<Rightarrow> s)"

definition thread_1_tso_test :: "sem_test \<Rightarrow> sem_test" where
  "thread_1_tso_test s = (case thread_a s of
     T_wait \<Rightarrow> sem_wait_a s
   | T_first \<Rightarrow> s\<lparr>sx := 1, thread_a := T_second\<rparr>
   | T_second \<Rightarrow> s\<lparr>thread_a := Keep_first (sy s)\<rparr>
   | Keep_first v \<Rightarrow> s\<lparr>sr1 := v, thread_a := T_done\<rparr>
   | _ \<Rightarrow> s)"

definition thread_2_tso_test :: "sem_test \<Rightarrow> sem_test" where
  "thread_2_tso_test s = (case thread_b s of
     T_wait \<Rightarrow> sem_wait_b s
   | T_first \<Rightarrow> s\<lparr>sy := 1, thread_b := T_second\<rparr>
   | T_second \<Rightarrow> s\<lparr>thread_b := Keep_first (sx s)\<rparr>
   | Keep_first v \<Rightarrow> s\<lparr>sr2 := v, thread_b := T_done\<rparr>
   | _ \<Rightarrow> s)"

text \<open>\<open>main\<close>, with the test that makes it break out of the loop.\<close>

definition main_rounds :: "(sem_test \<Rightarrow> bool) \<Rightarrow> sem_test \<Rightarrow> sem_test" where
  "main_rounds bad s = (case sem_main s of
     M_clear_x \<Rightarrow> s\<lparr>sx := 0, sem_main := M_clear_y\<rparr>
   | M_clear_y \<Rightarrow> s\<lparr>sy := 0, sem_main := M_create_1\<rparr>
   | M_create_1 \<Rightarrow> s\<lparr>thread_a := T_wait, sem_main := M_create_2\<rparr>
   | M_create_2 \<Rightarrow> s\<lparr>thread_b := T_wait, sem_main := M_post_1\<rparr>
   | M_post_1 \<Rightarrow> s\<lparr>start_sem := start_sem s + 1, sem_main := M_post_2\<rparr>
   | M_post_2 \<Rightarrow> s\<lparr>start_sem := start_sem s + 1, sem_main := M_join_1\<rparr>
   | M_join_1 \<Rightarrow> if thread_a s = T_done then s\<lparr>sem_main := M_join_2\<rparr> else s
   | M_join_2 \<Rightarrow> if thread_b s = T_done then s\<lparr>sem_main := M_check\<rparr> else s
   | M_check \<Rightarrow>
       if bad s then s\<lparr>sem_main := M_break\<rparr>
       else s\<lparr>sem_round := sem_round s + 1, sem_main := (if sem_round s + 1 < 1000 then M_clear_x else M_end)\<rparr>
   | _ \<Rightarrow> s)"

definition main_pso_test :: "sem_test \<Rightarrow> sem_test" where
  "main_pso_test = main_rounds (\<lambda>s. sr1 s = 1 \<and> sr2 s = 0)"

definition main_tso_test :: "sem_test \<Rightarrow> sem_test" where
  "main_tso_test = main_rounds (\<lambda>s. sr1 s = 0 \<and> sr2 s = 0)"

definition sem_init :: sem_test where
  "sem_init = \<lparr>sx = 0, sy = 0, sr1 = 0, sr2 = 0, start_sem = 0, thread_a = T_absent, thread_b = T_absent,
     sem_main = M_clear_x, sem_round = 0\<rparr>"

inductive pso_step :: "sem_test \<Rightarrow> sem_test \<Rightarrow> bool" where
  pso_main: "pso_step s (main_pso_test s)"
| pso_writer: "pso_step s (thread_writer_pso_test s)"
| pso_reader: "pso_step s (thread_reader_pso_test s)"

inductive tso_step :: "sem_test \<Rightarrow> sem_test \<Rightarrow> bool" where
  tso_main: "tso_step s (main_tso_test s)"
| tso_thread_1: "tso_step s (thread_1_tso_test s)"
| tso_thread_2: "tso_step s (thread_2_tso_test s)"

section \<open>A round\<close>

definition resting :: "sem_pc \<Rightarrow> bool" where
  "resting p \<longleftrightarrow> p = T_absent \<or> p = T_done"

definition passed :: "sem_pc \<Rightarrow> nat" where
  "passed p = (if p = T_absent \<or> p = T_wait then 0 else 1)"

definition posts :: "sem_test \<Rightarrow> nat" where
  "posts s = start_sem s + passed (thread_a s) + passed (thread_b s)"

text \<open>
  The contract: a thread moves only after it got a unit of the semaphore, and leaves the other
  thread and \<open>main\<close> alone; \<open>R\<close> holds at the start of a round, both threads keep it, and when both
  are done it excludes the report.
\<close>

definition own_step :: "(sem_test \<Rightarrow> sem_pc) \<Rightarrow> (sem_test \<Rightarrow> sem_pc) \<Rightarrow> (sem_test \<Rightarrow> sem_test) \<Rightarrow> bool" where
  "own_step mine other f \<longleftrightarrow> (\<forall>s. other (f s) = other s \<and> sem_main (f s) = sem_main s \<and>
     (resting (mine s) \<longrightarrow> f s = s) \<and> (mine s = T_wait \<and> start_sem s = 0 \<longrightarrow> f s = s) \<and>
     (mine s \<noteq> T_absent \<longrightarrow> mine (f s) \<noteq> T_absent) \<and>
     start_sem (f s) + passed (mine (f s)) = start_sem s + passed (mine s))"

lemma own_steps:
  "own_step thread_a thread_b thread_writer_pso_test" "own_step thread_b thread_a thread_reader_pso_test"
  "own_step thread_a thread_b thread_1_tso_test" "own_step thread_b thread_a thread_2_tso_test"
  by (auto simp: own_step_def resting_def passed_def sem_wait_a_def sem_wait_b_def
      thread_writer_pso_test_def thread_reader_pso_test_def thread_1_tso_test_def thread_2_tso_test_def split: sem_pc.split)

definition round_ok :: "(sem_test \<Rightarrow> bool) \<Rightarrow> sem_test \<Rightarrow> bool" where
  "round_ok R s \<longleftrightarrow> thread_a s \<noteq> T_absent \<and> thread_b s \<noteq> T_absent \<and> R s"

definition main_ok :: "(sem_test \<Rightarrow> bool) \<Rightarrow> sem_test \<Rightarrow> bool" where
  "main_ok R s \<longleftrightarrow> (case sem_main s of
     M_clear_x \<Rightarrow> resting (thread_a s) \<and> resting (thread_b s) \<and> start_sem s = 0
   | M_clear_y \<Rightarrow> resting (thread_a s) \<and> resting (thread_b s) \<and> start_sem s = 0 \<and> sx s = 0
   | M_create_1 \<Rightarrow> resting (thread_a s) \<and> resting (thread_b s) \<and> start_sem s = 0 \<and> sx s = 0 \<and> sy s = 0
   | M_create_2 \<Rightarrow> thread_a s = T_wait \<and> resting (thread_b s) \<and> start_sem s = 0 \<and> sx s = 0 \<and> sy s = 0
   | M_post_1 \<Rightarrow> thread_a s = T_wait \<and> thread_b s = T_wait \<and> start_sem s = 0 \<and> sx s = 0 \<and> sy s = 0
   | M_post_2 \<Rightarrow> round_ok R s \<and> posts s = 1
   | M_join_1 \<Rightarrow> round_ok R s \<and> posts s = 2
   | M_join_2 \<Rightarrow> round_ok R s \<and> posts s = 2 \<and> thread_a s = T_done
   | M_check \<Rightarrow> round_ok R s \<and> posts s = 2 \<and> thread_a s = T_done \<and> thread_b s = T_done
   | M_break \<Rightarrow> False
   | M_end \<Rightarrow> resting (thread_a s) \<and> resting (thread_b s) \<and> start_sem s = 0)"

lemma own_posts_a: "own_step thread_a thread_b f \<Longrightarrow> posts (f s) = posts s"
  by (simp add: own_step_def posts_def)

lemma own_posts_b: "own_step thread_b thread_a g \<Longrightarrow> posts (g s) = posts s"
  by (simp add: own_step_def posts_def add.commute [of _ "passed (thread_a s)"] add.assoc)

lemma posts_main [simp]: "posts (s\<lparr>sem_main := m\<rparr>) = posts s"
  by (simp add: posts_def)

lemma posts_post: "posts (s\<lparr>start_sem := Suc (start_sem s)\<rparr>) = Suc (posts s)"
  "posts (s\<lparr>start_sem := Suc (start_sem s), sem_main := m\<rparr>) = Suc (posts s)"
  by (simp_all add: posts_def)

lemma posts_start: "thread_a s = T_wait \<Longrightarrow> thread_b s = T_wait \<Longrightarrow> posts s = start_sem s"
  by (simp add: posts_def passed_def)

lemma posts_done: "thread_a s = T_done \<Longrightarrow> thread_b s = T_done \<Longrightarrow> posts s = start_sem s + 2"
  by (simp add: posts_def passed_def)

locale semaphore_round =
  fixes f g :: "sem_test \<Rightarrow> sem_test" and R bad :: "sem_test \<Rightarrow> bool"
  assumes own_f: "own_step thread_a thread_b f" and own_g: "own_step thread_b thread_a g"
    and starts: "thread_a s = T_wait \<Longrightarrow> thread_b s = T_wait \<Longrightarrow> sx s = 0 \<Longrightarrow> sy s = 0 \<Longrightarrow> R s"
    and frame: "R (s\<lparr>start_sem := n\<rparr>) = R s" "R (s\<lparr>sem_main := m\<rparr>) = R s"
    and keeps_f: "R s \<Longrightarrow> R (f s)" and keeps_g: "R s \<Longrightarrow> R (g s)"
    and excludes: "R s \<Longrightarrow> thread_a s = T_done \<Longrightarrow> thread_b s = T_done \<Longrightarrow> \<not> bad s"
begin

lemma f_keeps: "main_ok R s \<Longrightarrow> main_ok R (f s)"
  using own_f keeps_f [of s] own_posts_a [OF own_f, of s]
  by (cases "sem_main s") (auto simp: main_ok_def own_step_def round_ok_def resting_def)

lemma g_keeps: "main_ok R s \<Longrightarrow> main_ok R (g s)"
  using own_g keeps_g [of s] own_posts_b [OF own_g, of s]
  by (cases "sem_main s") (auto simp: main_ok_def own_step_def round_ok_def resting_def)

lemma main_keeps: "main_ok R s \<Longrightarrow> main_ok R (main_rounds bad s)"
  using excludes [of s] starts [of s]
  by (cases "sem_main s") (auto simp: main_ok_def main_rounds_def round_ok_def resting_def posts_done posts_post posts_start frame)

end

section \<open>What the threads keep\<close>

text \<open>The reader that has seen \<open>y\<close> will see \<open>x\<close>, as the writer stores \<open>x\<close> first.\<close>

definition pso_round :: "sem_test \<Rightarrow> bool" where
  "pso_round s \<longleftrightarrow> sy s \<in> {0, 1} \<and> (sy s = 1 \<longrightarrow> sx s = 1) \<and> (thread_a s = T_second \<longrightarrow> sx s = 1) \<and>
     (case thread_b s of Keep_first v \<Rightarrow> v = 1 \<longrightarrow> sx s = 1 | T_second \<Rightarrow> sr1 s = 1 \<longrightarrow> sx s = 1
      | Keep_second v \<Rightarrow> sr1 s = 1 \<longrightarrow> v = 1 | T_done \<Rightarrow> sr1 s = 1 \<longrightarrow> sr2 s = 1 | _ \<Rightarrow> True)"

text \<open>What a thread of the other test has loaded; not both threads can have loaded 0.\<close>

fun loaded :: "c_int \<Rightarrow> sem_pc \<Rightarrow> c_int option" where
  "loaded r (Keep_first v) = Some v" | "loaded r T_done = Some r" | "loaded r _ = None"

definition stored :: "sem_pc \<Rightarrow> bool" where
  "stored p \<longleftrightarrow> p \<notin> {T_absent, T_wait, T_first}"

definition tso_round :: "sem_test \<Rightarrow> bool" where
  "tso_round s \<longleftrightarrow> (stored (thread_a s) \<longrightarrow> sx s = 1) \<and> (stored (thread_b s) \<longrightarrow> sy s = 1) \<and>
     \<not> (loaded (sr1 s) (thread_a s) = Some 0 \<and> loaded (sr2 s) (thread_b s) = Some 0)"

interpretation pso: semaphore_round thread_writer_pso_test thread_reader_pso_test pso_round "\<lambda>s. sr1 s = 1 \<and> sr2 s = 0"
  by unfold_locales
    (auto simp: own_steps pso_round_def thread_writer_pso_test_def thread_reader_pso_test_def sem_wait_a_def sem_wait_b_def
      split: sem_pc.splits)

interpretation tso: semaphore_round thread_1_tso_test thread_2_tso_test tso_round "\<lambda>s. sr1 s = 0 \<and> sr2 s = 0"
  by unfold_locales
    (auto simp: own_steps tso_round_def stored_def thread_1_tso_test_def thread_2_tso_test_def sem_wait_a_def sem_wait_b_def
      split: sem_pc.splits)

section \<open>Properties\<close>

lemma sem_init_ok: "main_ok R sem_init"
  by (simp add: main_ok_def sem_init_def resting_def)

lemma main_ok_no_break: "main_ok R s \<Longrightarrow> sem_main s \<noteq> M_break"
  by (auto simp: main_ok_def)

theorem pso_test_quiet: "always pso_step sem_init (\<lambda>s. sem_main s \<noteq> M_break)"
proof (rule always_invariant [of "main_ok pso_round"])
  fix a b assume ok: "main_ok pso_round a" and "pso_step a b"
  from this(2) ok show "main_ok pso_round b"
    by cases (simp_all add: main_pso_test_def pso.main_keeps pso.f_keeps pso.g_keeps)
qed (auto simp: sem_init_ok dest: main_ok_no_break)

theorem tso_test_quiet: "always tso_step sem_init (\<lambda>s. sem_main s \<noteq> M_break)"
proof (rule always_invariant [of "main_ok tso_round"])
  fix a b assume ok: "main_ok tso_round a" and "tso_step a b"
  from this(2) ok show "main_ok tso_round b"
    by cases (simp_all add: main_tso_test_def tso.main_keeps tso.f_keeps tso.g_keeps)
qed (auto simp: sem_init_ok dest: main_ok_no_break)

end
