(* ===== verification/Spinlock_Test.thy ===== *)
theory Spinlock_Test
  imports Transition_Systems
begin

text \<open>
  The spinlock test of MariaDB, \<open>Layer1/22-MariaDB.c\<close>, under sequential consistency: a writer and a
  reader that take the lock in turns until \<open>main\<close>, or the reader with a failed assertion, stops
  them.
\<close>

section \<open>The program\<close>

datatype sw_pc = W_absent | W_while | W_lock | W_data | W_flag | W_unlock | W_returned

datatype sr_pc =
  R_absent | R_while | R_lock | R_flag | R_data c_int | R_unlock c_int c_int | R_check c_int c_int | R_stop | R_failed | R_returned

datatype sm_pc = M_create_writer | M_create_reader | M_stop | M_join_writer | M_join_reader | M_returned

record spin_test =
  spinlock :: c_int
  spin_data :: c_int
  spin_flag :: c_int
  stop :: c_int
  spin_writer :: sw_pc
  spin_reader :: sr_pc
  spin_main :: sm_pc

text \<open>One turn of the loop of \<open>spin_lock\<close>: whether it got the lock.\<close>

definition spin_lock :: "spin_test \<Rightarrow> bool \<times> spin_test" where
  "spin_lock s = (spinlock s = 0, s\<lparr>spinlock := 1\<rparr>)"

definition spin_unlock :: "spin_test \<Rightarrow> spin_test" where
  "spin_unlock s = s\<lparr>spinlock := 0\<rparr>"

definition writer_spin :: "spin_test \<Rightarrow> spin_test" where
  "writer_spin s = (case spin_writer s of
     W_while \<Rightarrow> s\<lparr>spin_writer := (if stop s = 0 then W_lock else W_returned)\<rparr>
   | W_lock \<Rightarrow> (case spin_lock s of (got, s') \<Rightarrow> if got then s'\<lparr>spin_writer := W_data\<rparr> else s')
   | W_data \<Rightarrow> s\<lparr>spin_data := 42, spin_writer := W_flag\<rparr>
   | W_flag \<Rightarrow> s\<lparr>spin_flag := 1, spin_writer := W_unlock\<rparr>
   | W_unlock \<Rightarrow> (spin_unlock s)\<lparr>spin_writer := W_while\<rparr>
   | _ \<Rightarrow> s)"

definition reader_spin :: "spin_test \<Rightarrow> spin_test" where
  "reader_spin s = (case spin_reader s of
     R_while \<Rightarrow> s\<lparr>spin_reader := (if stop s = 0 then R_lock else R_returned)\<rparr>
   | R_lock \<Rightarrow> (case spin_lock s of (got, s') \<Rightarrow> if got then s'\<lparr>spin_reader := R_flag\<rparr> else s')
   | R_flag \<Rightarrow> s\<lparr>spin_reader := R_data (spin_flag s)\<rparr>
   | R_data f \<Rightarrow> s\<lparr>spin_reader := R_unlock f (spin_data s)\<rparr>
   | R_unlock f d \<Rightarrow> (spin_unlock s)\<lparr>spin_reader := R_check f d\<rparr>
   | R_check f d \<Rightarrow> s\<lparr>spin_reader := (if f = 1 \<and> d \<noteq> 42 then R_stop else R_while)\<rparr>
   | R_stop \<Rightarrow> s\<lparr>stop := 1, spin_reader := R_failed\<rparr>
   | _ \<Rightarrow> s)"

definition main_spin :: "spin_test \<Rightarrow> spin_test" where
  "main_spin s = (case spin_main s of
     M_create_writer \<Rightarrow> s\<lparr>spin_writer := W_while, spin_main := M_create_reader\<rparr>
   | M_create_reader \<Rightarrow> s\<lparr>spin_reader := R_while, spin_main := M_stop\<rparr>
   | M_stop \<Rightarrow> s\<lparr>stop := 1, spin_main := M_join_writer\<rparr>
   | M_join_writer \<Rightarrow> if spin_writer s = W_returned then s\<lparr>spin_main := M_join_reader\<rparr> else s
   | M_join_reader \<Rightarrow> if spin_reader s = R_returned then s\<lparr>spin_main := M_returned\<rparr> else s
   | M_returned \<Rightarrow> s)"

inductive spin_step :: "spin_test \<Rightarrow> spin_test \<Rightarrow> bool" where
  spin_main: "spin_reader s \<noteq> R_failed \<Longrightarrow> spin_step s (main_spin s)"
| spin_writer: "spin_reader s \<noteq> R_failed \<Longrightarrow> spin_step s (writer_spin s)"
| spin_reader: "spin_reader s \<noteq> R_failed \<Longrightarrow> spin_step s (reader_spin s)"

definition spin_init :: spin_test where
  "spin_init = \<lparr>spinlock = 0, spin_data = 0, spin_flag = 0, stop = 0, spin_writer = W_absent,
     spin_reader = R_absent, spin_main = M_create_writer\<rparr>"

section \<open>Mutual exclusion and consistency\<close>

definition writer_inside :: "sw_pc \<Rightarrow> bool" where
  "writer_inside p \<longleftrightarrow> p = W_data \<or> p = W_flag \<or> p = W_unlock"

fun reader_inside :: "sr_pc \<Rightarrow> bool" where
  "reader_inside R_flag \<longleftrightarrow> True" | "reader_inside (R_data f) \<longleftrightarrow> True" | "reader_inside (R_unlock f d) \<longleftrightarrow> True"
| "reader_inside _ \<longleftrightarrow> False"

definition excluded :: "spin_test \<Rightarrow> bool" where
  "excluded s \<longleftrightarrow> spinlock s = (if writer_inside (spin_writer s) \<or> reader_inside (spin_reader s) then 1 else 0) \<and>
     \<not> (writer_inside (spin_writer s) \<and> reader_inside (spin_reader s))"

definition consistent :: "spin_test \<Rightarrow> bool" where
  "consistent s \<longleftrightarrow> (spin_flag s = 1 \<longrightarrow> spin_data s = 42) \<and> (spin_writer s = W_flag \<longrightarrow> spin_data s = 42) \<and>
     (case spin_reader s of R_data f \<Rightarrow> f = 1 \<longrightarrow> spin_data s = 42 | R_unlock f d \<Rightarrow> f = 1 \<longrightarrow> d = 42
      | R_check f d \<Rightarrow> f = 1 \<longrightarrow> d = 42 | R_stop \<Rightarrow> False | R_failed \<Rightarrow> False | _ \<Rightarrow> True)"

definition unborn :: "spin_test \<Rightarrow> bool" where
  "unborn s \<longleftrightarrow> (spin_main s = M_create_writer \<longrightarrow> spin_writer s = W_absent) \<and>
     (spin_main s \<in> {M_create_writer, M_create_reader} \<longrightarrow> spin_reader s = R_absent)"

lemmas spin_defs = main_spin_def writer_spin_def reader_spin_def spin_lock_def spin_unlock_def

lemma excluded_main: "unborn s \<Longrightarrow> excluded s \<Longrightarrow> excluded (main_spin s)"
  by (cases "spin_main s") (auto simp: excluded_def unborn_def spin_defs writer_inside_def)

lemma excluded_writer: "excluded s \<Longrightarrow> excluded (writer_spin s)"
  by (cases "spin_writer s") (auto simp: excluded_def spin_defs writer_inside_def)

lemma excluded_reader: "excluded s \<Longrightarrow> excluded (reader_spin s)"
  by (cases "spin_reader s") (auto simp: excluded_def spin_defs writer_inside_def)

lemma excluded_step: "spin_step s t \<Longrightarrow> unborn s \<Longrightarrow> excluded s \<Longrightarrow> excluded t"
  by (erule spin_step.cases) (simp_all add: excluded_main excluded_writer excluded_reader)

lemma consistent_main: "unborn s \<Longrightarrow> consistent s \<Longrightarrow> consistent (main_spin s)"
  by (cases "spin_main s") (auto simp: consistent_def unborn_def spin_defs split: sr_pc.splits)

lemma consistent_writer: "consistent s \<Longrightarrow> consistent (writer_spin s)"
  by (cases "spin_writer s") (auto simp: consistent_def spin_defs split: sr_pc.splits)

lemma consistent_reader: "consistent s \<Longrightarrow> consistent (reader_spin s)"
  by (cases "spin_reader s") (auto simp: consistent_def spin_defs split: sr_pc.splits)

lemma consistent_step: "spin_step s t \<Longrightarrow> unborn s \<Longrightarrow> consistent s \<Longrightarrow> consistent t"
  by (erule spin_step.cases) (simp_all add: consistent_main consistent_writer consistent_reader)

lemma unborn_main: "unborn s \<Longrightarrow> unborn (main_spin s)"
  by (cases "spin_main s") (auto simp: unborn_def spin_defs )

lemma unborn_writer: "unborn s \<Longrightarrow> unborn (writer_spin s)"
  by (cases "spin_writer s") (auto simp: unborn_def spin_defs )

lemma unborn_reader: "unborn s \<Longrightarrow> unborn (reader_spin s)"
  by (cases "spin_reader s") (auto simp: unborn_def spin_defs )

lemma unborn_step: "spin_step s t \<Longrightarrow> unborn s \<Longrightarrow> unborn t"
  by (erule spin_step.cases) (simp_all add: unborn_main unborn_writer unborn_reader)

definition spin_ok :: "spin_test \<Rightarrow> bool" where
  "spin_ok s \<longleftrightarrow> unborn s \<and> excluded s \<and> consistent s"

theorem spin_test_quiet:
  "always spin_step spin_init (\<lambda>s. spin_reader s \<noteq> R_failed \<and>
     \<not> (writer_inside (spin_writer s) \<and> reader_inside (spin_reader s)))"
proof (rule always_invariant)
  show "spin_ok spin_init"
    by (simp add: spin_ok_def unborn_def excluded_def consistent_def spin_init_def writer_inside_def)
next
  fix a b assume "spin_ok a" "spin_step a b"
  then show "spin_ok b" by (auto simp: spin_ok_def intro: unborn_step excluded_step consistent_step)
next
  fix a assume "spin_ok a"
  then show "spin_reader a \<noteq> R_failed \<and> \<not> (writer_inside (spin_writer a) \<and> reader_inside (spin_reader a))"
    by (auto simp: spin_ok_def excluded_def consistent_def)
qed

end
