(* ===== verification/Handoff_Programs.thy ===== *)
theory Handoff_Programs
  imports Transition_Systems
begin

text \<open>
  Three programs in which one thread waits for another, under sequential consistency:
  \<open>Layer1/6-ompi.c\<close> (Open MPI), \<open>Layer1/13-JDK.c\<close> (the monitor of the JDK) and \<open>Layer1/23-mcs.c\<close> (the
  hand-over of the DPDK lock). Printing and sleeping are left out.
\<close>

section \<open>Open MPI\<close>

datatype declare_pc = D_activate | D_wait | D_status | D_returned int

datatype callback_pc = B_status | B_active | B_returned

record myreg =
  reg_active :: bool
  reg_status :: c_int
  declare_pc :: declare_pc
  callback_pc :: callback_pc
  callback_created :: bool

abbreviation OPAL_SUCCESS :: int where "OPAL_SUCCESS \<equiv> 0"
abbreviation OPAL_ERROR :: int where "OPAL_ERROR \<equiv> - 1"

definition ompi_interlib_declare :: "myreg \<Rightarrow> myreg" where
  "ompi_interlib_declare s = (case declare_pc s of
     D_activate \<Rightarrow> s\<lparr>reg_active := True, declare_pc := D_wait\<rparr>
   | D_wait \<Rightarrow> if reg_active s then s else s\<lparr>declare_pc := D_status\<rparr>
   | D_status \<Rightarrow> s\<lparr>declare_pc := D_returned (if reg_status s \<noteq> 0 then OPAL_ERROR else OPAL_SUCCESS)\<rparr>
   | D_returned _ \<Rightarrow> s)"

definition model_registration_callback :: "myreg \<Rightarrow> myreg" where
  "model_registration_callback s = (case callback_pc s of
     B_status \<Rightarrow> s\<lparr>reg_status := 0, callback_pc := B_active\<rparr>
   | B_active \<Rightarrow> s\<lparr>reg_active := False, callback_pc := B_returned\<rparr>
   | B_returned \<Rightarrow> s)"

text \<open>\<open>main\<close> creates the declaring thread first.\<close>

inductive ompi_step :: "myreg \<Rightarrow> myreg \<Rightarrow> bool" where
  ompi_create: "ompi_step s (s\<lparr>callback_created := True\<rparr>)"
| ompi_declare: "ompi_step s (ompi_interlib_declare s)"
| ompi_callback: "callback_created s \<Longrightarrow> ompi_step s (model_registration_callback s)"

definition ompi_init :: myreg where
  "ompi_init = \<lparr>reg_active = False, reg_status = 0, declare_pc = D_activate, callback_pc = B_status,
     callback_created = False\<rparr>"

definition ompi_ok :: "myreg \<Rightarrow> bool" where
  "ompi_ok s \<longleftrightarrow> reg_status s = 0 \<and> declare_pc s \<noteq> D_returned OPAL_ERROR"

lemma ompi_ok_step: "ompi_step s t \<Longrightarrow> ompi_ok s \<Longrightarrow> ompi_ok t"
  by (erule ompi_step.cases)
    (auto simp: ompi_ok_def ompi_interlib_declare_def model_registration_callback_def split: declare_pc.splits callback_pc.splits)

lemma always_ompi_ok: "always ompi_step ompi_init ompi_ok"
proof (rule always_invariant)
  show "ompi_ok ompi_init" by (simp add: ompi_ok_def ompi_init_def)
next
  fix a b assume "ompi_ok a" "ompi_step a b"
  then show "ompi_ok b" by (blast intro: ompi_ok_step)
qed

text \<open>The callback first: the declaration then waits for what has already happened.\<close>

definition ompi_late :: "myreg \<Rightarrow> bool" where
  "ompi_late s \<longleftrightarrow> reg_active s \<and> declare_pc s = D_wait \<and> callback_pc s = B_returned"

lemma ompi_late_step: "ompi_step s t \<Longrightarrow> ompi_late s \<Longrightarrow> ompi_late t"
  by (erule ompi_step.cases) (auto simp: ompi_late_def ompi_interlib_declare_def model_registration_callback_def)

lemma ompi_late_reach: "\<exists>s. ompi_step\<^sup>*\<^sup>* ompi_init s \<and> ompi_late s"
proof -
  let ?a = "ompi_init\<lparr>callback_created := True\<rparr>"
  let ?b = "model_registration_callback ?a"
  let ?c = "model_registration_callback ?b"
  let ?d = "ompi_interlib_declare ?c"
  have "ompi_step ompi_init ?a" by (rule ompi_create)
  moreover have "ompi_step ?a ?b" "ompi_step ?b ?c"
    by (rule ompi_callback, simp add: ompi_init_def model_registration_callback_def)+
  moreover have "ompi_step ?c ?d" by (rule ompi_declare)
  ultimately have "ompi_step\<^sup>*\<^sup>* ompi_init ?d" by (meson converse_rtranclp_into_rtranclp r_into_rtranclp)
  moreover have "ompi_late ?d"
    by (simp add: ompi_late_def ompi_interlib_declare_def model_registration_callback_def ompi_init_def)
  ultimately show ?thesis by blast
qed

theorem ompi_declare_result:
  "always ompi_step ompi_init (\<lambda>s. declare_pc s \<noteq> D_returned OPAL_ERROR) \<and>
   (\<exists>s. ompi_step\<^sup>*\<^sup>* ompi_init s \<and> always ompi_step s (\<lambda>t. declare_pc t = D_wait \<and> callback_pc t = B_returned))"
proof
  show "always ompi_step ompi_init (\<lambda>s. declare_pc s \<noteq> D_returned OPAL_ERROR)"
    by (rule always_mono [OF always_ompi_ok]) (simp add: ompi_ok_def)
  obtain s where s: "ompi_step\<^sup>*\<^sup>* ompi_init s" "ompi_late s" using ompi_late_reach by blast
  have "always ompi_step s (\<lambda>t. declare_pc t = D_wait \<and> callback_pc t = B_returned)"
    by (rule always_invariant [of ompi_late, OF s(2)]) (blast intro: ompi_late_step, simp add: ompi_late_def)
  with s(1) show "\<exists>s. ompi_step\<^sup>*\<^sup>* ompi_init s \<and>
      always ompi_step s (\<lambda>t. declare_pc t = D_wait \<and> callback_pc t = B_returned)" by blast
qed

section \<open>The monitor of the JDK\<close>

text \<open>The list has one node at most, so a pointer to it is a truth value.\<close>

datatype ts = TS_ENTER | TS_RUN

datatype enter_pc = E_state | E_load_list | E_next bool | E_list | E_while | E_semaphore | E_returned

datatype exit_pc = X_test | X_load | X_next bool | X_list bool | X_semaphore | X_state | X_returned

record monitor =
  node_state :: ts
  node_next :: bool
  entryList :: bool
  jdk_semaphore :: c_int
  enter_pc :: enter_pc
  exit_pc :: exit_pc
  exit_created :: bool

definition SimpleEnter :: "monitor \<Rightarrow> monitor" where
  "SimpleEnter s = (case enter_pc s of
     E_state \<Rightarrow> s\<lparr>node_state := TS_ENTER, enter_pc := E_load_list\<rparr>
   | E_load_list \<Rightarrow> s\<lparr>enter_pc := E_next (entryList s)\<rparr>
   | E_next l \<Rightarrow> s\<lparr>node_next := l, enter_pc := E_list\<rparr>
   | E_list \<Rightarrow> s\<lparr>entryList := True, enter_pc := E_while\<rparr>
   | E_while \<Rightarrow> s\<lparr>enter_pc := (if node_state s = TS_ENTER then E_semaphore else E_returned)\<rparr>
   | E_semaphore \<Rightarrow> s\<lparr>enter_pc := (if jdk_semaphore s = 0 then E_returned else E_while)\<rparr>
   | E_returned \<Rightarrow> s)"

definition SimpleExit :: "monitor \<Rightarrow> monitor" where
  "SimpleExit s = (case exit_pc s of
     X_test \<Rightarrow> s\<lparr>exit_pc := (if entryList s then X_load else X_returned)\<rparr>
   | X_load \<Rightarrow> s\<lparr>exit_pc := (if entryList s then X_next True else X_returned)\<rparr>
   | X_next w \<Rightarrow> s\<lparr>exit_pc := X_list (node_next s)\<rparr>
   | X_list l \<Rightarrow> s\<lparr>entryList := l, exit_pc := X_semaphore\<rparr>
   | X_semaphore \<Rightarrow> s\<lparr>jdk_semaphore := 1, exit_pc := X_state\<rparr>
   | X_state \<Rightarrow> s\<lparr>node_state := TS_RUN, exit_pc := X_returned\<rparr>
   | X_returned \<Rightarrow> s)"

inductive monitor_step :: "monitor \<Rightarrow> monitor \<Rightarrow> bool" where
  monitor_create: "monitor_step s (s\<lparr>exit_created := True\<rparr>)"
| monitor_enter: "monitor_step s (SimpleEnter s)"
| monitor_exit: "exit_created s \<Longrightarrow> monitor_step s (SimpleExit s)"

text \<open>The fields of the allocated node are arbitrary.\<close>

definition main_jdk13 :: "ts \<Rightarrow> bool \<Rightarrow> monitor" where
  "main_jdk13 st nx = \<lparr>node_state = st, node_next = nx, entryList = False, jdk_semaphore = 0, enter_pc = E_state,
     exit_pc = X_test, exit_created = False\<rparr>"

text \<open>
  While the entering thread can go on spinning, the exiting thread has raised the semaphore and is
  about to set the state; so the spinning always ends.
\<close>

definition monitor_ok :: "monitor \<Rightarrow> bool" where
  "monitor_ok s \<longleftrightarrow> (jdk_semaphore s \<noteq> 0 \<longrightarrow> exit_pc s = X_state \<or> exit_pc s = X_returned \<and> node_state s = TS_RUN) \<and>
     (exit_pc s \<in> {X_semaphore, X_state} \<or> entryList s \<or> jdk_semaphore s \<noteq> 0 \<or> (\<exists>w. exit_pc s = X_next w) \<or>
        (\<exists>l. exit_pc s = X_list l) \<or> exit_pc s = X_load \<longrightarrow> enter_pc s \<in> {E_while, E_semaphore, E_returned}) \<and>
     (enter_pc s \<notin> {E_state, E_load_list, E_next True} \<longrightarrow> enter_pc s = E_next False \<or> \<not> node_next s) \<and>
     (enter_pc s \<noteq> E_next True) \<and> (\<forall>l. exit_pc s = X_list l \<longrightarrow> \<not> l)"

definition waits_in_vain :: "monitor \<Rightarrow> bool" where
  "waits_in_vain s \<longleftrightarrow> enter_pc s \<in> {E_while, E_semaphore} \<and> node_state s = TS_ENTER \<and> jdk_semaphore s \<noteq> 0 \<and>
     exit_pc s \<noteq> X_state"

lemma monitor_ok_enter: "monitor_ok s \<Longrightarrow> monitor_ok (SimpleEnter s)"
  by (cases "enter_pc s") (auto simp: monitor_ok_def SimpleEnter_def)

lemma monitor_ok_exit: "monitor_ok s \<Longrightarrow> monitor_ok (SimpleExit s)"
  by (cases "exit_pc s") (auto simp: monitor_ok_def SimpleExit_def)

lemma monitor_ok_create [simp]: "monitor_ok (s\<lparr>exit_created := True\<rparr>) = monitor_ok s"
  by (simp add: monitor_ok_def)

lemma monitor_ok_step: "monitor_step s t \<Longrightarrow> monitor_ok s \<Longrightarrow> monitor_ok t"
  by (erule monitor_step.cases) (simp_all add: monitor_ok_enter monitor_ok_exit)

lemma always_monitor_ok: "always monitor_step (main_jdk13 st nx) monitor_ok"
proof (rule always_invariant)
  show "monitor_ok (main_jdk13 st nx)" by (simp add: monitor_ok_def main_jdk13_def)
next
  fix a b assume "monitor_ok a" "monitor_step a b"
  then show "monitor_ok b" by (blast intro: monitor_ok_step)
qed

text \<open>The entering thread can give up while it is still in the list, and is signalled later or never.\<close>

definition monitor_run :: "bool list \<Rightarrow> monitor \<Rightarrow> monitor" where
  "monitor_run bs s = foldl (\<lambda>s b. if b then SimpleEnter s else if exit_created s then SimpleExit s else s) s bs"

lemma monitor_run_reach: "monitor_step\<^sup>*\<^sup>* s (monitor_run bs s)"
  unfolding monitor_run_def by (rule foldl_reach) (auto intro: monitor_enter monitor_exit)

theorem monitor_enter_ends:
  "always monitor_step (main_jdk13 st nx) (\<lambda>s. \<not> waits_in_vain s) \<and>
   (\<exists>s. monitor_step\<^sup>*\<^sup>* (main_jdk13 st nx) s \<and> enter_pc s = E_returned \<and> exit_pc s = X_returned \<and> entryList s)"
proof
  show "always monitor_step (main_jdk13 st nx) (\<lambda>s. \<not> waits_in_vain s)"
    by (rule always_mono [OF always_monitor_ok]) (auto simp: monitor_ok_def waits_in_vain_def)
  let ?a = "(main_jdk13 st nx)\<lparr>exit_created := True\<rparr>"
  have "monitor_step\<^sup>*\<^sup>* (main_jdk13 st nx) ?a" using monitor_create by blast
  also have "monitor_step\<^sup>*\<^sup>* ?a (monitor_run [False, True, True, True, True, True, True] ?a)" by (rule monitor_run_reach)
  finally have "monitor_step\<^sup>*\<^sup>* (main_jdk13 st nx) (monitor_run [False, True, True, True, True, True, True] ?a)" .
  moreover have "enter_pc (monitor_run [False, True, True, True, True, True, True] ?a) = E_returned \<and>
      exit_pc (monitor_run [False, True, True, True, True, True, True] ?a) = X_returned \<and>
      entryList (monitor_run [False, True, True, True, True, True, True] ?a)"
    by (simp add: monitor_run_def main_jdk13_def SimpleEnter_def SimpleExit_def)
  ultimately show "\<exists>s. monitor_step\<^sup>*\<^sup>* (main_jdk13 st nx) s \<and> enter_pc s = E_returned \<and> exit_pc s = X_returned \<and> entryList s"
    by blast
qed

section \<open>The hand-over of the DPDK lock\<close>

datatype successor_pc = S_absent | S_next | S_locked | S_link | S_returned

datatype predecessor_pc = P_next | P_create | P_poll | P_count | P_hanged | P_join | P_returned

record handover =
  prev_next :: bool
  me_next :: bool
  me_locked :: c_int
  successor_pc :: successor_pc
  predecessor_pc :: predecessor_pc
  cycles :: int

definition thread_successor_lock :: "handover \<Rightarrow> handover" where
  "thread_successor_lock s = (case successor_pc s of
     S_next \<Rightarrow> s\<lparr>me_next := False, successor_pc := S_locked\<rparr>
   | S_locked \<Rightarrow> s\<lparr>me_locked := 1, successor_pc := S_link\<rparr>
   | S_link \<Rightarrow> s\<lparr>prev_next := True, successor_pc := S_returned\<rparr>
   | _ \<Rightarrow> s)"

definition thread_predecessor_unlock :: "handover \<Rightarrow> handover" where
  "thread_predecessor_unlock s = (case predecessor_pc s of
     P_next \<Rightarrow> s\<lparr>prev_next := False, predecessor_pc := P_create\<rparr>
   | P_create \<Rightarrow> s\<lparr>successor_pc := S_next, cycles := 0, predecessor_pc := P_poll\<rparr>
   | P_poll \<Rightarrow> s\<lparr>predecessor_pc := (if prev_next s then P_join else P_count)\<rparr>
   | P_count \<Rightarrow> s\<lparr>cycles := cycles s + 1, predecessor_pc := (if 10000000 < cycles s + 1 then P_hanged else P_poll)\<rparr>
   | P_join \<Rightarrow> if successor_pc s = S_returned then s\<lparr>predecessor_pc := P_returned\<rparr> else s
   | _ \<Rightarrow> s)"

inductive handoff_step :: "handover \<Rightarrow> handover \<Rightarrow> bool" where
  predecessor: "predecessor_pc s \<noteq> P_hanged \<Longrightarrow> handoff_step s (thread_predecessor_unlock s)"
| successor: "predecessor_pc s \<noteq> P_hanged \<Longrightarrow> handoff_step s (thread_successor_lock s)"

definition main_handover :: handover where
  "main_handover = \<lparr>prev_next = False, me_next = False, me_locked = 0, successor_pc = S_absent, predecessor_pc = P_next,
     cycles = 0\<rparr>"

text \<open>A turn of the polling loop while the successor does not run.\<close>

definition polling :: "int \<Rightarrow> handover \<Rightarrow> bool" where
  "polling n s \<longleftrightarrow> predecessor_pc s = P_poll \<and> \<not> prev_next s \<and> cycles s = n"

lemma polling_turn:
  assumes "polling n s"
  shows "handoff_step\<^sup>*\<^sup>* s (thread_predecessor_unlock (thread_predecessor_unlock s))"
    and "n < 10000000 \<Longrightarrow> polling (n + 1) (thread_predecessor_unlock (thread_predecessor_unlock s))"
    and "n = 10000000 \<Longrightarrow> predecessor_pc (thread_predecessor_unlock (thread_predecessor_unlock s)) = P_hanged"
proof -
  have "handoff_step s (thread_predecessor_unlock s)"
    "handoff_step (thread_predecessor_unlock s) (thread_predecessor_unlock (thread_predecessor_unlock s))"
    using assms predecessor [of s] predecessor [of "thread_predecessor_unlock s"]
    by (simp_all add: polling_def thread_predecessor_unlock_def)
  then show "handoff_step\<^sup>*\<^sup>* s (thread_predecessor_unlock (thread_predecessor_unlock s))" by simp
qed (use assms in \<open>auto simp: polling_def thread_predecessor_unlock_def\<close>)

lemma polling_reach:
  assumes "polling 0 s" "k \<le> 10000000"
  shows "\<exists>t. handoff_step\<^sup>*\<^sup>* s t \<and> polling (int k) t"
  using assms(2)
proof (induction k)
  case 0
  then show ?case using assms(1) by auto
next
  case (Suc k)
  then obtain t where t: "handoff_step\<^sup>*\<^sup>* s t" "polling (int k) t" by auto
  with polling_turn(2) [OF t(2)] Suc.prems
  have "polling (int (Suc k)) (thread_predecessor_unlock (thread_predecessor_unlock t))" by (simp add: add.commute)
  with rtranclp_trans [OF t(1) polling_turn(1) [OF t(2)]] show ?case by blast
qed

definition joins_early :: "handover \<Rightarrow> bool" where
  "joins_early s \<longleftrightarrow> predecessor_pc s \<in> {P_join, P_returned} \<and> \<not> prev_next s"

theorem handover_alarm:
  "(\<exists>s. handoff_step\<^sup>*\<^sup>* main_handover s \<and> predecessor_pc s = P_hanged) \<and>
   always handoff_step main_handover (\<lambda>s. \<not> joins_early s)"
proof
  let ?b = "thread_predecessor_unlock (thread_predecessor_unlock main_handover)"
  have "handoff_step main_handover (thread_predecessor_unlock main_handover)"
    "handoff_step (thread_predecessor_unlock main_handover) ?b"
    by (rule predecessor, simp add: main_handover_def thread_predecessor_unlock_def)+
  then have b: "handoff_step\<^sup>*\<^sup>* main_handover ?b" by simp
  have "polling 0 ?b" by (simp add: polling_def main_handover_def thread_predecessor_unlock_def)
  from polling_reach [OF this, of 10000000] obtain t where t: "handoff_step\<^sup>*\<^sup>* ?b t" "polling 10000000 t" by auto
  with b polling_turn(1,3) [OF t(2)] show "\<exists>s. handoff_step\<^sup>*\<^sup>* main_handover s \<and> predecessor_pc s = P_hanged"
    by (meson rtranclp_trans)
next
  show "always handoff_step main_handover (\<lambda>s. \<not> joins_early s)"
  proof (rule always_invariant [of "\<lambda>s. \<not> joins_early s"])
    fix a b assume ok: "\<not> joins_early a" and "handoff_step a b"
    from this(2) ok show "\<not> joins_early b"
      by cases (auto simp: joins_early_def thread_predecessor_unlock_def thread_successor_lock_def split: predecessor_pc.splits successor_pc.splits)
  qed (simp_all add: main_handover_def joins_early_def)
qed

end
