(* ===== verification/Short_Programs.thy ===== *)
theory Short_Programs
  imports Transition_Systems
begin

text \<open>
  The short programs of Layer 1, under sequential consistency: the write lock of Xen
  (\<open>8-CVE-2020-11739-Xen.c\<close>), the owner of a Ceph lock (\<open>10-ceph.c\<close>), the status of libfabric
  (\<open>14-libfabric.c\<close>), store buffering (\<open>18-JDK-8179954.c\<close>), the sequence lock of crossbeam
  (\<open>21-crossbeam.c\<close>) and the version counter of MySQL (\<open>26-mysql-99556.c\<close>). Printing and sleeping
  are left out.
\<close>

section \<open>The write lock of Xen\<close>

abbreviation QW_LOCKED :: c_int where "QW_LOCKED \<equiv> 0xff"

datatype xen_pc = X_load | X_cas c_int | X_returned

record xen_lock =
  cnts :: c_int
  lock_at :: xen_pc
  unlock_done :: bool

text \<open>A failed compare-and-swap stores what it found in a local variable and \<open>write_lock\<close> returns.\<close>

definition write_lock_xen :: "xen_lock \<Rightarrow> xen_lock" where
  "write_lock_xen s = (case lock_at s of
     X_load \<Rightarrow> s\<lparr>lock_at := X_cas (cnts s)\<rparr>
   | X_cas expected \<Rightarrow> s\<lparr>cnts := (if cnts s = expected then QW_LOCKED else cnts s), lock_at := X_returned\<rparr>
   | X_returned \<Rightarrow> s)"

definition write_unlock_xen :: "xen_lock \<Rightarrow> xen_lock" where
  "write_unlock_xen s = s\<lparr>cnts := 0, unlock_done := True\<rparr>"

inductive xen_step :: "xen_lock \<Rightarrow> xen_lock \<Rightarrow> bool" where
  thread_fuction: "\<not> unlock_done s \<Longrightarrow> xen_step s (write_unlock_xen s)"
| thread_fuction1: "lock_at s \<noteq> X_returned \<Longrightarrow> xen_step s (write_lock_xen s)"

definition xen_init :: xen_lock where
  "xen_init = \<lparr>cnts = 0, lock_at = X_load, unlock_done = False\<rparr>"

text \<open>
  The lock excludes nobody: by itself \<open>write_lock\<close> returns after two steps with the lock taken,
  whoever holds it already. In the program \<open>cnts\<close> is never anything but free or locked.
\<close>

theorem xen_lock_always_taken:
  "(write_lock_xen ^^ 2) \<lparr>cnts = c, lock_at = X_load, unlock_done = u\<rparr> =
     \<lparr>cnts = QW_LOCKED, lock_at = X_returned, unlock_done = u\<rparr>"
  by (simp add: write_lock_xen_def numeral_2_eq_2)

lemma xen_counts: "always xen_step xen_init (\<lambda>s. cnts s \<in> {0, QW_LOCKED})"
proof (rule always_invariant [of "\<lambda>s. cnts s \<in> {0, QW_LOCKED}"])
  fix a b assume ok: "cnts a \<in> {0, QW_LOCKED}" and "xen_step a b"
  from this(2) ok show "cnts b \<in> {0, QW_LOCKED}"
    by cases (auto simp: write_lock_xen_def write_unlock_xen_def split: xen_pc.splits)
qed (simp_all add: xen_init_def)

section \<open>The owner of a Ceph lock\<close>

datatype post_pc = P_recursive | P_assert | P_owner | P_count c_int | P_load | P_failed | P_returned

datatype owner_pc = O_count | O_owner | O_returned bool

record ceph =
  nlock :: c_int
  locked_by :: "64 word"
  ceph_recursive :: c_int
  post_pc :: post_pc
  owner_pc :: owner_pc

text \<open>\<open>self\<close> is what \<open>pthread_self\<close> returns in the thread.\<close>

definition post_lock :: "64 word \<Rightarrow> ceph \<Rightarrow> ceph" where
  "post_lock self s = (case post_pc s of
     P_recursive \<Rightarrow> s\<lparr>post_pc := (if ceph_recursive s = 0 then P_assert else P_owner)\<rparr>
   | P_assert \<Rightarrow> s\<lparr>post_pc := (if nlock s = 0 then P_owner else P_failed)\<rparr>
   | P_owner \<Rightarrow> s\<lparr>locked_by := self, post_pc := P_load\<rparr>
   | P_load \<Rightarrow> s\<lparr>post_pc := P_count (nlock s)\<rparr>
   | P_count n \<Rightarrow> s\<lparr>nlock := n + 1, post_pc := P_returned\<rparr>
   | _ \<Rightarrow> s)"

definition is_locked_by_me :: "64 word \<Rightarrow> ceph \<Rightarrow> ceph" where
  "is_locked_by_me self s = (case owner_pc s of
     O_count \<Rightarrow> s\<lparr>owner_pc := (if nlock s \<noteq> 0 then O_owner else O_returned False)\<rparr>
   | O_owner \<Rightarrow> s\<lparr>owner_pc := O_returned (locked_by s = self)\<rparr>
   | O_returned _ \<Rightarrow> s)"

inductive ceph_step :: "64 word \<Rightarrow> 64 word \<Rightarrow> ceph \<Rightarrow> ceph \<Rightarrow> bool" for t1 t2 where
  lock_thread: "post_pc s \<noteq> P_failed \<Longrightarrow> ceph_step t1 t2 s (post_lock t1 s)"
| check_lock_thread: "post_pc s \<noteq> P_failed \<Longrightarrow> ceph_step t1 t2 s (is_locked_by_me t2 s)"

definition ceph_init :: ceph where
  "ceph_init = \<lparr>nlock = 0, locked_by = 0, ceph_recursive = 0, post_pc = P_recursive, owner_pc = O_count\<rparr>"

definition ceph_ok :: "64 word \<Rightarrow> ceph \<Rightarrow> bool" where
  "ceph_ok t1 s \<longleftrightarrow> (post_pc s \<noteq> P_returned \<longrightarrow> nlock s = 0 \<and> owner_pc s \<noteq> O_owner) \<and> post_pc s \<noteq> P_failed \<and>
     (post_pc s = P_returned \<or> post_pc s = P_load \<or> (\<exists>n. post_pc s = P_count n) \<longrightarrow> locked_by s = t1) \<and>
     owner_pc s \<noteq> O_returned True"

lemma ceph_ok_step:
  assumes "t1 \<noteq> t2" "ceph_step t1 t2 s t" "ceph_ok t1 s"
  shows "ceph_ok t1 t"
  using assms(2)
proof cases
  case lock_thread
  then show ?thesis using assms(3) by (cases "post_pc s") (auto simp: ceph_ok_def post_lock_def)
next
  case check_lock_thread
  then show ?thesis using assms(1,3) by (cases "owner_pc s") (auto simp: ceph_ok_def is_locked_by_me_def)
qed

text \<open>Threads with different numbers: the assertion holds, and no thread takes another's lock for its own.\<close>

theorem ceph_owner:
  assumes "t1 \<noteq> t2"
  shows "always (ceph_step t1 t2) ceph_init (\<lambda>s. post_pc s \<noteq> P_failed \<and> owner_pc s \<noteq> O_returned True)"
proof (rule always_invariant [of "ceph_ok t1"])
  show "ceph_ok t1 ceph_init" by (simp add: ceph_ok_def ceph_init_def)
next
  fix a b assume "ceph_ok t1 a" "ceph_step t1 t2 a b"
  then show "ceph_ok t1 b" by (blast intro: ceph_ok_step [OF assms])
qed (simp add: ceph_ok_def)

section \<open>The status of libfabric\<close>

text \<open>Addresses are numbers of bytes; a \<open>Resp\<close> is one \<open>int\<close> of four bytes, and four are allocated.\<close>

definition smr_get_ptr :: "nat \<Rightarrow> nat \<Rightarrow> nat" where
  "smr_get_ptr base offset = base + offset"

definition smr_progress_cmd_atomic :: "nat \<Rightarrow> nat set \<times> nat set" where
  "smr_progress_cmd_atomic peer_smr =
     (let resp = smr_get_ptr peer_smr 2 in ({peer_smr..<peer_smr + 16}, {resp..<resp + 4}))"

text \<open>
  The bytes allocated and those written: the write stays inside, but wherever the allocation starts at
  a multiple of four it does not, and the code casts the address to a pointer to \<open>Resp\<close>.
\<close>

theorem libfabric_write:
  "case smr_progress_cmd_atomic p of (allocated, written) \<Rightarrow>
     written \<subseteq> allocated \<and> card written = 4 \<and> (4 dvd p \<longrightarrow> (\<exists>a \<in> written. (\<forall>b \<in> written. a \<le> b) \<and> \<not> 4 dvd a))"
proof -
  have "\<exists>a \<in> {p + 2..<p + 6}. (\<forall>b \<in> {p + 2..<p + 6}. a \<le> b) \<and> \<not> 4 dvd a" if "4 dvd p"
  proof (rule bexI [of _ "p + 2"])
    have "\<not> 4 dvd p + 2"
      using that by presburger
    then show "(\<forall>b \<in> {p + 2..<p + 6}. p + 2 \<le> b) \<and> \<not> 4 dvd p + 2" by simp
  qed simp
  moreover have "smr_progress_cmd_atomic p = ({p..<p + 16}, {p + 2..<p + 6})"
    by (simp add: smr_progress_cmd_atomic_def smr_get_ptr_def add.commute)
  moreover have "{p + 2..<p + 6} \<subseteq> {p..<p + 16}" "card {p + 2..<p + 6} = 4" by auto
  ultimately show ?thesis by (simp only: prod.case) blast
qed

section \<open>Store buffering\<close>

datatype jdk_pc = J_store | J_load | J_keep c_int | J_returned

record jdk18 =
  jdk_x :: c_int
  jdk_y :: c_int
  jdk_r1 :: c_int
  jdk_r2 :: c_int
  jdk_1 :: jdk_pc
  jdk_2 :: jdk_pc

definition thread1_func_jdk :: "jdk18 \<Rightarrow> jdk18" where
  "thread1_func_jdk s = (case jdk_1 s of
     J_store \<Rightarrow> s\<lparr>jdk_x := 1, jdk_1 := J_load\<rparr>
   | J_load \<Rightarrow> s\<lparr>jdk_1 := J_keep (jdk_y s)\<rparr>
   | J_keep v \<Rightarrow> s\<lparr>jdk_r1 := v, jdk_1 := J_returned\<rparr>
   | J_returned \<Rightarrow> s)"

definition thread2_func_jdk :: "jdk18 \<Rightarrow> jdk18" where
  "thread2_func_jdk s = (case jdk_2 s of
     J_store \<Rightarrow> s\<lparr>jdk_y := 1, jdk_2 := J_load\<rparr>
   | J_load \<Rightarrow> s\<lparr>jdk_2 := J_keep (jdk_x s)\<rparr>
   | J_keep v \<Rightarrow> s\<lparr>jdk_r2 := v, jdk_2 := J_returned\<rparr>
   | J_returned \<Rightarrow> s)"

inductive jdk_step :: "jdk18 \<Rightarrow> jdk18 \<Rightarrow> bool" where
  jdk_thread_1: "jdk_step s (thread1_func_jdk s)"
| jdk_thread_2: "jdk_step s (thread2_func_jdk s)"

definition jdk_init :: jdk18 where
  "jdk_init = \<lparr>jdk_x = 0, jdk_y = 0, jdk_r1 = 0, jdk_r2 = 0, jdk_1 = J_store, jdk_2 = J_store\<rparr>"

text \<open>What \<open>main\<close> prints when it has joined both threads.\<close>

definition printed :: "jdk18 \<Rightarrow> (c_int \<times> c_int) option" where
  "printed s = (if jdk_1 s = J_returned \<and> jdk_2 s = J_returned then Some (jdk_r1 s, jdk_r2 s) else None)"

fun jdk_loaded :: "c_int \<Rightarrow> jdk_pc \<Rightarrow> c_int option" where
  "jdk_loaded r (J_keep v) = Some v" | "jdk_loaded r J_returned = Some r" | "jdk_loaded r _ = None"

definition jdk_ok :: "jdk18 \<Rightarrow> bool" where
  "jdk_ok s \<longleftrightarrow> (jdk_1 s \<noteq> J_store \<longrightarrow> jdk_x s = 1) \<and> (jdk_2 s \<noteq> J_store \<longrightarrow> jdk_y s = 1) \<and>
     \<not> (jdk_loaded (jdk_r1 s) (jdk_1 s) = Some 0 \<and> jdk_loaded (jdk_r2 s) (jdk_2 s) = Some 0)"

lemma jdk_ok_step: "jdk_step s t \<Longrightarrow> jdk_ok s \<Longrightarrow> jdk_ok t"
  by (erule jdk_step.cases) (auto simp: jdk_ok_def thread1_func_jdk_def thread2_func_jdk_def split: jdk_pc.splits)

definition jdk_run :: "bool list \<Rightarrow> jdk18" where
  "jdk_run bs = foldl (\<lambda>s b. if b then thread1_func_jdk s else thread2_func_jdk s) jdk_init bs"

lemma jdk_run_reach: "jdk_step\<^sup>*\<^sup>* jdk_init (jdk_run bs)"
  unfolding jdk_run_def by (rule foldl_reach) (auto intro: jdk_thread_1 jdk_thread_2)

theorem jdk_outcomes:
  "{v. \<exists>s. jdk_step\<^sup>*\<^sup>* jdk_init s \<and> printed s = Some v} \<supseteq> {(0, 1), (1, 0), (1, 1)} \<and>
   (\<nexists>s. jdk_step\<^sup>*\<^sup>* jdk_init s \<and> printed s = Some (0, 0))"
proof
  have "printed (jdk_run [True, True, True, False, False, False]) = Some (0, 1)"
    "printed (jdk_run [False, False, False, True, True, True]) = Some (1, 0)"
    "printed (jdk_run [True, False, True, True, False, False]) = Some (1, 1)"
    by (simp_all add: jdk_run_def printed_def jdk_init_def thread1_func_jdk_def thread2_func_jdk_def)
  then show "{v. \<exists>s. jdk_step\<^sup>*\<^sup>* jdk_init s \<and> printed s = Some v} \<supseteq> {(0, 1), (1, 0), (1, 1)}"
    using jdk_run_reach by blast
  have "always jdk_step jdk_init jdk_ok"
  proof (rule always_invariant)
    show "jdk_ok jdk_init" by (simp add: jdk_ok_def jdk_init_def)
  next
    fix a b assume "jdk_ok a" "jdk_step a b"
    then show "jdk_ok b" by (blast intro: jdk_ok_step)
  qed
  then show "\<nexists>s. jdk_step\<^sup>*\<^sup>* jdk_init s \<and> printed s = Some (0, 0)"
    unfolding always_def by (auto simp: jdk_ok_def printed_def split: if_splits)
qed

section \<open>The sequence lock of crossbeam\<close>

datatype seq_reader = Q_stamp | Q_value | Q_validate c_int | Q_returned | Q_accepts c_int

datatype seq_writer = Q_exchange | Q_write | Q_written

record seqlock =
  seq_state :: c_int
  seq_shared :: c_int
  seq_reader :: seq_reader
  seq_writer :: seq_writer

text \<open>\<open>Q_accepts v\<close>: the reader has returned after the validation of \<open>v\<close> succeeded.\<close>

definition reader_seq :: "seqlock \<Rightarrow> seqlock" where
  "reader_seq s = (case seq_reader s of
     Q_stamp \<Rightarrow> s\<lparr>seq_reader := (if seq_state s \<noteq> 0 then Q_returned else Q_value)\<rparr>
   | Q_value \<Rightarrow> s\<lparr>seq_reader := Q_validate (seq_shared s)\<rparr>
   | Q_validate v \<Rightarrow> s\<lparr>seq_reader := (if seq_state s = 0 then Q_accepts v else Q_returned)\<rparr>
   | _ \<Rightarrow> s)"

definition writer_seq :: "seqlock \<Rightarrow> seqlock" where
  "writer_seq s = (case seq_writer s of
     Q_exchange \<Rightarrow> s\<lparr>seq_state := 1, seq_writer := Q_write\<rparr>
   | Q_write \<Rightarrow> s\<lparr>seq_shared := 1, seq_writer := Q_written\<rparr>
   | Q_written \<Rightarrow> s)"

inductive seq_step :: "seqlock \<Rightarrow> seqlock \<Rightarrow> bool" where
  seq_read: "seq_step s (reader_seq s)"
| seq_write: "seq_step s (writer_seq s)"

definition seq_init :: seqlock where
  "seq_init = \<lparr>seq_state = 0, seq_shared = 0, seq_reader = Q_stamp, seq_writer = Q_exchange\<rparr>"

definition seq_ok :: "seqlock \<Rightarrow> bool" where
  "seq_ok s \<longleftrightarrow> (seq_state s = 0 \<longrightarrow> seq_shared s = 0 \<and> seq_writer s = Q_exchange) \<and>
     (\<forall>v. seq_reader s = Q_validate v \<longrightarrow> seq_state s = 0 \<longrightarrow> v = 0) \<and> (\<forall>v. seq_reader s = Q_accepts v \<longrightarrow> v = 0)"

lemma seq_ok_step: "seq_step s t \<Longrightarrow> seq_ok s \<Longrightarrow> seq_ok t"
  by (erule seq_step.cases) (auto simp: seq_ok_def reader_seq_def writer_seq_def split: seq_reader.splits seq_writer.splits)

theorem seqlock_accepts_old: "always seq_step seq_init (\<lambda>s. seq_reader s \<noteq> Q_accepts 1)"
proof (rule always_invariant [of seq_ok])
  show "seq_ok seq_init" by (simp add: seq_ok_def seq_init_def)
next
  fix a b assume "seq_ok a" "seq_step a b"
  then show "seq_ok b" by (blast intro: seq_ok_step)
qed (auto simp: seq_ok_def)

section \<open>The version counter of MySQL\<close>

datatype cache_pc = K_running | K_counter | K_mode c_int | K_returned

datatype version_pc = V_write nat | V_add nat | V_stop | V_returned

record gtid =
  gtid_mode :: c_int
  gtid_mode_counter :: c_int
  cached_gtid_mode :: c_int
  cached_counter :: c_int
  running :: c_int
  cache_pc :: cache_pc
  version_pc :: version_pc
  new_value :: c_int

definition reader_gtid :: "gtid \<Rightarrow> gtid" where
  "reader_gtid s = (case cache_pc s of
     K_running \<Rightarrow> s\<lparr>cache_pc := (if running s \<noteq> 0 then K_counter else K_returned)\<rparr>
   | K_counter \<Rightarrow> s\<lparr>cache_pc := (if gtid_mode_counter s \<noteq> cached_counter s then K_mode (gtid_mode_counter s) else K_running)\<rparr>
   | K_mode cur_counter \<Rightarrow> s\<lparr>cached_gtid_mode := gtid_mode s, cached_counter := cur_counter, cache_pc := K_running\<rparr>
   | K_returned \<Rightarrow> s)"

definition writer_gtid :: "gtid \<Rightarrow> gtid" where
  "writer_gtid s = (case version_pc s of
     V_write i \<Rightarrow>
       (if i < 5 then
          let v = (if new_value s = 0 then 1 else 0) in s\<lparr>new_value := v, gtid_mode := v, version_pc := V_add i\<rparr>
        else s\<lparr>version_pc := V_stop\<rparr>)
   | V_add i \<Rightarrow> s\<lparr>gtid_mode_counter := gtid_mode_counter s + 1, version_pc := V_write (i + 1)\<rparr>
   | V_stop \<Rightarrow> s\<lparr>running := 0, version_pc := V_returned\<rparr>
   | V_returned \<Rightarrow> s)"

inductive gtid_step :: "gtid \<Rightarrow> gtid \<Rightarrow> bool" where
  gtid_read: "gtid_step s (reader_gtid s)"
| gtid_write: "gtid_step s (writer_gtid s)"

definition gtid_init :: gtid where
  "gtid_init = \<lparr>gtid_mode = 0, gtid_mode_counter = 0, cached_gtid_mode = - 1, cached_counter = - 1, running = 1,
     cache_pc = K_running, version_pc = V_write 0, new_value = 0\<rparr>"

text \<open>The counter is the number of versions written, and the mode the parity of the version.\<close>

definition version_mode :: "nat \<Rightarrow> c_int" where
  "version_mode i = (if even i then 0 else 1)"

lemma version_mode_Suc: "version_mode (Suc i) = (if version_mode i = 0 then 1 else 0)"
  by (simp add: version_mode_def)

fun version_ok :: "version_pc \<Rightarrow> gtid \<Rightarrow> bool" where
  "version_ok (V_write i) s \<longleftrightarrow> i \<le> 5 \<and> gtid_mode_counter s = word_of_nat i \<and> gtid_mode s = version_mode i \<and>
     new_value s = gtid_mode s"
| "version_ok (V_add i) s \<longleftrightarrow> i < 5 \<and> gtid_mode_counter s = word_of_nat i \<and> gtid_mode s = version_mode (Suc i) \<and>
     new_value s = gtid_mode s"
| "version_ok _ s \<longleftrightarrow> gtid_mode_counter s = word_of_nat 5 \<and> gtid_mode s = version_mode 5"

lemma version_ok_reader: "version_ok v (reader_gtid s) = version_ok v s" "version_pc (reader_gtid s) = version_pc s"
  by (cases "cache_pc s"; cases v; simp add: reader_gtid_def)+

lemma version_ok_writer:
  assumes "version_ok (version_pc s) s"
  shows "version_ok (version_pc (writer_gtid s)) (writer_gtid s)"
proof (cases "version_pc s")
  case (V_write i)
  then show ?thesis
  proof (cases "i < 5")
    case False
    with V_write assms have "i = 5" by simp
    with V_write assms show ?thesis by (simp add: writer_gtid_def)
  qed (use V_write assms in \<open>simp add: writer_gtid_def Let_def version_mode_Suc\<close>)
qed (use assms in \<open>simp_all add: writer_gtid_def add.commute\<close>)

lemma always_version_ok: "always gtid_step gtid_init (\<lambda>s. version_ok (version_pc s) s)"
proof (rule always_invariant [of "\<lambda>s. version_ok (version_pc s) s"])
  fix a b assume ok: "version_ok (version_pc a) a" and "gtid_step a b"
  from this(2) ok show "version_ok (version_pc b) b"
    by cases (simp_all only: version_ok_reader version_ok_writer)
qed (simp_all add: gtid_init_def version_mode_def)

definition gtid_run :: "bool list \<Rightarrow> gtid" where
  "gtid_run bs = foldl (\<lambda>s b. if b then reader_gtid s else writer_gtid s) gtid_init bs"

lemma gtid_run_reach: "gtid_step\<^sup>*\<^sup>* gtid_init (gtid_run bs)"
  unfolding gtid_run_def by (rule foldl_reach) (auto intro: gtid_read gtid_write)

theorem gtid_cache:
  "always gtid_step gtid_init (\<lambda>s. version_ok (version_pc s) s) \<and>
   (\<exists>s. gtid_step\<^sup>*\<^sup>* gtid_init s \<and> cached_counter s = 1 \<and> cached_gtid_mode s = 0) \<and>
   (\<exists>s. gtid_step\<^sup>*\<^sup>* gtid_init s \<and> version_pc s = V_returned \<and> cache_pc s = K_returned \<and> cached_counter s = - 1)"
proof (intro conjI always_version_ok)
  let ?r = "gtid_run [False, False, True, True, False, True]" and ?q = "gtid_run (replicate 12 False @ [True])"
  have "cached_counter ?r = 1 \<and> cached_gtid_mode ?r = 0"
    by (simp add: gtid_run_def gtid_init_def reader_gtid_def writer_gtid_def)
  with gtid_run_reach show "\<exists>s. gtid_step\<^sup>*\<^sup>* gtid_init s \<and> cached_counter s = 1 \<and> cached_gtid_mode s = 0" by blast
  have "version_pc ?q = V_returned \<and> cache_pc ?q = K_returned \<and> cached_counter ?q = - 1" by code_simp
  with gtid_run_reach show "\<exists>s. gtid_step\<^sup>*\<^sup>* gtid_init s \<and> version_pc s = V_returned \<and> cache_pc s = K_returned \<and>
      cached_counter s = - 1" by blast
qed

end
