(* ===== verification/Cpp_Programs.thy ===== *)
theory Cpp_Programs
  imports Merging
begin

text \<open>
  The C++ programs of Layer 1: \<open>12-DragonWell8Easy.cpp\<close>, the lazily created package table of the JDK
  with any number of threads, and \<open>19-ompi.cpp\<close>, the header of Open MPI, under sequential
  consistency; \<open>20-barrier.cpp\<close> and \<open>32-datarace.cpp\<close>, which publish a number that the reader
  formats, on the three memory models.
\<close>

section \<open>Double-checked locking\<close>

abbreviation PACKAGE_TABLE_ENTRY_SIZE :: nat where "PACKAGE_TABLE_ENTRY_SIZE \<equiv> 10"

text \<open>
  Tables are numbered in the order of their allocation; \<open>G_zero\<close> is the member initialiser of the
  new table, \<open>G_bucket a i\<close> the turn \<open>i\<close> of the loop of its constructor, \<open>G_publish\<close> the assignment
  to \<open>globalPackageTable\<close>.
\<close>

datatype dcl_pc =
  G_test | G_lock | G_again | G_new | G_zero nat | G_bucket nat nat | G_publish nat | G_unlock | G_load
| G_returned "nat option"

record package_table =
  globalPackageTable :: "nat option"
  globalTableLock :: "nat option"
  tables :: nat
  buckets :: "nat \<Rightarrow> nat option list"
  dcl_pc :: "nat \<Rightarrow> dcl_pc"

definition goto_dcl :: "nat \<Rightarrow> dcl_pc \<Rightarrow> package_table \<Rightarrow> package_table" where
  "goto_dcl t p s = s\<lparr>dcl_pc := (dcl_pc s)(t := p)\<rparr>"

text \<open>The constructor; the memory it is given holds the arbitrary pointers \<open>junk\<close>.\<close>

definition PackageEntryTable :: "nat option list \<Rightarrow> nat \<Rightarrow> package_table \<Rightarrow> package_table" where
  "PackageEntryTable junk t s = (case dcl_pc s t of
     G_new \<Rightarrow> goto_dcl t (G_zero (tables s)) (s\<lparr>tables := tables s + 1, buckets := (buckets s)(tables s := junk)\<rparr>)
   | G_zero a \<Rightarrow> goto_dcl t (G_bucket a 0) (s\<lparr>buckets := (buckets s)(a := replicate PACKAGE_TABLE_ENTRY_SIZE None)\<rparr>)
   | G_bucket a i \<Rightarrow>
       if i < PACKAGE_TABLE_ENTRY_SIZE
       then goto_dcl t (G_bucket a (i + 1)) (s\<lparr>buckets := (buckets s)(a := (buckets s a)[i := None])\<rparr>)
       else goto_dcl t (G_publish a) s
   | _ \<Rightarrow> s)"

definition getOrCreatePackageEntryTable :: "nat option list \<Rightarrow> nat \<Rightarrow> package_table \<Rightarrow> package_table" where
  "getOrCreatePackageEntryTable junk t s = (case dcl_pc s t of
     G_test \<Rightarrow> goto_dcl t (if globalPackageTable s = None then G_lock else G_load) s
   | G_lock \<Rightarrow> if globalTableLock s = None then goto_dcl t G_again (s\<lparr>globalTableLock := Some t\<rparr>) else s
   | G_again \<Rightarrow> goto_dcl t (if globalPackageTable s = None then G_new else G_unlock) s
   | G_publish a \<Rightarrow> goto_dcl t G_unlock (s\<lparr>globalPackageTable := Some a\<rparr>)
   | G_unlock \<Rightarrow> goto_dcl t G_load (s\<lparr>globalTableLock := None\<rparr>)
   | G_load \<Rightarrow> goto_dcl t (G_returned (globalPackageTable s)) s
   | G_returned _ \<Rightarrow> s
   | _ \<Rightarrow> PackageEntryTable junk t s)"

inductive dcl_step :: "package_table \<Rightarrow> package_table \<Rightarrow> bool" where
  threadRoutine: "length junk = PACKAGE_TABLE_ENTRY_SIZE \<Longrightarrow> dcl_step s (getOrCreatePackageEntryTable junk t s)"

definition dcl_init :: package_table where
  "dcl_init = \<lparr>globalPackageTable = None, globalTableLock = None, tables = 0, buckets = (\<lambda>_. []),
     dcl_pc = (\<lambda>_. G_test)\<rparr>"

subsection \<open>The table is created once\<close>

definition cleared :: "package_table \<Rightarrow> nat \<Rightarrow> bool" where
  "cleared s a \<longleftrightarrow> a = 0 \<and> buckets s a = replicate PACKAGE_TABLE_ENTRY_SIZE None"

definition unpublished :: "nat \<Rightarrow> package_table \<Rightarrow> bool" where
  "unpublished n s \<longleftrightarrow> globalPackageTable s = None \<and> tables s = n"

definition published :: "package_table \<Rightarrow> bool" where
  "published s \<longleftrightarrow> globalPackageTable s = Some 0 \<and> tables s = 1 \<and> cleared s 0"

definition holding :: "dcl_pc \<Rightarrow> bool" where
  "holding p \<longleftrightarrow> (case p of G_test \<Rightarrow> False | G_lock \<Rightarrow> False | G_load \<Rightarrow> False | G_returned _ \<Rightarrow> False | _ \<Rightarrow> True)"

text \<open>What the place of the thread with the lock says of the table, and what the others' says.\<close>

definition progress :: "package_table \<Rightarrow> dcl_pc \<Rightarrow> bool" where
  "progress s p \<longleftrightarrow> (case p of
     G_again \<Rightarrow> unpublished 0 s \<or> published s
   | G_new \<Rightarrow> unpublished 0 s
   | G_zero a \<Rightarrow> unpublished 1 s \<and> a = 0
   | G_bucket a i \<Rightarrow> unpublished 1 s \<and> cleared s a
   | G_publish a \<Rightarrow> unpublished 1 s \<and> cleared s a
   | G_unlock \<Rightarrow> published s
   | _ \<Rightarrow> True)"

definition outcome :: "package_table \<Rightarrow> dcl_pc \<Rightarrow> bool" where
  "outcome s p \<longleftrightarrow> (case p of G_load \<Rightarrow> published s | G_returned r \<Rightarrow> published s \<and> r = Some 0 | _ \<Rightarrow> True)"

definition dcl_ok :: "package_table \<Rightarrow> bool" where
  "dcl_ok s \<longleftrightarrow> (\<forall>t. holding (dcl_pc s t) \<longleftrightarrow> globalTableLock s = Some t) \<and>
     (globalTableLock s = None \<longrightarrow> unpublished 0 s \<or> published s) \<and>
     (\<forall>t. progress s (dcl_pc s t)) \<and> (\<forall>t. outcome s (dcl_pc s t))"

lemmas table_defs = published_def unpublished_def cleared_def
lemmas create_defs = getOrCreatePackageEntryTable_def PackageEntryTable_def goto_dcl_def

lemma other_pc [simp]: "u \<noteq> t \<Longrightarrow> dcl_pc (getOrCreatePackageEntryTable junk t s) u = dcl_pc s u"
  by (simp add: create_defs split: dcl_pc.splits)

lemma table_unchanged:
  assumes "\<not> holding (dcl_pc s t)"
  shows "progress (getOrCreatePackageEntryTable junk t s) p = progress s p"
    "published (getOrCreatePackageEntryTable junk t s) = published s"
    "unpublished n (getOrCreatePackageEntryTable junk t s) = unpublished n s"
  using assms by (auto simp: holding_def progress_def table_defs create_defs split: dcl_pc.splits)

lemma replicate_update [simp]: "(replicate n x)[i := x] = replicate n x"
  by (cases "i < n") (simp_all add: list_update_same_conv list_update_beyond)

text \<open>The stepping thread keeps its own part.\<close>

lemma own_progress:
  assumes "progress s (dcl_pc s t)" "globalTableLock s = None \<longrightarrow> unpublished 0 s \<or> published s"
  shows "progress (getOrCreatePackageEntryTable junk t s) (dcl_pc (getOrCreatePackageEntryTable junk t s) t)"
  using assms by (cases "dcl_pc s t") (auto simp: progress_def table_defs create_defs)

lemma own_outcome:
  assumes "progress s (dcl_pc s t)" "outcome s (dcl_pc s t)" "globalPackageTable s = None \<or> published s"
  shows "outcome (getOrCreatePackageEntryTable junk t s) (dcl_pc (getOrCreatePackageEntryTable junk t s) t)"
  using assms by (cases "dcl_pc s t") (auto simp: progress_def outcome_def table_defs create_defs)

lemma published_step:
  assumes "progress s (dcl_pc s t)" "published s"
  shows "published (getOrCreatePackageEntryTable junk t s)"
  using assms by (cases "dcl_pc s t") (auto simp: progress_def table_defs create_defs)

lemma holding_step:
  assumes "\<forall>t. holding (dcl_pc s t) \<longleftrightarrow> globalTableLock s = Some t"
  shows "holding (dcl_pc (getOrCreatePackageEntryTable junk t s) u) \<longleftrightarrow>
    globalTableLock (getOrCreatePackageEntryTable junk t s) = Some u"
  using spec [OF assms, of t] spec [OF assms, of u]
  by (cases "u = t"; cases "dcl_pc s t") (auto simp: holding_def create_defs)

lemma free_step:
  assumes "progress s (dcl_pc s t)" "globalTableLock s = None \<longrightarrow> unpublished 0 s \<or> published s"
    "holding (dcl_pc s t) \<longleftrightarrow> globalTableLock s = Some t"
    "globalTableLock (getOrCreatePackageEntryTable junk t s) = None"
  shows "unpublished 0 (getOrCreatePackageEntryTable junk t s) \<or> published (getOrCreatePackageEntryTable junk t s)"
  using assms by (cases "dcl_pc s t") (auto simp: progress_def holding_def table_defs create_defs split: if_splits)

text \<open>Whoever holds the lock, the pointer is null or points to the finished table.\<close>

lemma pointer_cases: "dcl_ok s \<Longrightarrow> globalPackageTable s = None \<or> published s"
proof (cases "globalTableLock s")
  case (Some t)
  assume ok: "dcl_ok s"
  with Some have "holding (dcl_pc s t)" "progress s (dcl_pc s t)" by (simp_all add: dcl_ok_def)
  then show ?thesis by (auto simp: holding_def progress_def unpublished_def split: dcl_pc.splits)
qed (auto simp: dcl_ok_def unpublished_def)

lemma outcome_mono: "outcome s p \<Longrightarrow> (published s \<Longrightarrow> published s') \<Longrightarrow> outcome s' p"
  by (simp add: outcome_def split: dcl_pc.splits)

lemma progress_other: "\<not> holding p \<Longrightarrow> progress s p"
  by (simp add: holding_def progress_def split: dcl_pc.splits)

lemma dcl_ok_step:
  assumes ok: "dcl_ok s"
  shows "dcl_ok (getOrCreatePackageEntryTable junk t s)" (is "dcl_ok ?s")
  unfolding dcl_ok_def
proof (intro conjI allI impI)
  note parts = ok [unfolded dcl_ok_def]
  show "holding (dcl_pc ?s u) \<longleftrightarrow> globalTableLock ?s = Some u" for u
    using parts by (blast intro: holding_step [THEN iffD1] holding_step [THEN iffD2])
  show "unpublished 0 ?s \<or> published ?s" if "globalTableLock ?s = None"
    using free_step [of s t junk] parts that by blast
  show "progress ?s (dcl_pc ?s u)" for u
  proof (cases "u = t")
    case False
    show ?thesis
    proof (cases "holding (dcl_pc s u)")
      case True
      with parts False have "\<not> holding (dcl_pc s t)" by auto
      with parts False show ?thesis by (simp add: table_unchanged)
    qed (use False in \<open>simp add: progress_other\<close>)
  qed (use own_progress [of s t junk] parts in blast)
  show "outcome ?s (dcl_pc ?s u)" for u
  proof (cases "u = t")
    case False
    with parts show ?thesis by (metis other_pc outcome_mono published_step)
  qed (use own_outcome [of s t junk] parts pointer_cases [OF ok] in blast)
qed

lemma always_dcl_ok: "always dcl_step dcl_init dcl_ok"
proof (rule always_invariant)
  show "dcl_ok dcl_init"
    by (simp add: dcl_ok_def dcl_init_def holding_def progress_def outcome_def unpublished_def)
next
  fix a b assume "dcl_ok a" "dcl_step a b"
  then show "dcl_ok b" by (auto elim!: dcl_step.cases intro: dcl_ok_step)
qed

text \<open>What a thread may have got from the function when it has returned.\<close>

definition got_table :: "package_table \<Rightarrow> dcl_pc \<Rightarrow> bool" where
  "got_table s p \<longleftrightarrow> (case p of G_returned r \<Rightarrow> r = Some 0 \<and> tables s = 1 \<and> buckets s 0 = replicate 10 None | _ \<Rightarrow> True)"

lemma table_bound: "dcl_ok s \<Longrightarrow> tables s \<le> 1"
proof (cases "globalTableLock s")
  case (Some t)
  assume "dcl_ok s"
  with Some have "holding (dcl_pc s t)" "progress s (dcl_pc s t)" by (simp_all add: dcl_ok_def)
  then show ?thesis by (auto simp: holding_def progress_def unpublished_def published_def split: dcl_pc.splits)
qed (auto simp: dcl_ok_def unpublished_def published_def)

text \<open>
  C22. Under sequential consistency, however many threads ask for the package table, at most
  one is ever created, and every thread that has returned has got it, with all its buckets
  cleared by the constructor, although the first test of the pointer is made without the lock.
  That test is right only as long as stores stay in order: the source asks for a release store
  and an acquire load there and has neither, and on PSO the version of this program for GENMC
  does read the pointer before what it points to, \<open>Genmc_Publication\<close>.
\<close>

theorem package_table_once:
  "always dcl_step dcl_init (\<lambda>s. tables s \<le> 1 \<and> (\<forall>t. got_table s (dcl_pc s t)))"
proof (rule always_mono [OF always_dcl_ok], intro conjI allI)
  fix s t assume ok: "dcl_ok s"
  then show "tables s \<le> 1" by (rule table_bound)
  from ok have "outcome s (dcl_pc s t)" by (simp add: dcl_ok_def)
  then show "got_table s (dcl_pc s t)"
    by (simp add: outcome_def got_table_def published_def cleared_def split: dcl_pc.splits)
qed

section \<open>The header of Open MPI\<close>

record fbox_hdr =
  hdr_size :: "32 word"
  hdr_tag :: "16 word"
  hdr_seq :: "16 word"

datatype hdr_writer = H_loop nat | H_assign nat | H_leave nat

text \<open>
  Turn \<open>i\<close> of the writer has the local variable \<open>tmp\<close> of its own: \<open>frame\<close> is the turn whose variable
  is alive, with its value, and a pointer is the turn of the variable it points to. \<open>shown\<close> holds the
  pointers the reader has printed.
\<close>

record vader =
  global_hdr :: "nat option"
  frame :: "(nat \<times> fbox_hdr) option"
  hdr_writer :: hdr_writer
  hdr_reader :: nat
  shown :: "nat option list"

definition mca_btl_vader_fbox_set_header :: "vader \<Rightarrow> vader" where
  "mca_btl_vader_fbox_set_header s = (case hdr_writer s of
     H_loop i \<Rightarrow>
       if i < 5 then s\<lparr>frame := Some (i, \<lparr>hdr_size = 1024, hdr_tag = 1, hdr_seq = word_of_nat i\<rparr>), hdr_writer := H_assign i\<rparr>
       else s
   | H_assign i \<Rightarrow> s\<lparr>global_hdr := Some i, hdr_writer := H_leave i\<rparr>
   | H_leave i \<Rightarrow> s\<lparr>frame := None, hdr_writer := H_loop (i + 1)\<rparr>)"

definition mca_btl_vader_fbox_read_header :: "vader \<Rightarrow> vader" where
  "mca_btl_vader_fbox_read_header s =
     (if hdr_reader s < 5 then s\<lparr>shown := shown s @ [global_hdr s], hdr_reader := hdr_reader s + 1\<rparr> else s)"

inductive vader_step :: "vader \<Rightarrow> vader \<Rightarrow> bool" where
  vader_writer: "vader_step s (mca_btl_vader_fbox_set_header s)"
| vader_reader: "vader_step s (mca_btl_vader_fbox_read_header s)"

definition vader_init :: vader where
  "vader_init = \<lparr>global_hdr = None, frame = None, hdr_writer = H_loop 0, hdr_reader = 0, shown = []\<rparr>"

text \<open>The number of turns that have assigned the pointer when it has a value.\<close>

definition turns :: "nat option \<Rightarrow> nat" where
  "turns h = (case h of None \<Rightarrow> 0 | Some i \<Rightarrow> Suc i)"

definition dangling :: "vader \<Rightarrow> bool" where
  "dangling s \<longleftrightarrow> (\<exists>i. global_hdr s = Some i \<and> (\<nexists>h. frame s = Some (i, h)))"

fun turn_ok :: "hdr_writer \<Rightarrow> vader \<Rightarrow> bool" where
  "turn_ok (H_loop i) s \<longleftrightarrow> i \<le> 5 \<and> turns (global_hdr s) = i \<and> frame s = None"
| "turn_ok (H_assign i) s \<longleftrightarrow> i < 5 \<and> turns (global_hdr s) = i \<and> (\<exists>h. frame s = Some (i, h))"
| "turn_ok (H_leave i) s \<longleftrightarrow> i < 5 \<and> turns (global_hdr s) = Suc i \<and> (\<exists>h. frame s = Some (i, h))"

definition vader_ok :: "vader \<Rightarrow> bool" where
  "vader_ok s \<longleftrightarrow> turn_ok (hdr_writer s) s \<and> length (shown s) = hdr_reader s \<and> hdr_reader s \<le> 5 \<and>
     sorted (map turns (shown s)) \<and> (\<forall>h \<in> set (shown s). turns h \<le> turns (global_hdr s))"

lemma turns_Some [simp]: "turns (Some i) = Suc i"
  by (simp add: turns_def)

lemma vader_ok_writer: "vader_ok s \<Longrightarrow> vader_ok (mca_btl_vader_fbox_set_header s)"
  by (cases "hdr_writer s") (auto simp: vader_ok_def mca_btl_vader_fbox_set_header_def le_SucI)

lemma turn_ok_shown [simp]: "turn_ok p (s\<lparr>shown := l, hdr_reader := n\<rparr>) = turn_ok p s"
  by (cases p) simp_all

lemma vader_ok_reader: "vader_ok s \<Longrightarrow> vader_ok (mca_btl_vader_fbox_read_header s)"
  by (auto simp: vader_ok_def mca_btl_vader_fbox_read_header_def sorted_append)

lemma always_vader_ok: "always vader_step vader_init vader_ok"
proof (rule always_invariant)
  show "vader_ok vader_init" by (simp add: vader_ok_def vader_init_def turns_def)
next
  fix a b assume "vader_ok a" "vader_step a b"
  then show "vader_ok b" by (auto elim!: vader_step.cases intro: vader_ok_writer vader_ok_reader)
qed

text \<open>Once assigned, the pointer is dangling whenever the writer is not inside the function.\<close>

theorem header_dangles:
  "always vader_step vader_init (\<lambda>s. length (shown s) \<le> 5 \<and> sorted (map turns (shown s)) \<and>
     (dangling s \<longleftrightarrow> global_hdr s \<noteq> None \<and> (\<forall>i. hdr_writer s \<noteq> H_leave i)))"
proof (rule always_mono [OF always_vader_ok])
  fix s assume "vader_ok s"
  then show "length (shown s) \<le> 5 \<and> sorted (map turns (shown s)) \<and>
     (dangling s \<longleftrightarrow> global_hdr s \<noteq> None \<and> (\<forall>i. hdr_writer s \<noteq> H_leave i))"
    by (cases "hdr_writer s") (auto simp: vader_ok_def dangling_def turns_def split: option.splits)
qed

section \<open>Publishing a number that is formatted\<close>

text \<open>
  The objects of \<open>20-barrier.cpp\<close> and \<open>32-datarace.cpp\<close>, and what they hold: a number, or for \<open>str\<close>
  the empty text or the format \<open>Data happen %d\<close> with its number, texts being equal when the numbers
  are. \<open>sprintf\<close> and \<open>memset\<close> store the text at once: only one thread accesses it before the join.
\<close>

datatype text_object = Data | Flag | Str

datatype content = Number c_int | Empty_text | Data_happen c_int

fun number_of :: "content \<Rightarrow> c_int" where
  "number_of (Number n) = n" | "number_of _ = 0"

definition globals_text :: "text_object \<Rightarrow> content" where [model_defs]:
  "globals_text = (\<lambda>_. Number 0)(Str := Empty_text)"

definition writer_thread_cpp20 :: "(text_object, content) prog" where [model_defs]:
  "writer_thread_cpp20 =
     assign Data (Number 42) (
     atomic_store_explicit Flag (Number 1) memory_order_release (
     return_NULL))"

definition writer_thread_cpp32 :: "(text_object, content) prog" where [model_defs]:
  "writer_thread_cpp32 =
     assign Data (Number 42) (
     assign Flag (Number 1) (
     return_NULL))"

definition reader_thread_cpp20 :: "(text_object, content) prog" where [model_defs]:
  "reader_thread_cpp20 =
     fetch Flag (\<lambda>v.
     if number_of v = 1 then
       fetch Data (\<lambda>d. assign Str (Data_happen (number_of d)) return_NULL)
     else return_NULL)"

definition reader_thread_cpp32 :: "(text_object, content) prog" where [model_defs]:
  "reader_thread_cpp32 =
     fetch Flag (\<lambda>v.
     if number_of v = 1 then
       fetch Data (\<lambda>d. assign Str (Data_happen (number_of d)) return_NULL)
     else return_NULL)"

text \<open>What \<open>main\<close> does after the joins; where it would print the text that reports the bug, it aborts.\<close>

definition compare_text :: "(text_object, content) prog" where [model_defs]:
  "compare_text = fetch Str (\<lambda>t.
     c_assert (t \<noteq> Data_happen 0) (
     assign Data (Number 0) (
     assign Str Empty_text (Return 0))))"

definition main_cpp20 :: "(text_object, content) prog" where [model_defs]:
  "main_cpp20 = run_two writer_thread_cpp20 reader_thread_cpp20 compare_text"

definition main_cpp32 :: "(text_object, content) prog" where [model_defs]:
  "main_cpp32 = run_two writer_thread_cpp32 reader_thread_cpp32 compare_text"

lemma cpp20_completes: "completes PSO 40 globals_text main_cpp20"
  by (rule explore_merging_completes [of _ "[Data, Flag, Str]"]) code_simp

lemma cpp32_completes_tso: "completes TSO 40 globals_text main_cpp32"
  by (rule explore_merging_completes [of _ "[Data, Flag, Str]"]) code_simp

lemma cpp32_unsafe_pso: "\<not> safe PSO globals_text main_cpp32"
  by (rule fails_by_unsafe [of _ "[Run 0, Run 0, Run 1, Run 1, Commit 1 1, Run 2, Run 2, Run 2, Commit 2 0, Commit 1 0,
      Run 0, Run 0, Run 0]"]) code_simp

theorem text_verdicts:
  "completes PSO 40 globals_text main_cpp20 \<and> (\<forall>M. safe M globals_text main_cpp20) \<and>
   completes TSO 40 globals_text main_cpp32 \<and> (\<forall>M. safe M globals_text main_cpp32 \<longleftrightarrow> M \<le> TSO)"
  using cpp20_completes cpp32_completes_tso pso_verdict [OF completes_safe [OF cpp20_completes]]
    tso_verdict [OF completes_safe [OF cpp32_completes_tso] cpp32_unsafe_pso] by simp

end
