(* ===== verification/System_Calls.thy ===== *)
theory System_Calls
  imports Transition_Systems "HOL-Library.Multiset"
begin

text \<open>
  Programs that race two threads of system calls against each other, the samples of Layers 2
  and 3. The kernel is not part of the repository: it is a parameter, the relation between a
  call and the results it may have. A step is a call that returns, or an access to a global
  object, under sequential consistency. A call may also never return, as a receive call without
  a timeout may: the thread then takes no more steps, which is one of its executions. So for a
  kernel about which nothing is known only properties of the states that can be reached are
  stated, not that a program ends. The operations of POSIX that close a descriptor are written
  down once, for the property that the samples are about: a race on a file descriptor.
\<close>

section \<open>Programs\<close>

text \<open>
  Arguments. A file descriptor is marked as such. Constants that the system headers define are
  names; a structure lists the fields that the program sets.
\<close>

datatype arg =
    Num int | Fd int | Const string | Or "string list" | Text string | Null | Ref arg
  | Struct "(string \<times> arg) list" | Array "arg list" | Zeros nat | Buffer nat | Sizeof string

text \<open>
  A call has a result and the values that it stores through a pointer argument, by position.
\<close>

type_synonym result = "int \<times> (nat \<Rightarrow> int)"

datatype sys_prog =
    Return int
  | Call string "arg list" "result \<Rightarrow> sys_prog"
  | Read string "int \<Rightarrow> sys_prog"
  | Write string int sys_prog
  | Create sys_prog sys_prog
  | Join nat sys_prog

type_synonym kernel = "string \<Rightarrow> arg list \<Rightarrow> result \<Rightarrow> bool"

record sys_state =
  globals :: "string \<Rightarrow> int"
  threads :: "sys_prog list"

text \<open>Thread 0 is \<open>main\<close>; the others are numbered as they are created.\<close>

inductive sys_step :: "kernel \<Rightarrow> sys_state \<Rightarrow> sys_state \<Rightarrow> bool" for K where
  call: "i < length (threads s) \<Longrightarrow> threads s ! i = Call f as k \<Longrightarrow> K f as r \<Longrightarrow>
    sys_step K s (s\<lparr>threads := (threads s)[i := k r]\<rparr>)"
| read: "i < length (threads s) \<Longrightarrow> threads s ! i = Read v k \<Longrightarrow>
    sys_step K s (s\<lparr>threads := (threads s)[i := k (globals s v)]\<rparr>)"
| write_global: "i < length (threads s) \<Longrightarrow> threads s ! i = Write v x p \<Longrightarrow>
    sys_step K s (s\<lparr>globals := (globals s)(v := x), threads := (threads s)[i := p]\<rparr>)"
| create: "i < length (threads s) \<Longrightarrow> threads s ! i = Create t p \<Longrightarrow>
    sys_step K s (s\<lparr>threads := (threads s)[i := p] @ [t]\<rparr>)"
| join: "i < length (threads s) \<Longrightarrow> threads s ! i = Join j p \<Longrightarrow> j < length (threads s) \<Longrightarrow>
    threads s ! j = Return x \<Longrightarrow> sys_step K s (s\<lparr>threads := (threads s)[i := p]\<rparr>)"

definition boot_sys :: "(string \<Rightarrow> int) \<Rightarrow> sys_prog \<Rightarrow> sys_state" where
  "boot_sys g p = \<lparr>globals = g, threads = [p]\<rparr>"

text \<open>The kernel about which nothing is known, and the one that is a function of the sample.\<close>

definition any_kernel :: kernel where
  "any_kernel f as r \<longleftrightarrow> True"

definition stub_kernel :: "(string \<Rightarrow> result) \<Rightarrow> kernel" where
  "stub_kernel stub f as r \<longleftrightarrow> r = stub f"

definition total_kernel :: "kernel \<Rightarrow> bool" where
  "total_kernel K \<longleftrightarrow> (\<forall>f as. \<exists>r. K f as r)"

lemma any_kernel_total [simp]: "total_kernel any_kernel"
  by (simp add: total_kernel_def any_kernel_def)

lemma stub_kernel_total [simp]: "total_kernel (stub_kernel stub)"
  by (simp add: total_kernel_def stub_kernel_def)

text \<open>\<open>main\<close> of every sample: create two threads and join them.\<close>

definition race_two :: "sys_prog \<Rightarrow> sys_prog \<Rightarrow> sys_prog \<Rightarrow> sys_prog" where
  "race_two a b rest = Create a (Create b (Join 1 (Join 2 rest)))"

section \<open>Races on a file descriptor\<close>

fun fds_of :: "arg \<Rightarrow> int list" where
  "fds_of (Fd x) = [x]"
| "fds_of (Ref a) = fds_of a"
| "fds_of (Array as) = concat (map fds_of as)"
| "fds_of (Struct fs) = concat (map (\<lambda>f. fds_of (snd f)) fs)"
| "fds_of _ = []"

text \<open>\<open>close\<close> closes its argument, and \<open>dup3\<close> its second one.\<close>

definition closed_by :: "string \<Rightarrow> arg list \<Rightarrow> int list" where
  "closed_by f as =
     (if f = ''close'' then concat (map fds_of as)
      else if f = ''dup3'' then concat (map fds_of (drop 1 as)) else [])"

fun next_uses :: "sys_prog \<Rightarrow> int list" where
  "next_uses (Call f as k) = concat (map fds_of as)" | "next_uses _ = []"

fun next_closes :: "sys_prog \<Rightarrow> int list" where
  "next_closes (Call f as k) = closed_by f as" | "next_closes _ = []"

text \<open>One thread is about to close a descriptor while another one is about to use it.\<close>

definition fd_race :: "sys_state \<Rightarrow> bool" where
  "fd_race s \<longleftrightarrow> (\<exists>i<length (threads s). \<exists>j<length (threads s). i \<noteq> j \<and>
     set (next_closes (threads s ! i)) \<inter> set (next_uses (threads s ! j)) \<noteq> {})"

definition can_race :: "kernel \<Rightarrow> (string \<Rightarrow> int) \<Rightarrow> sys_prog \<Rightarrow> bool" where
  "can_race K g p \<longleftrightarrow> (\<exists>s. (sys_step K)\<^sup>*\<^sup>* (boot_sys g p) s \<and> fd_race s)"

text \<open>
  For a kernel whose calls all return: whatever happens, the program ends, with all its threads,
  and \<open>main\<close> returns 0 or 1.
\<close>

definition over :: "sys_state \<Rightarrow> bool" where
  "over s \<longleftrightarrow> threads s \<noteq> [] \<and> hd (threads s) \<in> {Return 0, Return 1} \<and> (\<forall>t\<in>set (threads s). \<exists>x. t = Return x)"

definition always_ends :: "kernel \<Rightarrow> (string \<Rightarrow> int) \<Rightarrow> sys_prog \<Rightarrow> bool" where
  "always_ends K g p \<longleftrightarrow> (\<nexists>run. run 0 = boot_sys g p \<and> (\<forall>i. sys_step K (run i) (run (Suc i)))) \<and>
     always (sys_step K) (boot_sys g p) (\<lambda>s. (\<exists>s'. sys_step K s s') \<or> over s)"

section \<open>Every program ends whose calls return\<close>

text \<open>A step replaces a thread by programs that are parts of it, and there is no infinite descent.\<close>

inductive_set part :: "(sys_prog \<times> sys_prog) set" where
  part_call: "(k r, Call f as k) \<in> part"
| part_read: "(k x, Read v k) \<in> part"
| part_write: "(p, Write v x p) \<in> part"
| part_main: "(p, Create t p) \<in> part"
| part_thread: "(t, Create t p) \<in> part"
| part_join: "(p, Join j p) \<in> part"

inductive_cases partE: "(q, p) \<in> part"

lemma wf_part: "wf part"
proof (rule wfUNIVI)
  fix P and p :: sys_prog
  assume "\<forall>p. (\<forall>q. (q, p) \<in> part \<longrightarrow> P q) \<longrightarrow> P p"
  then have step: "P p" if "\<And>q. (q, p) \<in> part \<Longrightarrow> P q" for p using that by blast
  show "P p"
    by (induction p) (rule step, erule partE, simp_all)+
qed

lemma mult_update:
  assumes "i < length ps" "\<forall>q\<in>set qs. (q, ps ! i) \<in> part" "qs \<noteq> []"
  shows "(mset (ps[i := hd qs] @ tl qs), mset ps) \<in> mult part"
proof -
  let ?I = "mset ps - {#ps ! i#}"
  have "mset qs = {#hd qs#} + mset (tl qs)" using assms(3) by (cases qs) auto
  then have "mset (ps[i := hd qs] @ tl qs) = ?I + mset qs" using assms(1) by (simp add: mset_update)
  moreover have "mset ps = ?I + {#ps ! i#}" using assms(1) by simp
  moreover have "(?I + mset qs, ?I + {#ps ! i#}) \<in> mult part"
    by (rule one_step_implies_mult) (use assms(2) in auto)
  ultimately show ?thesis by simp
qed

lemma sys_step_decreases: "sys_step K s s' \<Longrightarrow> (mset (threads s'), mset (threads s)) \<in> mult part"
proof (erule sys_step.cases)
  fix i t k f as r
  assume "s = t" "s' = t\<lparr>threads := (threads t)[i := k r]\<rparr>" "i < length (threads t)" "threads t ! i = Call f as k"
  then show ?thesis using mult_update [of i "threads t" "[k r]"] by (simp add: part_call)
next
  fix i t k v
  assume "s = t" "s' = t\<lparr>threads := (threads t)[i := k (globals t v)]\<rparr>" "i < length (threads t)" "threads t ! i = Read v k"
  then show ?thesis using mult_update [of i "threads t" "[k (globals t v)]"] by (simp add: part_read)
next
  fix i t v x p
  assume "s = t" "s' = t\<lparr>globals := (globals t)(v := x), threads := (threads t)[i := p]\<rparr>" "i < length (threads t)"
    "threads t ! i = Write v x p"
  then show ?thesis using mult_update [of i "threads t" "[p]"] by (simp add: part_write)
next
  fix i t u p
  assume "s = t" "s' = t\<lparr>threads := (threads t)[i := p] @ [u]\<rparr>" "i < length (threads t)" "threads t ! i = Create u p"
  then show ?thesis using mult_update [of i "threads t" "[p, u]"] by (simp add: part_main part_thread)
next
  fix i t j p x
  assume "s = t" "s' = t\<lparr>threads := (threads t)[i := p]\<rparr>" "i < length (threads t)" "threads t ! i = Join j p"
  then show ?thesis using mult_update [of i "threads t" "[p]"] by (simp add: part_join)
qed

lemma no_infinite_run: "\<nexists>run. run 0 = s \<and> (\<forall>i. sys_step K (run i) (run (Suc i)))"
proof
  assume "\<exists>run. run 0 = s \<and> (\<forall>i. sys_step K (run i) (run (Suc i)))"
  then obtain run where "\<And>i. sys_step K (run i) (run (Suc i))" by blast
  then have "(mset (threads (run (Suc i))), mset (threads (run i))) \<in> mult part" for i
    using sys_step_decreases by blast
  moreover have "\<nexists>f. \<forall>i. (f (Suc i), f i) \<in> mult part"
    using wf_mult [OF wf_part] by (simp add: wf_iff_no_infinite_down_chain)
  ultimately show False by (auto dest: spec [of _ "\<lambda>i. mset (threads (run i))"])
qed

section \<open>Programs that create two threads and join them\<close>

text \<open>
  What a thread of a sample is: calls and accesses, no thread of its own. \<open>harmless\<close> is one
  that closes nothing.
\<close>

primrec plain :: "sys_prog \<Rightarrow> bool" where
  "plain (Return _) \<longleftrightarrow> True"
| "plain (Call f as k) \<longleftrightarrow> (\<forall>r. plain (k r))"
| "plain (Read v k) \<longleftrightarrow> (\<forall>x. plain (k x))"
| "plain (Write v x p) \<longleftrightarrow> plain p"
| "plain (Create t p) \<longleftrightarrow> False"
| "plain (Join j p) \<longleftrightarrow> False"

primrec harmless :: "sys_prog \<Rightarrow> bool" where
  "harmless (Return _) \<longleftrightarrow> True"
| "harmless (Call f as k) \<longleftrightarrow> closed_by f as = [] \<and> (\<forall>r. harmless (k r))"
| "harmless (Read v k) \<longleftrightarrow> (\<forall>x. harmless (k x))"
| "harmless (Write v x p) \<longleftrightarrow> harmless p"
| "harmless (Create t p) \<longleftrightarrow> False"
| "harmless (Join j p) \<longleftrightarrow> False"

primrec returns01 :: "sys_prog \<Rightarrow> bool" where
  "returns01 (Return x) \<longleftrightarrow> x \<in> {0, 1}"
| "returns01 (Call f as k) \<longleftrightarrow> (\<forall>r. returns01 (k r))"
| "returns01 (Read v k) \<longleftrightarrow> (\<forall>x. returns01 (k x))"
| "returns01 (Write v x p) \<longleftrightarrow> returns01 p"
| "returns01 (Create t p) \<longleftrightarrow> False"
| "returns01 (Join j p) \<longleftrightarrow> False"

text \<open>
  \<open>main\<close> makes calls, may return early, and otherwise races two threads that satisfy \<open>P\<close>.
\<close>

primrec racing :: "(sys_prog \<Rightarrow> bool) \<Rightarrow> sys_prog \<Rightarrow> bool" where
  "racing P (Return x) \<longleftrightarrow> x \<in> {0, 1}"
| "racing P (Call f as k) \<longleftrightarrow> (\<forall>r. racing P (k r))"
| "racing P (Read v k) \<longleftrightarrow> (\<forall>x. racing P (k x))"
| "racing P (Write v x p) \<longleftrightarrow> racing P p"
| "racing P (Create t p) \<longleftrightarrow>
     (\<exists>u rest. P t \<and> P u \<and> returns01 rest \<and> p = Create u (Join 1 (Join 2 rest)))"
| "racing P (Join j p) \<longleftrightarrow> False"

lemma racing_race_two: "racing P (race_two a b rest) \<longleftrightarrow> P a \<and> P b \<and> returns01 rest"
  by (simp add: race_two_def)

lemma returns01_plain: "returns01 p \<Longrightarrow> plain p"
  by (induction p) auto

text \<open>A property of programs that a thread keeps while it runs, and that excludes new threads.\<close>

definition stable :: "(sys_prog \<Rightarrow> bool) \<Rightarrow> bool" where
  "stable P \<longleftrightarrow> (\<forall>p. P p \<longrightarrow> (\<forall>t q j. p \<noteq> Create t q \<and> p \<noteq> Join j q) \<and> (\<forall>q. (q, p) \<in> part \<longrightarrow> P q))"

lemma stable_plain: "stable plain"
  unfolding stable_def by (auto elim!: partE)

lemma stable_harmless: "stable harmless"
  unfolding stable_def by (auto elim!: partE)

lemma stable_returns01: "stable returns01"
  unfolding stable_def by (auto elim!: partE)

text \<open>The stages of such a program.\<close>

definition staged :: "(sys_prog \<Rightarrow> bool) \<Rightarrow> sys_state \<Rightarrow> bool" where
  "staged P s \<longleftrightarrow>
     (\<exists>m. threads s = [m] \<and> racing P m) \<or>
     (\<exists>a b rest. threads s = [Create b (Join 1 (Join 2 rest)), a] \<and> P a \<and> P b \<and> returns01 rest) \<or>
     (\<exists>a b rest. threads s = [Join 1 (Join 2 rest), a, b] \<and> P a \<and> P b \<and> returns01 rest) \<or>
     (\<exists>x b rest. threads s = [Join 2 rest, Return x, b] \<and> P b \<and> returns01 rest) \<or>
     (\<exists>x y m. threads s = [m, Return x, Return y] \<and> returns01 m)"

lemma sys_step_threads:
  assumes "sys_step K s s'"
  obtains i q where "i < length (threads s)" "(q, threads s ! i) \<in> part" "threads s' = (threads s)[i := q]"
      "\<forall>t p. threads s ! i \<noteq> Create t p"
      "\<forall>j p. threads s ! i = Join j p \<longrightarrow> q = p \<and> j < length (threads s) \<and> (\<exists>x. threads s ! j = Return x)"
    | i t q where "i < length (threads s)" "threads s ! i = Create t q" "threads s' = (threads s)[i := q] @ [t]"
  using assms
  by (cases rule: sys_step.cases) (fastforce intro: part.intros)+

lemma stableD: "stable P \<Longrightarrow> P p \<Longrightarrow> (q, p) \<in> part \<Longrightarrow> P q"
  by (auto simp: stable_def)

lemma stable_no_create [simp]: "stable P \<Longrightarrow> \<not> P (Create t q)" "stable P \<Longrightarrow> \<not> P (Join j q)"
  by (auto simp: stable_def)

lemma no_part_Return [simp]: "(q, Return x) \<notin> part"
  by (auto elim: partE)

lemma racing_part: "(q, m) \<in> part \<Longrightarrow> racing P m \<Longrightarrow> \<forall>t p. m \<noteq> Create t p \<Longrightarrow> racing P q"
  by (erule partE) auto

lemma staged_step:
  assumes P: "stable P" and s: "staged P s" and step: "sys_step K s s'"
  shows "staged P s'"
proof -
  note R = stableD [OF stable_returns01] and Q = stableD [OF P]
  from s consider
    m where "threads s = [m]" "racing P m"
  | a b rest where "threads s = [Create b (Join 1 (Join 2 rest)), a]" "P a" "P b" "returns01 rest"
  | a b rest where "threads s = [Join 1 (Join 2 rest), a, b]" "P a" "P b" "returns01 rest"
  | x b rest where "threads s = [Join 2 rest, Return x, b]" "P b" "returns01 rest"
  | x y m where "threads s = [m, Return x, Return y]" "returns01 m"
    unfolding staged_def by blast
  then show ?thesis
  proof cases
    case 1
    from step show ?thesis
      by (rule sys_step_threads) (use 1 racing_part in \<open>auto simp: staged_def\<close>)
  next
    case 2
    from step show ?thesis
      by (rule sys_step_threads) (use 2 P Q in \<open>auto simp: staged_def less_Suc_eq nth_Cons'\<close>)
  next
    case 3
    from step show ?thesis
      by (rule sys_step_threads) (use 3 P Q in \<open>auto simp: staged_def less_Suc_eq nth_Cons'\<close>)
  next
    case 4
    from step show ?thesis
      by (rule sys_step_threads) (use 4 P Q in \<open>auto simp: staged_def less_Suc_eq nth_Cons'\<close>)
  next
    case 5
    from step show ?thesis
      by (rule sys_step_threads) (use 5 R in \<open>auto simp: staged_def less_Suc_eq nth_Cons' stable_returns01\<close>)
  qed
qed

lemma always_staged:
  assumes "stable P" "racing P p"
  shows "always (sys_step K) (boot_sys g p) (staged P)"
proof (rule always_invariant)
  show "staged P (boot_sys g p)" using assms(2) by (simp add: staged_def boot_sys_def)
next
  fix a b assume "staged P a" "sys_step K a b"
  then show "staged P b" by (rule staged_step [OF assms(1)])
qed

text \<open>The two verdicts that follow: no race if the threads are harmless, and an orderly end.\<close>

lemma harmless_closes: "harmless p \<Longrightarrow> next_closes p = []"
  by (cases p) auto

lemma staged_no_race:
  assumes "staged harmless s"
  shows "\<not> fd_race s"
  using assms unfolding staged_def fd_race_def
  by (auto simp: less_Suc_eq nth_Cons' harmless_closes)

theorem harmless_no_race:
  assumes "racing harmless p"
  shows "\<not> can_race K g p"
  using alwaysD [OF always_staged [OF stable_harmless assms]] staged_no_race unfolding can_race_def by blast

lemma plain_moves:
  assumes "plain p" "i < length (threads s)" "threads s ! i = p" "total_kernel K"
  shows "(\<exists>x. p = Return x) \<or> (\<exists>s'. sys_step K s s')"
proof (cases p)
  case (Call f as k)
  with assms call show ?thesis unfolding total_kernel_def by blast
next
  case (Read v k)
  with assms read show ?thesis by blast
next
  case (Write v x q)
  with assms write_global show ?thesis by blast
qed (use assms(1) in auto)

lemma racing_moves:
  assumes "racing P p" "threads s = [p]" "total_kernel K"
  shows "p \<in> {Return 0, Return 1} \<or> (\<exists>s'. sys_step K s s')"
proof (cases p)
  case (Call f as k)
  moreover obtain r where "K f as r" using assms(3) unfolding total_kernel_def by blast
  ultimately show ?thesis using assms(2) call [of 0 s f as k K r] by auto
next
  case (Read v k)
  with assms read [of 0 s v k K] show ?thesis by auto
next
  case (Write v x q)
  with assms write_global [of 0 s v x q K] show ?thesis by auto
next
  case (Create t q)
  with assms create [of 0 s t q K] show ?thesis by auto
qed (use assms(1) in auto)

lemma staged_ends:
  assumes s: "staged plain s" and K: "total_kernel K"
  shows "(\<exists>s'. sys_step K s s') \<or> over s"
proof -
  from s consider
    m where "threads s = [m]" "racing plain m"
  | a b rest where "threads s = [Create b (Join 1 (Join 2 rest)), a]"
  | a b rest where "threads s = [Join 1 (Join 2 rest), a, b]" "plain a"
  | x b rest where "threads s = [Join 2 rest, Return x, b]" "plain b"
  | x y m where "threads s = [m, Return x, Return y]" "returns01 m"
    unfolding staged_def by blast
  then show ?thesis
  proof cases
    case 1
    with racing_moves [OF 1(2,1) K] show ?thesis by (auto simp: over_def)
  next
    case 2
    with create [of 0 s b "Join 1 (Join 2 rest)" K] show ?thesis by auto
  next
    case 3
    with plain_moves [of a 1 s K] K join [of 0 s 1 "Join 2 rest" _ K] show ?thesis by auto
  next
    case 4
    with plain_moves [of b 2 s K] K join [of 0 s 2 rest _ K] show ?thesis by (auto simp: numeral_2_eq_2)
  next
    case 5
    with plain_moves [of m 0 s K] K returns01_plain show ?thesis by (auto simp: over_def)
  qed
qed

theorem racing_ends:
  assumes "racing plain p" "total_kernel K"
  shows "always_ends K g p"
  unfolding always_ends_def
proof
  show "always (sys_step K) (boot_sys g p) (\<lambda>s. (\<exists>s'. sys_step K s s') \<or> over s)"
    by (rule always_mono [OF always_staged [OF stable_plain assms(1)]]) (rule staged_ends [OF _ assms(2)])
qed (rule no_infinite_run)

section \<open>Descriptors that were never opened\<close>

text \<open>
  What POSIX says of the two calls that store a pair of descriptors through a pointer: if they
  succeed both are descriptors; if they fail they leave the array as it was, which in the
  samples is still zero. Of other calls nothing is assumed.
\<close>

definition pair_kernel :: kernel where
  "pair_kernel f as r \<longleftrightarrow> (f = ''socketpair'' \<or> f = ''pipe2'' \<longrightarrow>
     (if 0 \<le> fst r then 0 \<le> snd r 0 \<and> 0 \<le> snd r 1 else snd r 0 = 0 \<and> snd r 1 = 0))"

text \<open>A thread is about to pass on the result of a call that failed as if it were a descriptor.\<close>

definition misuses :: "sys_state \<Rightarrow> bool" where
  "misuses s \<longleftrightarrow> (\<exists>p\<in>set (threads s). \<exists>x\<in>set (next_uses p). x < 0)"

definition can_misuse :: "kernel \<Rightarrow> (string \<Rightarrow> int) \<Rightarrow> sys_prog \<Rightarrow> bool" where
  "can_misuse K g p \<longleftrightarrow> (\<exists>s. (sys_step K)\<^sup>*\<^sup>* (boot_sys g p) s \<and> misuses s)"

text \<open>
  Programs that do not, given that the globals in \<open>G\<close> hold descriptors; and a \<open>main\<close> that, while
  it is the only thread, makes sure that they do.
\<close>

primrec guarded :: "kernel \<Rightarrow> string set \<Rightarrow> sys_prog \<Rightarrow> bool" where
  "guarded K G (Return x) \<longleftrightarrow> True"
| "guarded K G (Call f as k) \<longleftrightarrow> (\<forall>x\<in>set (concat (map fds_of as)). 0 \<le> x) \<and> (\<forall>r. K f as r \<longrightarrow> guarded K G (k r))"
| "guarded K G (Read v k) \<longleftrightarrow> (\<forall>x. (v \<in> G \<longrightarrow> 0 \<le> x) \<longrightarrow> guarded K G (k x))"
| "guarded K G (Write v x p) \<longleftrightarrow> (v \<in> G \<longrightarrow> 0 \<le> x) \<and> guarded K G p"
| "guarded K G (Create t p) \<longleftrightarrow> guarded K G t \<and> guarded K G p"
| "guarded K G (Join j p) \<longleftrightarrow> guarded K G p"

primrec opens_safely :: "kernel \<Rightarrow> string set \<Rightarrow> sys_prog \<Rightarrow> (string \<Rightarrow> int) \<Rightarrow> bool" where
  "opens_safely K G (Return x) g \<longleftrightarrow> True"
| "opens_safely K G (Call f as k) g \<longleftrightarrow>
     (\<forall>x\<in>set (concat (map fds_of as)). 0 \<le> x) \<and> (\<forall>r. K f as r \<longrightarrow> opens_safely K G (k r) g)"
| "opens_safely K G (Read v k) g \<longleftrightarrow> opens_safely K G (k (g v)) g"
| "opens_safely K G (Write v x p) g \<longleftrightarrow> opens_safely K G p (g(v := x))"
| "opens_safely K G (Create t p) g \<longleftrightarrow> (\<forall>v\<in>G. 0 \<le> g v) \<and> guarded K G t \<and> guarded K G p"
| "opens_safely K G (Join j p) g \<longleftrightarrow> False"

definition all_guarded :: "kernel \<Rightarrow> string set \<Rightarrow> sys_state \<Rightarrow> bool" where
  "all_guarded K G s \<longleftrightarrow> (\<forall>v\<in>G. 0 \<le> globals s v) \<and> (\<forall>p\<in>set (threads s). guarded K G p)"

definition descriptors_ok :: "kernel \<Rightarrow> string set \<Rightarrow> sys_state \<Rightarrow> bool" where
  "descriptors_ok K G s \<longleftrightarrow> (\<exists>m. threads s = [m] \<and> opens_safely K G m (globals s)) \<or> all_guarded K G s"

lemma opening_step:
  assumes "sys_step K s s'" "threads s = [m]" "opens_safely K G m (globals s)"
  shows "descriptors_ok K G s'"
  using assms by cases (auto simp: descriptors_ok_def all_guarded_def)

lemma all_guarded_step:
  assumes "sys_step K s s'" "all_guarded K G s"
  shows "all_guarded K G s'"
proof -
  have t: "guarded K G (threads s ! i)" if "i < length (threads s)" for i
    using assms(2) that by (simp add: all_guarded_def)
  have set: "set ((threads s)[i := q]) \<subseteq> insert q (set (threads s))" for i q
    by (rule set_update_subset_insert)
  from assms(1) show ?thesis
  proof cases
    case (call i f as k r)
    then have "guarded K G (k r)" using t [of i] by (cases r) simp
    with call assms(2) set [of i "k r"] show ?thesis by (auto simp: all_guarded_def)
  next
    case (read i v k)
    then have "guarded K G (k (globals s v))" using t [of i] assms(2) by (auto simp: all_guarded_def)
    with read assms(2) set [of i "k (globals s v)"] show ?thesis by (auto simp: all_guarded_def)
  next
    case (write_global i v x p)
    then have "v \<in> G \<longrightarrow> 0 \<le> x" "guarded K G p" using t [of i] by auto
    with write_global assms(2) set [of i p] show ?thesis by (auto simp: all_guarded_def)
  next
    case (create i u p)
    then have "guarded K G u" "guarded K G p" using t [of i] by auto
    with create assms(2) set [of i p] show ?thesis by (auto simp: all_guarded_def)
  next
    case (join i j p x)
    then have "guarded K G p" using t [of i] by simp
    with join assms(2) set [of i p] show ?thesis by (auto simp: all_guarded_def)
  qed
qed

lemma descriptors_ok_step: "sys_step K s s' \<Longrightarrow> descriptors_ok K G s \<Longrightarrow> descriptors_ok K G s'"
  using opening_step all_guarded_step unfolding descriptors_ok_def by blast

lemma descriptors_ok_uses:
  assumes "descriptors_ok K G s"
  shows "\<not> misuses s"
proof -
  have "0 \<le> x" if "guarded K G p \<or> opens_safely K G p g" "x \<in> set (next_uses p)" for p g x
    using that by (cases p) auto
  with assms show ?thesis unfolding descriptors_ok_def all_guarded_def misuses_def by force
qed

theorem opening_no_misuse:
  assumes "opens_safely K G p g"
  shows "\<not> can_misuse K g p"
proof -
  have "always (sys_step K) (boot_sys g p) (descriptors_ok K G)"
  proof (rule always_invariant)
    show "descriptors_ok K G (boot_sys g p)" using assms by (simp add: descriptors_ok_def boot_sys_def)
  qed (auto intro: descriptors_ok_step)
  then show ?thesis using descriptors_ok_uses unfolding always_def can_misuse_def by blast
qed

section \<open>Runs\<close>

text \<open>One step of thread \<open>i\<close>, for a kernel whose answer depends on the name of the call.\<close>

definition sys_perform :: "(string \<Rightarrow> result) \<Rightarrow> sys_state \<Rightarrow> nat \<Rightarrow> sys_state" where
  "sys_perform ans s i = (if i < length (threads s) then
     (case threads s ! i of
        Call f as k \<Rightarrow> s\<lparr>threads := (threads s)[i := k (ans f)]\<rparr>
      | Read v k \<Rightarrow> s\<lparr>threads := (threads s)[i := k (globals s v)]\<rparr>
      | Write v x p \<Rightarrow> s\<lparr>globals := (globals s)(v := x), threads := (threads s)[i := p]\<rparr>
      | Create t p \<Rightarrow> s\<lparr>threads := (threads s)[i := p] @ [t]\<rparr>
      | _ \<Rightarrow> s) else s)"

lemma sys_perform_reach:
  assumes "\<And>f as. K f as (ans f)"
  shows "(sys_step K)\<^sup>*\<^sup>* s (sys_perform ans s i)"
proof (cases "threads s ! i")
  case (Call f as k)
  then show ?thesis using assms call [of i s f as k K "ans f"] by (auto simp: sys_perform_def)
qed (use read [of i s _ _ K] write_global [of i s _ _ _ K] create [of i s _ _ K] in \<open>auto simp: sys_perform_def\<close>)

definition races_after :: "(string \<Rightarrow> result) \<Rightarrow> nat list \<Rightarrow> (string \<Rightarrow> int) \<Rightarrow> sys_prog \<Rightarrow> bool" where
  "races_after ans is g p \<longleftrightarrow> (let s = foldl (sys_perform ans) (boot_sys g p) is in
     length (threads s) = 3 \<and> set (next_closes (threads s ! 1)) \<inter> set (next_uses (threads s ! 2)) \<noteq> {} \<or>
     length (threads s) = 3 \<and> set (next_closes (threads s ! 2)) \<inter> set (next_uses (threads s ! 1)) \<noteq> {})"

lemma races_after_can_race:
  assumes "races_after ans is g p" "\<And>f as. K f as (ans f)"
  shows "can_race K g p"
proof -
  let ?s = "foldl (sys_perform ans) (boot_sys g p) is"
  have "(sys_step K)\<^sup>*\<^sup>* (boot_sys g p) ?s" by (rule foldl_reach) (rule sys_perform_reach, rule assms(2))
  moreover have "fd_race ?s"
    using assms(1) unfolding races_after_def fd_race_def Let_def
    by (metis One_nat_def lessI less_Suc_eq n_not_Suc_n numeral_2_eq_2 numeral_3_eq_3)
  ultimately show ?thesis unfolding can_race_def by blast
qed

lemma any_race: "races_after ans is g p \<Longrightarrow> can_race any_kernel g p"
  by (rule races_after_can_race) (simp_all add: any_kernel_def)

lemma stub_race: "races_after stub is g p \<Longrightarrow> can_race (stub_kernel stub) g p"
  by (rule races_after_can_race) (simp_all add: stub_kernel_def)

definition misuses_after :: "(string \<Rightarrow> result) \<Rightarrow> nat list \<Rightarrow> (string \<Rightarrow> int) \<Rightarrow> sys_prog \<Rightarrow> bool" where
  "misuses_after ans is g p \<longleftrightarrow> misuses (foldl (sys_perform ans) (boot_sys g p) is)"

lemma misuses_after_can_misuse:
  assumes "misuses_after ans is g p" "\<And>f as. K f as (ans f)"
  shows "can_misuse K g p"
proof -
  have "(sys_step K)\<^sup>*\<^sup>* (boot_sys g p) (foldl (sys_perform ans) (boot_sys g p) is)"
    by (rule foldl_reach) (rule sys_perform_reach, rule assms(2))
  with assms(1) show ?thesis unfolding misuses_after_def can_misuse_def by blast
qed

lemmas misuses_after_simps = misuses_after_def misuses_def sys_perform_def boot_sys_def race_two_def

lemmas races_after_simps = races_after_def sys_perform_def boot_sys_def race_two_def closed_by_def Let_def

end
