(* ===== verification/Kernel_Samples.thy ===== *)
theory Kernel_Samples
  imports System_Calls
begin

text \<open>
  The original samples of Layers 2 and 3, \<open>Layer2/*.c\<close> and \<open>Layer3/*.c\<close>: each creates two threads
  that make system calls on the same descriptors. Sleeping and printing are left out; structures
  list the fields that are set; constants of the system headers are names, constants that the
  sample defines itself are numbers.
\<close>

section \<open>The samples\<close>

subsection \<open>\<open>Layer2/1-rds.c\<close>\<close>

definition thread_bind_sys1 :: sys_prog where
  "thread_bind_sys1 =
     Read ''rds_sock'' (\<lambda>s.
     Call ''bind'' [Fd s, Ref (Struct [(''sin_family'', Const ''AF_INET''), (''sin_addr.s_addr'',
         Const ''htonl(INADDR_LOOPBACK)''), (''sin_port'', Const ''htons(4000)'')]), Sizeof ''addr''] (\<lambda>_.
     Return 0))"

definition thread_send_sys1 :: sys_prog where
  "thread_send_sys1 =
     Read ''rds_sock'' (\<lambda>s.
     Call ''sendmsg'' [Fd s, Ref (Struct [(''msg_name'', Ref (Struct [(''sin_family'', Const ''AF_INET''),
         (''sin_addr.s_addr'', Const ''htonl(INADDR_LOOPBACK)''), (''sin_port'', Const ''htons(4001)'')])),
         (''msg_namelen'', Sizeof ''addr'')]), Num 0] (\<lambda>_.
     Read ''rds_sock'' (\<lambda>t.
     Call ''close'' [Fd t] (\<lambda>_.
     Return 0))))"

definition main_sys1 :: sys_prog where
  "main_sys1 =
     Call ''socket'' [Num 21, Const ''SOCK_SEQPACKET'', Num 0] (\<lambda>(r, _).
     Write ''rds_sock'' r (
     race_two thread_bind_sys1 thread_send_sys1 (Return 0)))"

subsection \<open>\<open>Layer2/2-vlan.c\<close>\<close>

definition thread_config_sys2 :: sys_prog where
  "thread_config_sys2 =
     Read ''s_igmp'' (\<lambda>s.
     Call ''ioctl'' [Fd s, Num 0x8983, Ref (Struct [(''ifr_name'', Text ''syzkaller1'')])] (\<lambda>_.
     Return 0))"

definition thread_transmit_sys2 :: sys_prog where
  "thread_transmit_sys2 =
     Read ''s_kcm'' (\<lambda>s.
     Call ''ioctl'' [Fd s, Const ''SIOCSIFHWADDR'', Ref (Struct [(''ifr_name'', Text ''syzkaller1''),
         (''ifr_hwaddr.sa_family'', Const ''ARPHRD_ETHER'')])] (\<lambda>_.
     Read ''tun_fd'' (\<lambda>t.
     Call ''write'' [Fd t, Zeros 128, Num 128] (\<lambda>_.
     Return 0))))"

definition main_sys2 :: sys_prog where
  "main_sys2 =
     Call ''open'' [Text ''/dev/net/tun'', Const ''O_RDWR''] (\<lambda>(r, _).
     Write ''tun_fd'' r (
     Read ''tun_fd'' (\<lambda>t.
     Call ''ioctl'' [Fd t, Const ''TUNSETIFF'', Ref (Struct [(''ifr_name'', Text ''syzkaller1''),
         (''ifr_flags'', Or [''IFF_TAP'', ''IFF_NO_PI''])])] (\<lambda>_.
     Call ''socket'' [Const ''AF_INET'', Const ''SOCK_DGRAM'', Num 0] (\<lambda>(r, _).
     Write ''s_kcm'' r (
     Call ''socket'' [Const ''AF_INET6'', Const ''SOCK_DGRAM'', Num 0] (\<lambda>(r, _).
     Write ''s_igmp'' r (
     race_two thread_config_sys2 thread_transmit_sys2 (Return 0)))))))))"

subsection \<open>\<open>Layer2/3-vlan-s.c\<close>\<close>

definition thread_vlan_sys3 :: sys_prog where
  "thread_vlan_sys3 =
     Read ''s_igmp'' (\<lambda>s.
     Call ''ioctl'' [Fd s, Num 0x8983, Ref (Struct [(''ifr_name'', Text ''syzkaller1'')])] (\<lambda>_.
     Return 0))"

definition thread_hw_write_sys3 :: sys_prog where
  "thread_hw_write_sys3 =
     Read ''s_kcm'' (\<lambda>s.
     Call ''ioctl'' [Fd s, Const ''SIOCSIFHWADDR'', Ref (Struct [(''ifr_name'', Text ''syzkaller1''),
         (''ifr_hwaddr.sa_family'', Const ''ARPHRD_ETHER''), (''ifr_hwaddr.sa_data'', Array [Num 0, Num 0xaa,
         Num 0xbb, Num 0xcc, Num 0xdd, Num 0xee])])] (\<lambda>_.
     Read ''tun_fd'' (\<lambda>t.
     Call ''write'' [Fd t, Zeros 100, Num 100] (\<lambda>_.
     Return 0))))"

definition main_sys3 :: sys_prog where
  "main_sys3 =
     Call ''open'' [Text ''/dev/net/tun'', Const ''O_RDWR''] (\<lambda>(r, _).
     Write ''tun_fd'' r (
     Read ''tun_fd'' (\<lambda>t.
     Call ''ioctl'' [Fd t, Const ''TUNSETIFF'', Ref (Struct [(''ifr_name'', Text ''syzkaller1''),
         (''ifr_flags'', Or [''IFF_TAP'', ''IFF_NO_PI''])])] (\<lambda>_.
     Call ''socket'' [Const ''AF_INET'', Const ''SOCK_DGRAM'', Num 0] (\<lambda>(r, _).
     Write ''s_kcm'' r (
     Call ''socket'' [Const ''AF_INET6'', Const ''SOCK_DGRAM'', Num 0] (\<lambda>(r, _).
     Write ''s_igmp'' r (
     race_two thread_vlan_sys3 thread_hw_write_sys3 (Return 0)))))))))"

subsection \<open>\<open>Layer2/4-xsk2.c\<close>\<close>

definition thread_setup_ring_sys4 :: sys_prog where
  "thread_setup_ring_sys4 =
     Read ''xdp_fd'' (\<lambda>s.
     Call ''setsockopt'' [Fd s, Num 283, Const ''XDP_RX_RING'', Ref (Num 8), Sizeof ''int''] (\<lambda>_.
     Read ''xdp_fd'' (\<lambda>t.
     Call ''setsockopt'' [Fd t, Num 283, Const ''XDP_UMEM_FILL_RING'', Ref (Num 32), Sizeof ''int''] (\<lambda>_.
     Read ''xdp_fd'' (\<lambda>u.
     Call ''bind'' [Fd u, Ref (Struct [(''sxdp_family'', Num 44), (''sxdp_ifindex'', Num 0)]),
         Sizeof ''struct sockaddr_xdp''] (\<lambda>_.
     Return 0))))))"

definition thread_recv_sys4 :: sys_prog where
  "thread_recv_sys4 =
     Read ''xdp_fd'' (\<lambda>s.
     Call ''recvmmsg'' [Fd s, Ref (Array [Struct []]), Num 1, Num 0, Null] (\<lambda>_.
     Return 0))"

definition main_sys4 :: sys_prog where
  "main_sys4 =
     Call ''socket'' [Num 44, Const ''SOCK_RAW'', Num 0] (\<lambda>(r, _).
     Write ''xdp_fd'' r (
     Call ''socket'' [Const ''AF_INET6'', Const ''SOCK_DGRAM'', Num 0] (\<lambda>(r, _).
     Write ''inet_fd'' r (
     Read ''xdp_fd'' (\<lambda>s.
     Call ''setsockopt'' [Fd s, Num 283, Const ''XDP_UMEM_REG'', Ref (Struct [(''addr'', Ref (Buffer 4096)),
         (''len'', Num 4096), (''chunk_size'', Num 2048)]), Sizeof ''struct xdp_umem_reg''] (\<lambda>_.
     race_two thread_setup_ring_sys4 thread_recv_sys4 (Return 0)))))))"

subsection \<open>\<open>Layer2/5-fs.c\<close>\<close>

definition thread_race_close_sys5 :: sys_prog where
  "thread_race_close_sys5 =
     Read ''socks[0]'' (\<lambda>s.
     Call ''close'' [Fd s] (\<lambda>_.
     Return 0))"

definition thread_race_fcntl_sys5 :: sys_prog where
  "thread_race_fcntl_sys5 =
     Read ''socks[0]'' (\<lambda>s.
     Call ''fcntl'' [Fd s, Const ''F_GETFD''] (\<lambda>_.
     Return 0))"

definition main_sys5 :: sys_prog where
  "main_sys5 =
     Call ''socket'' [Num 29, Const ''SOCK_DGRAM'', Num 6] (\<lambda>(r, _).
     Write ''socks[0]'' r (
     Call ''socket'' [Num 29, Const ''SOCK_DGRAM'', Num 6] (\<lambda>(r, _).
     Write ''socks[1]'' r (
     Call ''socket'' [Num 29, Const ''SOCK_DGRAM'', Num 6] (\<lambda>(r, _).
     Write ''socks[2]'' r (
     race_two thread_race_close_sys5 thread_race_fcntl_sys5 (Return 0)))))))"

subsection \<open>\<open>Layer2/6-bpf.c\<close>\<close>

definition thread_bpf_sys6 :: sys_prog where
  "thread_bpf_sys6 =
     Call ''syscall'' [Const ''__NR_bpf'', Const ''BPF_MAP_CREATE'', Ref (Struct [(''map_type'',
         Const ''BPF_MAP_TYPE_SOCKMAP''), (''key_size'', Num 4), (''value_size'', Num 4), (''max_entries'',
         Num 1)]), Sizeof ''union bpf_attr''] (\<lambda>(m, _).
     Call ''syscall'' [Const ''__NR_bpf'', Const ''BPF_MAP_UPDATE_ELEM'', Ref (Struct [(''map_fd'', Fd m),
         (''key'', Const ''&u_sock''), (''value'', Const ''&u_sock'')]), Sizeof ''union bpf_attr''] (\<lambda>_.
     Return 0))"

definition thread_sock_sys6 :: sys_prog where
  "thread_sock_sys6 =
     Read ''u_sock'' (\<lambda>s.
     Call ''connect'' [Fd s, Ref (Struct [(''sun_family'', Const ''AF_UNIX''), (''sun_path'',
         Text ''./file0'')]), Sizeof ''struct sockaddr_un''] (\<lambda>_.
     Call ''socket'' [Const ''AF_NETLINK'', Const ''SOCK_RAW'', Num 0] (\<lambda>(n, _).
     Call ''sendmsg'' [Fd n, Null, Num 0] (\<lambda>_.
     Return 0))))"

definition main_sys6 :: sys_prog where
  "main_sys6 =
     Call ''socket'' [Const ''AF_UNIX'', Const ''SOCK_DGRAM'', Num 0] (\<lambda>(r, _).
     Write ''u_sock'' r (
     Read ''u_sock'' (\<lambda>s.
     Call ''bind'' [Fd s, Ref (Struct [(''sun_family'', Const ''AF_UNIX''), (''sun_path'', Text ''./file0'')]),
         Const ''sizeof(short)+8''] (\<lambda>_.
     race_two thread_bpf_sys6 thread_sock_sys6 (Call ''unlink'' [Text ''./file0''] (\<lambda>_.
     Return 0))))))"

subsection \<open>\<open>Layer2/7-xdp2.c\<close>\<close>

definition thread_bpf_sys7 :: sys_prog where
  "thread_bpf_sys7 =
     Call ''syscall'' [Const ''__NR_bpf'', Const ''BPF_PROG_LOAD'', Ref (Struct [(''prog_type'',
         Const ''BPF_PROG_TYPE_RAW_TRACEPOINT'')]), Sizeof ''union bpf_attr''] (\<lambda>_.
     Return 0)"

definition thread_tx_ring_sys7 :: sys_prog where
  "thread_tx_ring_sys7 =
     Read ''xdp_fd'' (\<lambda>s.
     Call ''setsockopt'' [Fd s, Num 283, Num 3, Ref (Num 2), Num 4] (\<lambda>_.
     Read ''tun_fd'' (\<lambda>t.
     Read ''xdp_fd'' (\<lambda>u.
     Call ''poll'' [Ref (Array [Struct [(''fd'', Fd t), (''events'', Const ''POLLIN'')], Struct [(''fd'',
         Fd u), (''events'', Const ''POLLIN'')]]), Num 2, Num 1] (\<lambda>_.
     Return 0)))))"

definition main_sys7 :: sys_prog where
  "main_sys7 =
     Call ''open'' [Text ''/dev/net/tun'', Const ''O_RDWR''] (\<lambda>(r, _).
     Write ''tun_fd'' r (
     Call ''socket'' [Num 44, Const ''SOCK_RAW'', Num 0] (\<lambda>(r, _).
     Write ''xdp_fd'' r (
     race_two thread_bpf_sys7 thread_tx_ring_sys7 (Return 0)))))"

subsection \<open>\<open>Layer2/8-watchqueue.c\<close>\<close>

definition thread_ioctl_sys8 :: sys_prog where
  "thread_ioctl_sys8 =
     Read ''pipe_fds[0]'' (\<lambda>p.
     Call ''ioctl'' [Fd p, Const ''IOC_WATCH_QUEUE_SET_SIZE'', Num 16] (\<lambda>_.
     Return 0))"

definition thread_read_sys8 :: sys_prog where
  "thread_read_sys8 =
     Read ''pipe_fds[0]'' (\<lambda>p.
     Call ''read'' [Fd p, Ref (Buffer 100), Num 100] (\<lambda>_.
     Return 0))"

definition main_sys8 :: sys_prog where
  "main_sys8 =
     Call ''add_key'' [Text ''user'', Text ''syz'', Text ''data'', Num 4,
         Const ''KEY_SPEC_THREAD_KEYRING''] (\<lambda>(r, _).
     Write ''key'' r (
     Call ''pipe2'' [Const ''pipe_fds'', Or [''O_CLOEXEC'', ''O_NONBLOCK'']] (\<lambda>(_, out).
     Write ''pipe_fds[0]'' (out 0) (
     Write ''pipe_fds[1]'' (out 1) (
     Read ''key'' (\<lambda>k.
     Read ''pipe_fds[0]'' (\<lambda>p.
     Call ''syscall'' [Const ''__NR_keyctl'', Num 17, Num k, Fd p, Num 0] (\<lambda>_.
     race_two thread_ioctl_sys8 thread_read_sys8 (Return 0)))))))))"

subsection \<open>\<open>Layer2/9-tls2.c\<close>\<close>

definition thread_repair_connect_sys9 :: sys_prog where
  "thread_repair_connect_sys9 =
     Read ''sock_fd'' (\<lambda>s.
     Call ''setsockopt'' [Fd s, Const ''SOL_TCP'', Num 19, Ref (Num 1), Num 4] (\<lambda>_.
     Read ''sock_fd'' (\<lambda>t.
     Call ''connect'' [Fd t, Ref (Struct [(''sin6_family'', Const ''AF_INET6''), (''sin6_addr'',
         Const ''inet_pton(::1)'')]), Sizeof ''struct sockaddr_in6''] (\<lambda>_.
     Return 0))))"

definition thread_tls_md5_sys9 :: sys_prog where
  "thread_tls_md5_sys9 =
     Read ''sock_fd'' (\<lambda>s.
     Call ''setsockopt'' [Fd s, Const ''SOL_TCP'', Num 31, Text ''tls'', Num 4] (\<lambda>_.
     Read ''sock_fd'' (\<lambda>t.
     Call ''setsockopt'' [Fd t, Const ''SOL_TCP'', Num 14, Ref (Struct [(''tcpm_addr'', Struct
         [(''sin6_family'', Const ''AF_INET6''), (''sin6_addr'', Const ''inet_pton(::1)'')]), (''tcpm_keylen'',
         Num 10), (''tcpm_key'', Text ''password'')]), Sizeof ''md5''] (\<lambda>_.
     Return 0))))"

definition main_sys9 :: sys_prog where
  "main_sys9 =
     Call ''socket'' [Const ''AF_INET6'', Const ''SOCK_STREAM'', Num 0] (\<lambda>(r, _).
     Write ''sock_fd'' r (
     race_two thread_repair_connect_sys9 thread_tls_md5_sys9 (Read ''sock_fd'' (\<lambda>s.
     Call ''close'' [Fd s] (\<lambda>_.
     Return 0)))))"

subsection \<open>\<open>Layer2/10-smc2.c\<close>\<close>

definition thread_opt_sys10 :: sys_prog where
  "thread_opt_sys10 =
     Read ''sock_fd'' (\<lambda>s.
     Call ''setsockopt'' [Fd s, Num 6, Num 0x22, Ref (Num 1), Num 4] (\<lambda>_.
     Return 0))"

definition thread_send_sys10 :: sys_prog where
  "thread_send_sys10 =
     Read ''sock_fd'' (\<lambda>s.
     Call ''sendmmsg'' [Fd s, Ref (Array [Struct [(''msg_hdr.msg_iov'', Ref (Struct [(''iov_base'',
         Text ''99''), (''iov_len'', Num 2)])), (''msg_hdr.msg_iovlen'', Num 1)]]), Num 1, Num 0] (\<lambda>_.
     Return 0))"

definition main_sys10 :: sys_prog where
  "main_sys10 =
     Call ''socket'' [Num 43, Const ''SOCK_STREAM'', Num 0] (\<lambda>(r, _).
     Write ''sock_fd'' r (
     race_two thread_opt_sys10 thread_send_sys10 (Read ''sock_fd'' (\<lambda>s.
     if 0 \<le> s then Read ''sock_fd'' (\<lambda>t.
     Call ''close'' [Fd t] (\<lambda>_.
     Return 0))
     else Return 0))))"

subsection \<open>\<open>Layer2/11-gsm.c\<close>\<close>

definition thread_ldisc_sys11 :: sys_prog where
  "thread_ldisc_sys11 =
     Read ''fd'' (\<lambda>s.
     Call ''ioctl'' [Fd s, Const ''TIOCSETD'', Ref (Num 21)] (\<lambda>_.
     Return 0))"

definition thread_term_sys11 :: sys_prog where
  "thread_term_sys11 =
     Read ''fd'' (\<lambda>s.
     Call ''ioctl'' [Fd s, Const ''TCSETSF'', Ref (Struct [(''c_cflag'', Or [''B9600'', ''CS8'',
         ''CREAD''])])] (\<lambda>_.
     Return 0))"

definition main_sys11 :: sys_prog where
  "main_sys11 =
     Call ''open'' [Text ''/dev/ptmx'', Const ''O_RDWR''] (\<lambda>(r, _).
     Write ''fd'' r (
     race_two thread_ldisc_sys11 thread_term_sys11 (Read ''fd'' (\<lambda>s.
     Call ''close'' [Fd s] (\<lambda>_.
     Return 0)))))"

subsection \<open>\<open>Layer2/12-xsk.c\<close>\<close>

definition thread_mmap_sys12 :: sys_prog where
  "thread_mmap_sys12 =
     Read ''xdp_fd'' (\<lambda>s.
     Call ''setsockopt'' [Fd s, Num 283, Num 5, Ref (Num 0x4000), Num 4] (\<lambda>_.
     Read ''xdp_fd'' (\<lambda>t.
     Call ''mmap'' [Null, Num 0x4000, Or [''PROT_READ'', ''PROT_WRITE''], Const ''MAP_SHARED'', Fd t,
         Num 0x100000000] (\<lambda>_.
     Return 0))))"

definition thread_close_sys12 :: sys_prog where
  "thread_close_sys12 =
     Read ''xdp_fd'' (\<lambda>s.
     Call ''close'' [Fd s] (\<lambda>_.
     Return 0))"

definition main_sys12 :: sys_prog where
  "main_sys12 =
     Call ''socket'' [Num 44, Const ''SOCK_RAW'', Num 0] (\<lambda>(r, _).
     Write ''xdp_fd'' r (
     race_two thread_mmap_sys12 thread_close_sys12 (Return 0)))"

subsection \<open>\<open>Layer2/13-xdp.c\<close>\<close>

definition thread_bpf_sys13 :: sys_prog where
  "thread_bpf_sys13 =
     Call ''syscall'' [Const ''__NR_bpf'', Const ''BPF_PROG_LOAD'', Ref (Struct [(''prog_type'',
         Const ''BPF_PROG_TYPE_RAW_TRACEPOINT''), (''insns'', Num 0), (''insn_cnt'', Num 0), (''license'',
         Text ''GPL'')]), Sizeof ''union bpf_attr''] (\<lambda>_.
     Call ''syscall'' [Const ''__NR_bpf'', Const ''BPF_RAW_TRACEPOINT_OPEN'', Ref (Struct
         [(''raw_tracepoint.name'', Text ''kfree''), (''raw_tracepoint.prog_fd'', Fd (- 1))]),
         Sizeof ''union bpf_attr''] (\<lambda>_.
     Return 0))"

definition thread_poll_sys13 :: sys_prog where
  "thread_poll_sys13 =
     Read ''xdp_fd'' (\<lambda>s.
     Call ''setsockopt'' [Fd s, Num 283, Num 2, Ref (Num 2), Num 4] (\<lambda>_.
     Read ''tun_fd'' (\<lambda>t.
     Read ''xdp_fd'' (\<lambda>u.
     Call ''poll'' [Ref (Array [Struct [(''fd'', Fd t), (''events'', Const ''POLLIN'')], Struct [(''fd'',
         Fd u), (''events'', Const ''POLLIN'')]]), Num 2, Num 1] (\<lambda>_.
     Return 0)))))"

definition main_sys13 :: sys_prog where
  "main_sys13 =
     Call ''open'' [Text ''/dev/net/tun'', Const ''O_RDWR''] (\<lambda>(r, _).
     Write ''tun_fd'' r (
     Call ''socket'' [Num 44, Const ''SOCK_RAW'', Num 0] (\<lambda>(r, _).
     Write ''xdp_fd'' r (
     race_two thread_bpf_sys13 thread_poll_sys13 (Return 0)))))"

subsection \<open>\<open>Layer2/14-vmci.c\<close>\<close>

definition thread_vmci_sys14 :: sys_prog where
  "thread_vmci_sys14 =
     Read ''vmci_fd'' (\<lambda>s.
     Call ''ioctl'' [Fd s, Num 0x7a7, Num 0x10000] (\<lambda>_.
     Read ''vmci_fd'' (\<lambda>t.
     Call ''ioctl'' [Fd t, Num 0x7a0, Num 0] (\<lambda>_.
     Return 0))))"

definition thread_epoll_sys14 :: sys_prog where
  "thread_epoll_sys14 =
     Read ''vmci_fd'' (\<lambda>v.
     Read ''epfd'' (\<lambda>e.
     Read ''vmci_fd'' (\<lambda>s.
     Call ''epoll_ctl'' [Fd e, Const ''EPOLL_CTL_ADD'', Fd s, Ref (Struct [(''events'', Const ''EPOLLIN''),
         (''data.fd'', Fd v)])] (\<lambda>_.
     Return 0))))"

definition main_sys14 :: sys_prog where
  "main_sys14 =
     Call ''epoll_create1'' [Num 0] (\<lambda>(r, _).
     Write ''epfd'' r (
     Call ''open'' [Text ''/dev/vmci'', Const ''O_RDWR''] (\<lambda>(r, _).
     Write ''vmci_fd'' r (
     Call ''open'' [Text ''/dev/input/mice'', Const ''O_RDONLY''] (\<lambda>(r, _).
     Write ''mice_fd'' r (
     race_two thread_vmci_sys14 thread_epoll_sys14 (Return 0)))))))"

subsection \<open>\<open>Layer2/15-tls.c\<close>\<close>

definition thread_io_sys15 :: sys_prog where
  "thread_io_sys15 =
     Call ''syscall'' [Const ''__NR_io_setup'', Num 2, Const ''&ctx''] (\<lambda>(_, out).
     Write ''ctx'' (out 0) (
     Call ''socket'' [Const ''AF_NETLINK'', Const ''SOCK_RAW'', Num 21] (\<lambda>(c1, _).
     Read ''ctx'' (\<lambda>x.
     Call ''syscall'' [Const ''__NR_io_submit'', Num x, Num 1, Array [Ref (Struct [(''aio_fildes'', Fd c1),
         (''aio_lio_opcode'', Const ''IOCB_CMD_PWRITE'')])]] (\<lambda>_.
     Call ''writev'' [Fd c1, Ref (Struct [(''iov_base'', Text ''data''), (''iov_len'', Num 4)]), Num 1] (\<lambda>_.
     Return 0))))))"

definition thread_tls_sys15 :: sys_prog where
  "thread_tls_sys15 =
     Read ''tcp_sock'' (\<lambda>s.
     Call ''setsockopt'' [Fd s, Const ''SOL_TCP'', Num 31, Text ''tls'', Num 4] (\<lambda>_.
     Return 0))"

definition main_sys15 :: sys_prog where
  "main_sys15 =
     Call ''socket'' [Const ''AF_INET6'', Const ''SOCK_STREAM'', Num 0] (\<lambda>(r, _).
     Write ''tcp_sock'' r (
     race_two thread_io_sys15 thread_tls_sys15 (Return 0)))"

subsection \<open>\<open>Layer2/16-nbd.c\<close>\<close>

primrec nbd_sends_sys16 :: "nat \<Rightarrow> sys_prog" where
  "nbd_sends_sys16 0 = Return 0"
| "nbd_sends_sys16 (Suc n) = Read ''nl_sock'' (\<lambda>s. Call ''sendmsg''
     [Fd s, Ref (Struct [(''msg_name'', Ref (Struct [(''nl_family'', Const ''AF_NETLINK'')])), (''msg_namelen'', Sizeof ''struct sockaddr_nl''),
        (''msg_iov'', Ref (Struct [(''iov_base'', Zeros 128), (''iov_len'', Num 128)])), (''msg_iovlen'', Num 1)]), Num 0]
     (\<lambda>_. nbd_sends_sys16 n))"

definition thread_netlink_sys16 :: sys_prog where
  "thread_netlink_sys16 =
     nbd_sends_sys16 10"

definition thread_open_dev_sys16 :: sys_prog where
  "thread_open_dev_sys16 =
     Call ''open'' [Text ''/dev/nbd0'', Const ''O_RDWR''] (\<lambda>(fd, _).
     if fd < 0 then Return 0
     else Call ''close'' [Fd fd] (\<lambda>_.
     Return 0))"

definition main_sys16 :: sys_prog where
  "main_sys16 =
     Call ''socket'' [Const ''AF_NETLINK'', Const ''SOCK_RAW'', Num 16] (\<lambda>(r, _).
     Write ''nl_sock'' r (
     race_two thread_netlink_sys16 thread_open_dev_sys16 (Read ''nl_sock'' (\<lambda>s.
     if 0 \<le> s then Read ''nl_sock'' (\<lambda>t.
     Call ''close'' [Fd t] (\<lambda>_.
     Return 0))
     else Return 0))))"

subsection \<open>\<open>Layer2/17-unix.c\<close>\<close>

definition thread_setup_sys17 :: sys_prog where
  "thread_setup_sys17 =
     Read ''u_sock'' (\<lambda>s.
     Call ''bind'' [Fd s, Ref (Struct [(''sun_family'', Const ''AF_UNIX''), (''sun_path[1]'',
         Text ''syz_test_sock'')]), Const ''sizeof(sa_family_t)+14''] (\<lambda>_.
     Read ''u_sock'' (\<lambda>t.
     Call ''listen'' [Fd t, Num 0] (\<lambda>_.
     Return 0))))"

definition thread_weird_ioctl_sys17 :: sys_prog where
  "thread_weird_ioctl_sys17 =
     Read ''u_sock'' (\<lambda>s.
     Call ''ioctl'' [Fd s, Num 0x89e0, Num 0] (\<lambda>_.
     Return 0))"

definition main_sys17 :: sys_prog where
  "main_sys17 =
     Call ''socket'' [Const ''AF_UNIX'', Const ''SOCK_SEQPACKET'', Num 0] (\<lambda>(r, _).
     Write ''u_sock'' r (
     race_two thread_setup_sys17 thread_weird_ioctl_sys17 (Read ''u_sock'' (\<lambda>s.
     Call ''close'' [Fd s] (\<lambda>_.
     Return 0)))))"

subsection \<open>\<open>Layer2/18-unix-s.c\<close>\<close>

definition thread_0_sys18 :: sys_prog where
  "thread_0_sys18 =
     Read ''u_sock'' (\<lambda>s.
     Call ''bind'' [Fd s, Ref (Struct [(''sun_family'', Const ''AF_UNIX''), (''sun_path[1]'',
         Text ''syz_strict'')]), Const ''sizeof(sa_family_t)+11''] (\<lambda>_.
     Return 0))"

definition thread_1_sys18 :: sys_prog where
  "thread_1_sys18 =
     Read ''u_sock'' (\<lambda>s.
     Call ''listen'' [Fd s, Num 0] (\<lambda>_.
     Read ''u_sock'' (\<lambda>t.
     Call ''ioctl'' [Fd t, Num 0x89e0, Num 0] (\<lambda>_.
     Return 0))))"

definition main_sys18 :: sys_prog where
  "main_sys18 =
     Call ''socket'' [Const ''AF_UNIX'', Const ''SOCK_SEQPACKET'', Num 0] (\<lambda>(r, _).
     Write ''u_sock'' r (
     race_two thread_0_sys18 thread_1_sys18 (Read ''u_sock'' (\<lambda>s.
     Call ''close'' [Fd s] (\<lambda>_.
     Return 0)))))"

subsection \<open>\<open>Layer2/19-tcve-2016-8655.c\<close>\<close>

definition thread_0_sys19 :: sys_prog where
  "thread_0_sys19 =
     Read ''fd'' (\<lambda>s.
     Call ''setsockopt'' [Fd s, Const ''SOL_PACKET'', Const ''PACKET_VERSION'', Ref (Const ''TPACKET_V2''),
         Sizeof ''int''] (\<lambda>_.
     Read ''fd'' (\<lambda>t.
     Call ''setsockopt'' [Fd t, Const ''SOL_PACKET'', Const ''PACKET_RX_RING'', Ref (Struct
         [(''tp_block_size'', Num 0x1000), (''tp_block_nr'', Num 1), (''tp_frame_size'', Num 0x1000),
         (''tp_frame_nr'', Num 1), (''tp_retire_blk_tov'', Num 1000)]), Sizeof ''struct tpacket_req3''] (\<lambda>_.
     Return 0))))"

definition thread_1_sys19 :: sys_prog where
  "thread_1_sys19 =
     Read ''fd'' (\<lambda>s.
     Call ''setsockopt'' [Fd s, Const ''SOL_PACKET'', Const ''PACKET_VERSION'', Ref (Const ''TPACKET_V1''),
         Sizeof ''int''] (\<lambda>_.
     Read ''fd'' (\<lambda>t.
     Call ''close'' [Fd t] (\<lambda>_.
     Return 0))))"

definition main_sys19 :: sys_prog where
  "main_sys19 =
     Call ''socket'' [Const ''AF_PACKET'', Const ''SOCK_RAW'', Const ''htons(ETH_P_ALL)''] (\<lambda>(r, _).
     Write ''fd'' r (
     Read ''fd'' (\<lambda>s.
     if s < 0 then Return 1
     else race_two thread_0_sys19 thread_1_sys19 (Return 0))))"

subsection \<open>\<open>Layer2/20-tcve-2017-2636.c\<close>\<close>

definition thread_0_sys20 :: sys_prog where
  "thread_0_sys20 =
     Read ''fd'' (\<lambda>s.
     Call ''ioctl'' [Fd s, Const ''TIOCSETD'', Ref (Num 13)] (\<lambda>_.
     Read ''fd'' (\<lambda>t.
     Call ''ioctl'' [Fd t, Const ''TCXONC'', Const ''TCOOFF''] (\<lambda>_.
     Read ''fd'' (\<lambda>u.
     Call ''write'' [Fd u, Text ''01010101'', Num 4] (\<lambda>_.
     Read ''fd'' (\<lambda>v.
     Call ''ioctl'' [Fd v, Const ''TCXONC'', Const ''TCOON''] (\<lambda>_.
     Return 0))))))))"

definition thread_1_sys20 :: sys_prog where
  "thread_1_sys20 =
     Read ''fd'' (\<lambda>s.
     Call ''ioctl'' [Fd s, Const ''TCFLSH'', Const ''TCIOFLUSH''] (\<lambda>_.
     Read ''fd'' (\<lambda>t.
     Call ''close'' [Fd t] (\<lambda>_.
     Return 0))))"

definition main_sys20 :: sys_prog where
  "main_sys20 =
     Call ''open'' [Text ''/dev/ptmx'', Const ''O_RDWR''] (\<lambda>(r, _).
     Write ''fd'' r (
     Read ''fd'' (\<lambda>s.
     if s < 0 then Return 1
     else race_two thread_0_sys20 thread_1_sys20 (Return 0))))"

subsection \<open>\<open>Layer2/21-tcve-2018-12232.c\<close>\<close>

definition thread_0_sys21 :: sys_prog where
  "thread_0_sys21 =
     Read ''sv[0]'' (\<lambda>s.
     Read ''uid'' (\<lambda>u.
     Read ''gid'' (\<lambda>g.
     Call ''fchownat'' [Fd s, Text [], Num u, Num g, Const ''AT_EMPTY_PATH''] (\<lambda>_.
     Return 0))))"

definition thread_1_sys21 :: sys_prog where
  "thread_1_sys21 =
     Read ''sv[1]'' (\<lambda>s.
     Read ''sv[0]'' (\<lambda>t.
     Call ''dup3'' [Fd s, Fd t, Const ''O_CLOEXEC''] (\<lambda>_.
     Return 0)))"

definition main_sys21 :: sys_prog where
  "main_sys21 =
     Call ''socketpair'' [Const ''AF_UNIX'', Const ''SOCK_STREAM'', Num 0, Const ''sv''] (\<lambda>(r, out).
     Write ''sv[0]'' (out 0) (
     Write ''sv[1]'' (out 1) (
     if r < 0 then Return 1
     else Call ''getuid'' [] (\<lambda>(r, _).
     Write ''uid'' r (
     Call ''getegid'' [] (\<lambda>(r, _).
     Write ''gid'' r (
     race_two thread_0_sys21 thread_1_sys21 (Read ''sv[0]'' (\<lambda>s.
     Call ''close'' [Fd s] (\<lambda>_.
     Read ''sv[1]'' (\<lambda>t.
     Call ''close'' [Fd t] (\<lambda>_.
     Return 0))))))))))))"

subsection \<open>\<open>Layer2/22-tcve-2019-6974.c\<close>\<close>

definition thread_0_sys22 :: sys_prog where
  "thread_0_sys22 =
     Call ''dup'' [Fd 0] (\<lambda>(r, _).
     Write ''target_fd'' r (
     Read ''target_fd'' (\<lambda>s.
     Call ''close'' [Fd s] (\<lambda>_.
     Read ''vm_fd'' (\<lambda>v.
     Call ''ioctl'' [Fd v, Const ''KVM_CREATE_DEVICE'', Ref (Struct [(''type'', Num 4)])] (\<lambda>_.
     Return 0))))))"

definition thread_1_sys22 :: sys_prog where
  "thread_1_sys22 =
     Read ''target_fd'' (\<lambda>s.
     Call ''close'' [Fd s] (\<lambda>_.
     Return 0))"

definition main_sys22 :: sys_prog where
  "main_sys22 =
     Call ''open'' [Text ''/dev/kvm'', Const ''O_RDWR''] (\<lambda>(r, _).
     Write ''kvm_fd'' r (
     Read ''kvm_fd'' (\<lambda>s.
     if s < 0 then Return 1
     else Read ''kvm_fd'' (\<lambda>k.
     Call ''ioctl'' [Fd k, Const ''KVM_CREATE_VM'', Num 0] (\<lambda>(r, _).
     Write ''vm_fd'' r (
     Read ''vm_fd'' (\<lambda>v.
     if v < 0 then Return 1
     else race_two thread_0_sys22 thread_1_sys22 (Return 0))))))))"

subsection \<open>\<open>Layer2/23-watchqueue.c\<close>\<close>

definition thread_setup_sys23 :: sys_prog where
  "thread_setup_sys23 =
     Read ''pipe_fds[0]'' (\<lambda>p.
     Call ''ioctl'' [Fd p, Const ''_IOW(W, 0x60, int)'', Num 16] (\<lambda>_.
     Return 0))"

definition thread_watch_sys23 :: sys_prog where
  "thread_watch_sys23 =
     Read ''key_id'' (\<lambda>k.
     Read ''pipe_fds[0]'' (\<lambda>p.
     Call ''syscall'' [Const ''__NR_keyctl'', Num 17, Num k, Fd p, Num 0] (\<lambda>_.
     Return 0)))"

definition main_sys23 :: sys_prog where
  "main_sys23 =
     Call ''syscall'' [Const ''__NR_add_key'', Text ''user'', Text ''syz'', Text ''data'', Num 4,
         Num (- 2)] (\<lambda>(r, _).
     Write ''key_id'' r (
     Call ''pipe2'' [Const ''pipe_fds'', Const ''O_NOTIFICATION_PIPE''] (\<lambda>(_, out).
     Write ''pipe_fds[0]'' (out 0) (
     Write ''pipe_fds[1]'' (out 1) (
     race_two thread_setup_sys23 thread_watch_sys23 (Return 0))))))"

subsection \<open>\<open>Layer2/24-xsk.c\<close>\<close>

definition thread_mmap_sys24 :: sys_prog where
  "thread_mmap_sys24 =
     Read ''sock_fd'' (\<lambda>s.
     Call ''setsockopt'' [Fd s, Num 283, Num 5, Ref (Num 0x20000), Num 4] (\<lambda>_.
     Read ''sock_fd'' (\<lambda>t.
     Call ''mmap'' [Null, Num 0x1000, Or [''PROT_READ'', ''PROT_WRITE''], Const ''MAP_SHARED'', Fd t,
         Num 0x100000000] (\<lambda>_.
     Return 0))))"

definition thread_close_sys24 :: sys_prog where
  "thread_close_sys24 =
     Read ''sock_fd'' (\<lambda>s.
     Call ''close'' [Fd s] (\<lambda>_.
     Return 0))"

definition main_sys24 :: sys_prog where
  "main_sys24 =
     Call ''socket'' [Num 44, Const ''SOCK_RAW'', Num 0] (\<lambda>(r, _).
     Write ''sock_fd'' r (
     race_two thread_mmap_sys24 thread_close_sys24 (Return 0)))"

subsection \<open>\<open>Layer3/L3-1.c\<close>\<close>

definition thread_ulp_sysL1 :: sys_prog where
  "thread_ulp_sysL1 =
     Read ''sock_fd'' (\<lambda>s.
     Call ''setsockopt'' [Fd s, Const ''SOL_TCP'', Num 31, Text ''smc'', Num 4] (\<lambda>_.
     Return 0))"

definition thread_send_sysL1 :: sys_prog where
  "thread_send_sysL1 =
     Read ''sock_fd'' (\<lambda>s.
     Call ''sendmmsg'' [Fd s, Ref (Array [Struct [(''msg_hdr.msg_iov'', Ref (Struct [(''iov_base'',
         Text ''99''), (''iov_len'', Num 2)])), (''msg_hdr.msg_iovlen'', Num 1)]]), Num 1, Num 0] (\<lambda>_.
     Return 0))"

definition main_sysL1 :: sys_prog where
  "main_sysL1 =
     Call ''socket'' [Const ''AF_INET'', Const ''SOCK_STREAM'', Num 0] (\<lambda>(r, _).
     Write ''sock_fd'' r (
     race_two thread_ulp_sysL1 thread_send_sysL1 (Read ''sock_fd'' (\<lambda>s.
     Call ''close'' [Fd s] (\<lambda>_.
     Return 0)))))"

subsection \<open>\<open>Layer3/L3-2.c\<close>\<close>

definition thread_tls_config_sysL2 :: sys_prog where
  "thread_tls_config_sysL2 =
     Read ''sock_fd'' (\<lambda>s.
     Call ''setsockopt'' [Fd s, Const ''SOL_TCP'', Num 31, Text ''tls'', Num 4] (\<lambda>_.
     Read ''sock_fd'' (\<lambda>t.
     Call ''setsockopt'' [Fd t, Num 282, Num 1, Zeros 60, Num 56] (\<lambda>_.
     Return 0))))"

definition thread_io_sysL2 :: sys_prog where
  "thread_io_sysL2 =
     Read ''sock_fd'' (\<lambda>s.
     Call ''write'' [Fd s, Text ''test_data'', Num 9] (\<lambda>_.
     Read ''sock_fd'' (\<lambda>v.
     Read ''epoll_fd'' (\<lambda>e.
     Read ''sock_fd'' (\<lambda>t.
     Call ''epoll_ctl'' [Fd e, Const ''EPOLL_CTL_ADD'', Fd t, Ref (Struct [(''events'', Or [''EPOLLIN'',
         ''EPOLLOUT'']), (''data.fd'', Fd v)])] (\<lambda>_.
     Return 0))))))"

definition main_sysL2 :: sys_prog where
  "main_sysL2 =
     Call ''socket'' [Const ''AF_INET6'', Const ''SOCK_STREAM'', Num 0] (\<lambda>(r, _).
     Write ''sock_fd'' r (
     Call ''epoll_create'' [Num 1] (\<lambda>(r, _).
     Write ''epoll_fd'' r (
     Read ''sock_fd'' (\<lambda>s.
     Call ''connect'' [Fd s, Ref (Struct [(''sin6_family'', Const ''AF_INET6''), (''sin6_port'',
         Const ''htons(443)''), (''sin6_addr'', Const ''inet_pton(::1)'')]),
         Sizeof ''struct sockaddr_in6''] (\<lambda>_.
     race_two thread_tls_config_sysL2 thread_io_sysL2 (Read ''sock_fd'' (\<lambda>s.
     Call ''close'' [Fd s] (\<lambda>_.
     Read ''epoll_fd'' (\<lambda>e.
     Call ''close'' [Fd e] (\<lambda>_.
     Return 0)))))))))))"

section \<open>Their shape\<close>

lemma main_sys2_harmless: "racing harmless main_sys2"
  by (simp add: thread_config_sys2_def thread_transmit_sys2_def main_sys2_def racing_race_two closed_by_def split: prod.split)

lemma main_sys3_harmless: "racing harmless main_sys3"
  by (simp add: thread_vlan_sys3_def thread_hw_write_sys3_def main_sys3_def racing_race_two closed_by_def split: prod.split)

lemma main_sys4_harmless: "racing harmless main_sys4"
  by (simp add: thread_setup_ring_sys4_def thread_recv_sys4_def main_sys4_def racing_race_two closed_by_def split: prod.split)

lemma main_sys6_harmless: "racing harmless main_sys6"
  by (simp add: thread_bpf_sys6_def thread_sock_sys6_def main_sys6_def racing_race_two closed_by_def split: prod.split)

lemma main_sys7_harmless: "racing harmless main_sys7"
  by (simp add: thread_bpf_sys7_def thread_tx_ring_sys7_def main_sys7_def racing_race_two closed_by_def split: prod.split)

lemma main_sys8_harmless: "racing harmless main_sys8"
  by (simp add: thread_ioctl_sys8_def thread_read_sys8_def main_sys8_def racing_race_two closed_by_def split: prod.split)

lemma main_sys9_harmless: "racing harmless main_sys9"
  by (simp add: thread_repair_connect_sys9_def thread_tls_md5_sys9_def main_sys9_def racing_race_two closed_by_def split: prod.split)

lemma main_sys10_harmless: "racing harmless main_sys10"
  by (simp add: thread_opt_sys10_def thread_send_sys10_def main_sys10_def racing_race_two closed_by_def split: prod.split)

lemma main_sys11_harmless: "racing harmless main_sys11"
  by (simp add: thread_ldisc_sys11_def thread_term_sys11_def main_sys11_def racing_race_two closed_by_def split: prod.split)

lemma main_sys13_harmless: "racing harmless main_sys13"
  by (simp add: thread_bpf_sys13_def thread_poll_sys13_def main_sys13_def racing_race_two closed_by_def split: prod.split)

lemma main_sys14_harmless: "racing harmless main_sys14"
  by (simp add: thread_vmci_sys14_def thread_epoll_sys14_def main_sys14_def racing_race_two closed_by_def split: prod.split)

lemma main_sys15_harmless: "racing harmless main_sys15"
  by (simp add: thread_io_sys15_def thread_tls_sys15_def main_sys15_def racing_race_two closed_by_def split: prod.split)

lemma nbd_sends_sys16_harmless: "harmless (nbd_sends_sys16 n)"
  by (induction n) (simp_all add: closed_by_def)

lemma main_sys17_harmless: "racing harmless main_sys17"
  by (simp add: thread_setup_sys17_def thread_weird_ioctl_sys17_def main_sys17_def racing_race_two closed_by_def split: prod.split)

lemma main_sys18_harmless: "racing harmless main_sys18"
  by (simp add: thread_0_sys18_def thread_1_sys18_def main_sys18_def racing_race_two closed_by_def split: prod.split)

lemma main_sys23_harmless: "racing harmless main_sys23"
  by (simp add: thread_setup_sys23_def thread_watch_sys23_def main_sys23_def racing_race_two closed_by_def split: prod.split)

lemma main_sysL1_harmless: "racing harmless main_sysL1"
  by (simp add: thread_ulp_sysL1_def thread_send_sysL1_def main_sysL1_def racing_race_two closed_by_def split: prod.split)

lemma main_sysL2_harmless: "racing harmless main_sysL2"
  by (simp add: thread_tls_config_sysL2_def thread_io_sysL2_def main_sysL2_def racing_race_two closed_by_def split: prod.split)

section \<open>Races\<close>

text \<open>An answer of the kernel with which every call succeeds.\<close>

definition some_answer :: "string \<Rightarrow> result" where
  "some_answer f = (3, \<lambda>i. int i + 3)"

lemma main_sys1_races: "can_race any_kernel (\<lambda>_. 0) main_sys1"
  by (rule any_race [of some_answer "[0, 0, 0, 0, 1, 2, 2, 2]"]) (simp add: some_answer_def thread_bind_sys1_def thread_send_sys1_def main_sys1_def races_after_simps)

lemma main_sys5_races: "can_race any_kernel (\<lambda>_. 0) main_sys5"
  by (rule any_race [of some_answer "[0, 0, 0, 0, 0, 0, 0, 0, 1, 2]"]) (simp add: some_answer_def thread_race_close_sys5_def thread_race_fcntl_sys5_def main_sys5_def races_after_simps)

lemma main_sys12_races: "can_race any_kernel (\<lambda>_. 0) main_sys12"
  by (rule any_race [of some_answer "[0, 0, 0, 0, 1, 2]"]) (simp add: some_answer_def thread_mmap_sys12_def thread_close_sys12_def main_sys12_def races_after_simps)

lemma main_sys24_races: "can_race any_kernel (\<lambda>_. 0) main_sys24"
  by (rule any_race [of some_answer "[0, 0, 0, 0, 1, 2]"]) (simp add: some_answer_def thread_mmap_sys24_def thread_close_sys24_def main_sys24_def races_after_simps)

lemma main_sys19_races: "can_race any_kernel (\<lambda>_. 0) main_sys19"
  by (rule any_race [of some_answer "[0, 0, 0, 0, 0, 1, 2, 2, 2]"]) (simp add: some_answer_def thread_0_sys19_def thread_1_sys19_def main_sys19_def races_after_simps)

lemma main_sys20_races: "can_race any_kernel (\<lambda>_. 0) main_sys20"
  by (rule any_race [of some_answer "[0, 0, 0, 0, 0, 1, 2, 2, 2]"]) (simp add: some_answer_def thread_0_sys20_def thread_1_sys20_def main_sys20_def races_after_simps)

lemma main_sys21_races: "can_race any_kernel (\<lambda>_. 0) main_sys21"
  by (rule any_race [of some_answer "[0, 0, 0, 0, 0, 0, 0, 0, 0, 1, 1, 1, 2, 2]"]) (simp add: some_answer_def thread_0_sys21_def thread_1_sys21_def main_sys21_def races_after_simps)

lemma main_sys22_races: "can_race any_kernel (\<lambda>_. 0) main_sys22"
  by (rule any_race [of some_answer "[0, 0, 0, 0, 0, 0, 0, 0, 0, 1, 1, 1, 2]"]) (simp add: some_answer_def thread_0_sys22_def thread_1_sys22_def main_sys22_def races_after_simps)

section \<open>The suite\<close>

text \<open>The samples in which no thread closes a descriptor, and those in which one does.\<close>

definition quiet_samples :: "sys_prog list" where
  "quiet_samples = [
    main_sys2, main_sys3, main_sys4, main_sys6, main_sys7, main_sys8, main_sys9, main_sys10,
    main_sys11, main_sys13, main_sys14, main_sys15, main_sys17, main_sys18, main_sys23, main_sysL1,
    main_sysL2]"

definition closing_samples :: "sys_prog list" where
  "closing_samples = [
    main_sys1, main_sys5, main_sys12, main_sys19, main_sys20, main_sys21, main_sys22, main_sys24]"

lemmas quiet_harmless =
    main_sys2_harmless main_sys3_harmless main_sys4_harmless main_sys6_harmless
    main_sys7_harmless main_sys8_harmless main_sys9_harmless main_sys10_harmless
    main_sys11_harmless main_sys13_harmless main_sys14_harmless main_sys15_harmless
    main_sys17_harmless main_sys18_harmless main_sys23_harmless main_sysL1_harmless
    main_sysL2_harmless

lemmas closing_races =
    main_sys1_races main_sys5_races main_sys12_races main_sys19_races main_sys20_races
    main_sys21_races main_sys22_races main_sys24_races

section \<open>Calls that fail\<close>

text \<open>Every call fails; or all succeed but \<open>dup\<close>.\<close>

definition all_fail :: "string \<Rightarrow> result" where
  "all_fail f = (- 1, \<lambda>_. 0)"

definition dup_fails :: "string \<Rightarrow> result" where
  "dup_fails f = (if f = ''dup'' then (- 1, \<lambda>_. 0) else (3, \<lambda>i. int i + 3))"

lemma main_sys1_misuses: "can_misuse pair_kernel (\<lambda>_. 0) main_sys1"
  by (rule misuses_after_can_misuse [of all_fail "[0, 0, 0, 0, 1]"])
    (simp_all add: all_fail_def pair_kernel_def thread_bind_sys1_def thread_send_sys1_def main_sys1_def misuses_after_simps)

lemma main_sys2_misuses: "can_misuse pair_kernel (\<lambda>_. 0) main_sys2"
  by (rule misuses_after_can_misuse [of all_fail "[0, 0, 0]"])
    (simp_all add: all_fail_def pair_kernel_def thread_config_sys2_def thread_transmit_sys2_def main_sys2_def misuses_after_simps)

lemma main_sys3_misuses: "can_misuse pair_kernel (\<lambda>_. 0) main_sys3"
  by (rule misuses_after_can_misuse [of all_fail "[0, 0, 0]"])
    (simp_all add: all_fail_def pair_kernel_def thread_vlan_sys3_def thread_hw_write_sys3_def main_sys3_def misuses_after_simps)

lemma main_sys4_misuses: "can_misuse pair_kernel (\<lambda>_. 0) main_sys4"
  by (rule misuses_after_can_misuse [of all_fail "[0, 0, 0, 0, 0]"])
    (simp_all add: all_fail_def pair_kernel_def thread_setup_ring_sys4_def thread_recv_sys4_def main_sys4_def misuses_after_simps)

lemma main_sys5_misuses: "can_misuse pair_kernel (\<lambda>_. 0) main_sys5"
  by (rule misuses_after_can_misuse [of all_fail "[0, 0, 0, 0, 0, 0, 0, 0, 1]"])
    (simp_all add: all_fail_def pair_kernel_def thread_race_close_sys5_def thread_race_fcntl_sys5_def main_sys5_def misuses_after_simps)

lemma main_sys6_misuses: "can_misuse pair_kernel (\<lambda>_. 0) main_sys6"
  by (rule misuses_after_can_misuse [of all_fail "[0, 0, 0]"])
    (simp_all add: all_fail_def pair_kernel_def thread_bpf_sys6_def thread_sock_sys6_def main_sys6_def misuses_after_simps)

lemma main_sys7_misuses: "can_misuse pair_kernel (\<lambda>_. 0) main_sys7"
  by (rule misuses_after_can_misuse [of all_fail "[0, 0, 0, 0, 0, 0, 2]"])
    (simp_all add: all_fail_def pair_kernel_def thread_bpf_sys7_def thread_tx_ring_sys7_def main_sys7_def misuses_after_simps)

lemma main_sys8_opening: "opens_safely pair_kernel {''pipe_fds[0]''} main_sys8 (\<lambda>_. 0)"
  by (auto simp: pair_kernel_def thread_ioctl_sys8_def thread_read_sys8_def main_sys8_def race_two_def)

lemma main_sys9_misuses: "can_misuse pair_kernel (\<lambda>_. 0) main_sys9"
  by (rule misuses_after_can_misuse [of all_fail "[0, 0, 0, 0, 1]"])
    (simp_all add: all_fail_def pair_kernel_def thread_repair_connect_sys9_def thread_tls_md5_sys9_def main_sys9_def misuses_after_simps)

lemma main_sys10_misuses: "can_misuse pair_kernel (\<lambda>_. 0) main_sys10"
  by (rule misuses_after_can_misuse [of all_fail "[0, 0, 0, 0, 1]"])
    (simp_all add: all_fail_def pair_kernel_def thread_opt_sys10_def thread_send_sys10_def main_sys10_def misuses_after_simps)

lemma main_sys11_misuses: "can_misuse pair_kernel (\<lambda>_. 0) main_sys11"
  by (rule misuses_after_can_misuse [of all_fail "[0, 0, 0, 0, 1]"])
    (simp_all add: all_fail_def pair_kernel_def thread_ldisc_sys11_def thread_term_sys11_def main_sys11_def misuses_after_simps)

lemma main_sys12_misuses: "can_misuse pair_kernel (\<lambda>_. 0) main_sys12"
  by (rule misuses_after_can_misuse [of all_fail "[0, 0, 0, 0, 1]"])
    (simp_all add: all_fail_def pair_kernel_def thread_mmap_sys12_def thread_close_sys12_def main_sys12_def misuses_after_simps)

lemma main_sys13_misuses: "can_misuse pair_kernel (\<lambda>_. 0) main_sys13"
  by (rule misuses_after_can_misuse [of all_fail "[0, 0, 0, 0, 0, 0, 2]"])
    (simp_all add: all_fail_def pair_kernel_def thread_bpf_sys13_def thread_poll_sys13_def main_sys13_def misuses_after_simps)

lemma main_sys14_misuses: "can_misuse pair_kernel (\<lambda>_. 0) main_sys14"
  by (rule misuses_after_can_misuse [of all_fail "[0, 0, 0, 0, 0, 0, 0, 0, 1]"])
    (simp_all add: all_fail_def pair_kernel_def thread_vmci_sys14_def thread_epoll_sys14_def main_sys14_def misuses_after_simps)

lemma main_sys15_misuses: "can_misuse pair_kernel (\<lambda>_. 0) main_sys15"
  by (rule misuses_after_can_misuse [of all_fail "[0, 0, 0, 0, 2]"])
    (simp_all add: all_fail_def pair_kernel_def thread_io_sys15_def thread_tls_sys15_def main_sys15_def misuses_after_simps)

lemma main_sys16_misuses: "can_misuse pair_kernel (\<lambda>_. 0) main_sys16"
  by (rule misuses_after_can_misuse [of all_fail "[0, 0, 0, 0, 1]"])
    (simp_all add: all_fail_def pair_kernel_def thread_netlink_sys16_def thread_open_dev_sys16_def main_sys16_def misuses_after_simps numeral_eq_Suc)

lemma main_sys17_misuses: "can_misuse pair_kernel (\<lambda>_. 0) main_sys17"
  by (rule misuses_after_can_misuse [of all_fail "[0, 0, 0, 0, 1]"])
    (simp_all add: all_fail_def pair_kernel_def thread_setup_sys17_def thread_weird_ioctl_sys17_def main_sys17_def misuses_after_simps)

lemma main_sys18_misuses: "can_misuse pair_kernel (\<lambda>_. 0) main_sys18"
  by (rule misuses_after_can_misuse [of all_fail "[0, 0, 0, 0, 1]"])
    (simp_all add: all_fail_def pair_kernel_def thread_0_sys18_def thread_1_sys18_def main_sys18_def misuses_after_simps)

lemma main_sys19_opening: "opens_safely pair_kernel {''fd''} main_sys19 (\<lambda>_. 0)"
  by (auto simp: pair_kernel_def thread_0_sys19_def thread_1_sys19_def main_sys19_def race_two_def)

lemma main_sys20_opening: "opens_safely pair_kernel {''fd''} main_sys20 (\<lambda>_. 0)"
  by (auto simp: pair_kernel_def thread_0_sys20_def thread_1_sys20_def main_sys20_def race_two_def)

lemma main_sys21_opening: "opens_safely pair_kernel {''sv[0]'', ''sv[1]''} main_sys21 (\<lambda>_. 0)"
  by (auto simp: pair_kernel_def thread_0_sys21_def thread_1_sys21_def main_sys21_def race_two_def)

lemma main_sys22_misuses: "can_misuse pair_kernel (\<lambda>_. 0) main_sys22"
  by (rule misuses_after_can_misuse [of dup_fails "[0, 0, 0, 0, 0, 0, 0, 0, 0, 1, 1, 1]"])
    (simp_all add: dup_fails_def pair_kernel_def thread_0_sys22_def thread_1_sys22_def main_sys22_def misuses_after_simps)

lemma main_sys23_opening: "opens_safely pair_kernel {''pipe_fds[0]''} main_sys23 (\<lambda>_. 0)"
  by (auto simp: pair_kernel_def thread_setup_sys23_def thread_watch_sys23_def main_sys23_def race_two_def)

lemma main_sys24_misuses: "can_misuse pair_kernel (\<lambda>_. 0) main_sys24"
  by (rule misuses_after_can_misuse [of all_fail "[0, 0, 0, 0, 1]"])
    (simp_all add: all_fail_def pair_kernel_def thread_mmap_sys24_def thread_close_sys24_def main_sys24_def misuses_after_simps)

lemma main_sysL1_misuses: "can_misuse pair_kernel (\<lambda>_. 0) main_sysL1"
  by (rule misuses_after_can_misuse [of all_fail "[0, 0, 0, 0, 1]"])
    (simp_all add: all_fail_def pair_kernel_def thread_ulp_sysL1_def thread_send_sysL1_def main_sysL1_def misuses_after_simps)

lemma main_sysL2_misuses: "can_misuse pair_kernel (\<lambda>_. 0) main_sysL2"
  by (rule misuses_after_can_misuse [of all_fail "[0, 0, 0, 0, 0]"])
    (simp_all add: all_fail_def pair_kernel_def thread_tls_config_sysL2_def thread_io_sysL2_def main_sysL2_def misuses_after_simps)

definition checked_samples :: "sys_prog list" where
  "checked_samples = [
    main_sys8, main_sys19, main_sys20, main_sys21, main_sys23]"

definition unchecked_samples :: "sys_prog list" where
  "unchecked_samples = [
    main_sys1, main_sys2, main_sys3, main_sys4, main_sys5, main_sys6, main_sys7, main_sys9,
    main_sys10, main_sys11, main_sys12, main_sys13, main_sys14, main_sys15, main_sys16, main_sys17,
    main_sys18, main_sys22, main_sys24, main_sysL1, main_sysL2]"

lemmas checked_opening =
    main_sys8_opening main_sys19_opening main_sys20_opening main_sys21_opening
    main_sys23_opening

lemmas unchecked_misuses =
    main_sys1_misuses main_sys2_misuses main_sys3_misuses main_sys4_misuses main_sys5_misuses
    main_sys6_misuses main_sys7_misuses main_sys9_misuses main_sys10_misuses
    main_sys11_misuses main_sys12_misuses main_sys13_misuses main_sys14_misuses
    main_sys15_misuses main_sys16_misuses main_sys17_misuses main_sys18_misuses
    main_sys22_misuses main_sys24_misuses main_sysL1_misuses main_sysL2_misuses

text \<open>
  C17. Calls that fail. Three of the 26 samples test the results of the calls that
  open their descriptors and return when one is negative; in two others \<open>pipe2\<close> leaves the array
  of descriptors zero when it fails, so that they go on with the standard input. In these five no
  system call is ever given a negative descriptor, whatever the kernel answers otherwise. In the
  other twenty-one one can be: eighteen test nothing, two test the socket and go on all the same,
  and the KVM sample tests the two calls of \<open>main\<close> but not the \<open>dup\<close> of its thread, which it then
  closes.
\<close>

theorem descriptor_checks:
  "list_all (\<lambda>p. \<not> can_misuse pair_kernel (\<lambda>_. 0) p) checked_samples \<and>
   list_all (can_misuse pair_kernel (\<lambda>_. 0)) unchecked_samples"
  by (simp add: checked_samples_def unchecked_samples_def opening_no_misuse [OF main_sys19_opening]
      opening_no_misuse [OF main_sys20_opening] opening_no_misuse [OF main_sys21_opening]
      opening_no_misuse [OF main_sys8_opening] opening_no_misuse [OF main_sys23_opening] unchecked_misuses)

text \<open>
  C16. The eight samples in which a thread closes the shared descriptor race on it: one thread can be
  about to close it while the other is about to use it. In the other seventeen no descriptor is
  ever closed while another thread can use it, whatever the kernel answers.
\<close>

theorem descriptor_races:
  "list_all (\<lambda>p. \<not> can_race any_kernel (\<lambda>_. 0) p) quiet_samples \<and>
   list_all (can_race any_kernel (\<lambda>_. 0)) closing_samples"
  by (simp add: quiet_samples_def closing_samples_def harmless_no_race quiet_harmless closing_races)

end
