(* ===== verification/Kernel_Stubs.thy ===== *)
theory Kernel_Stubs
  imports System_Calls
begin

text \<open>
  The CBMC versions of the samples of Layers 2 and 3, \<open>CBMC/Layer2/*.c\<close> and \<open>CBMC/Layer3/*.c\<close>, in
  which every system call is a function of the sample that returns a constant. These functions
  are the kernel of the sample; the values they store through a pointer are part of their result.
\<close>

section \<open>The samples\<close>

subsection \<open>\<open>CBMC/Layer2/1-rds.c\<close>\<close>

definition stub1 :: "string \<Rightarrow> result" where
  "stub1 f = ((0, \<lambda>_. 0))"

definition globals_stub1 :: "string \<Rightarrow> int" where
  "globals_stub1 = (\<lambda>_. 0)(''rds_sock'' := 3)"

definition thread_bind_stub1 :: sys_prog where
  "thread_bind_stub1 =
     Read ''rds_sock'' (\<lambda>s.
     Call ''bind'' [Fd s, Ref (Struct [(''sa_family'', Num 21)]), Sizeof ''addr''] (\<lambda>_.
     Return 0))"

definition thread_send_stub1 :: sys_prog where
  "thread_send_stub1 =
     Read ''rds_sock'' (\<lambda>s.
     Call ''sendmsg'' [Fd s, Ref (Struct []), Num 0] (\<lambda>_.
     Return 0))"

definition main_stub1 :: sys_prog where
  "main_stub1 =
     race_two thread_bind_stub1 thread_send_stub1 (Return 0)"

subsection \<open>\<open>CBMC/Layer2/2-vlan.c\<close>\<close>

definition stub2 :: "string \<Rightarrow> result" where
  "stub2 f = ((0, \<lambda>_. 0))"

definition globals_stub2 :: "string \<Rightarrow> int" where
  "globals_stub2 = (\<lambda>_. 0)(''s_igmp'' := 4, ''s_kcm'' := 5)"

definition thread_config_stub2 :: sys_prog where
  "thread_config_stub2 =
     Read ''s_igmp'' (\<lambda>s.
     Call ''ioctl'' [Fd s, Num 0x8983, Ref (Struct [(''ifr_name'', Text ''syzkaller1'')])] (\<lambda>_.
     Return 0))"

definition thread_transmit_stub2 :: sys_prog where
  "thread_transmit_stub2 =
     Read ''s_kcm'' (\<lambda>s.
     Call ''ioctl'' [Fd s, Num 0x8914, Ref (Struct [(''ifr_name'', Text ''syzkaller1''),
         (''ifr_hwaddr.sa_family'', Num 1)])] (\<lambda>_.
     Return 0))"

definition main_stub2 :: sys_prog where
  "main_stub2 =
     race_two thread_config_stub2 thread_transmit_stub2 (Return 0)"

subsection \<open>\<open>CBMC/Layer2/3-vlan-s.c\<close>\<close>

definition stub3 :: "string \<Rightarrow> result" where
  "stub3 f = ((0, \<lambda>_. 0))"

definition globals_stub3 :: "string \<Rightarrow> int" where
  "globals_stub3 = (\<lambda>_. 0)(''s_kcm'' := 4, ''s_igmp'' := 5)"

definition thread_vlan_stub3 :: sys_prog where
  "thread_vlan_stub3 =
     Read ''s_igmp'' (\<lambda>s.
     Call ''ioctl'' [Fd s, Num 0x8983, Ref (Struct [(''ifr_name'', Text ''syzkaller1'')])] (\<lambda>_.
     Return 0))"

definition thread_hw_write_stub3 :: sys_prog where
  "thread_hw_write_stub3 =
     Read ''s_kcm'' (\<lambda>s.
     Call ''ioctl'' [Fd s, Num 0x8924, Ref (Struct [(''ifr_name'', Text ''syzkaller1''),
         (''ifr_hwaddr.sa_family'', Num 1)])] (\<lambda>_.
     Return 0))"

definition main_stub3 :: sys_prog where
  "main_stub3 =
     race_two thread_vlan_stub3 thread_hw_write_stub3 (Return 0)"

subsection \<open>\<open>CBMC/Layer2/4-xsk2.c\<close>\<close>

definition stub4 :: "string \<Rightarrow> result" where
  "stub4 f = ((0, \<lambda>_. 0))"

definition globals_stub4 :: "string \<Rightarrow> int" where
  "globals_stub4 = (\<lambda>_. 0)(''xdp_fd'' := 3, ''inet_fd'' := 4)"

definition thread_setup_ring_stub4 :: sys_prog where
  "thread_setup_ring_stub4 =
     Read ''xdp_fd'' (\<lambda>s.
     Call ''setsockopt'' [Fd s, Num 283, Num 1, Ref (Num 8), Sizeof ''int''] (\<lambda>_.
     Read ''xdp_fd'' (\<lambda>t.
     Call ''bind'' [Fd t, Ref (Struct [(''sxdp_family'', Num 44), (''sxdp_ifindex'', Num 0)]),
         Sizeof ''struct sockaddr_xdp''] (\<lambda>_.
     Return 0))))"

definition thread_poll_stub4 :: sys_prog where
  "thread_poll_stub4 =
     Call ''poll'' [Null, Num 0, Num 1] (\<lambda>_.
     Return 0)"

definition main_stub4 :: sys_prog where
  "main_stub4 =
     race_two thread_setup_ring_stub4 thread_poll_stub4 (Return 0)"

subsection \<open>\<open>CBMC/Layer2/5-fs.c\<close>\<close>

definition stub5 :: "string \<Rightarrow> result" where
  "stub5 f = ((0, \<lambda>_. 0))"

definition globals_stub5 :: "string \<Rightarrow> int" where
  "globals_stub5 = (\<lambda>_. 0)(''socks[0]'' := 3, ''socks[1]'' := 4, ''socks[2]'' := 5)"

definition thread_race_close_stub5 :: sys_prog where
  "thread_race_close_stub5 =
     Read ''socks[0]'' (\<lambda>s.
     Call ''close'' [Fd s] (\<lambda>_.
     Return 0))"

definition thread_race_fcntl_stub5 :: sys_prog where
  "thread_race_fcntl_stub5 =
     Read ''socks[0]'' (\<lambda>s.
     Call ''fcntl'' [Fd s, Num 1] (\<lambda>_.
     Return 0))"

definition main_stub5 :: sys_prog where
  "main_stub5 =
     race_two thread_race_close_stub5 thread_race_fcntl_stub5 (Return 0)"

subsection \<open>\<open>CBMC/Layer2/6-bpf.c\<close>\<close>

definition stub6 :: "string \<Rightarrow> result" where
  "stub6 f = ((0, \<lambda>_. 0))"

definition globals_stub6 :: "string \<Rightarrow> int" where
  "globals_stub6 = (\<lambda>_. 0)(''u_sock'' := 5)"

definition thread_bpf_stub6 :: sys_prog where
  "thread_bpf_stub6 =
     Call ''syscall'' [Num 321, Num 0, Ref (Struct [(''map_type'', Num 15)]), Sizeof ''union bpf_attr''] (\<lambda>(m, _).
     Call ''syscall'' [Num 321, Num 2, Ref (Struct [(''map_fd'', Fd m)]), Sizeof ''union bpf_attr''] (\<lambda>_.
     Return 0))"

definition thread_sock_stub6 :: sys_prog where
  "thread_sock_stub6 =
     Read ''u_sock'' (\<lambda>s.
     Call ''connect'' [Fd s, Null, Num 0] (\<lambda>_.
     Return 0))"

definition main_stub6 :: sys_prog where
  "main_stub6 =
     race_two thread_bpf_stub6 thread_sock_stub6 (Return 0)"

subsection \<open>\<open>CBMC/Layer2/7-xdp2.c\<close>\<close>

definition stub7 :: "string \<Rightarrow> result" where
  "stub7 f = ((0, \<lambda>_. 0))"

definition globals_stub7 :: "string \<Rightarrow> int" where
  "globals_stub7 = (\<lambda>_. 0)(''tun_fd'' := 3, ''xdp_fd'' := 4)"

definition thread_bpf_stub7 :: sys_prog where
  "thread_bpf_stub7 =
     Call ''syscall'' [Num 321, Num 5, Ref (Struct [(''prog_type'', Num 17)]), Sizeof ''union bpf_attr''] (\<lambda>_.
     Return 0)"

definition thread_tx_ring_stub7 :: sys_prog where
  "thread_tx_ring_stub7 =
     Read ''xdp_fd'' (\<lambda>s.
     Call ''setsockopt'' [Fd s, Num 283, Num 3, Ref (Num 2), Num 4] (\<lambda>_.
     Read ''tun_fd'' (\<lambda>t.
     Read ''xdp_fd'' (\<lambda>u.
     Call ''poll'' [Ref (Array [Struct [(''fd'', Fd t), (''events'', Num 1), (''revents'', Num 0)], Struct
         [(''fd'', Fd u), (''events'', Num 1), (''revents'', Num 0)]]), Num 2, Num 1] (\<lambda>_.
     Return 0)))))"

definition main_stub7 :: sys_prog where
  "main_stub7 =
     race_two thread_bpf_stub7 thread_tx_ring_stub7 (Return 0)"

subsection \<open>\<open>CBMC/Layer2/8-watchqueue.c\<close>\<close>

definition stub8 :: "string \<Rightarrow> result" where
  "stub8 f = ((0, \<lambda>_. 0))"

definition globals_stub8 :: "string \<Rightarrow> int" where
  "globals_stub8 = (\<lambda>_. 0)(''pipe_fds[0]'' := 3, ''pipe_fds[1]'' := 4)"

definition thread_ioctl_stub8 :: sys_prog where
  "thread_ioctl_stub8 =
     Read ''pipe_fds[0]'' (\<lambda>p.
     Call ''ioctl'' [Fd p, Num 0x40045760, Num 16] (\<lambda>_.
     Return 0))"

definition thread_read_stub8 :: sys_prog where
  "thread_read_stub8 =
     Read ''pipe_fds[0]'' (\<lambda>p.
     Call ''read'' [Fd p, Ref (Buffer 100), Num 100] (\<lambda>_.
     Return 0))"

definition main_stub8 :: sys_prog where
  "main_stub8 =
     race_two thread_ioctl_stub8 thread_read_stub8 (Return 0)"

subsection \<open>\<open>CBMC/Layer2/9-tls2.c\<close>\<close>

definition stub9 :: "string \<Rightarrow> result" where
  "stub9 f = ((0, \<lambda>_. 0))"

definition globals_stub9 :: "string \<Rightarrow> int" where
  "globals_stub9 = (\<lambda>_. 0)(''sock_fd'' := 3)"

definition thread_repair_connect_stub9 :: sys_prog where
  "thread_repair_connect_stub9 =
     Read ''sock_fd'' (\<lambda>s.
     Call ''setsockopt'' [Fd s, Num 6, Num 19, Ref (Num 1), Num 4] (\<lambda>_.
     Read ''sock_fd'' (\<lambda>t.
     Call ''connect'' [Fd t, Ref (Struct [(''sin6_family'', Num 10)]), Sizeof ''struct sockaddr_in6''] (\<lambda>_.
     Return 0))))"

definition thread_tls_md5_stub9 :: sys_prog where
  "thread_tls_md5_stub9 =
     Read ''sock_fd'' (\<lambda>s.
     Call ''setsockopt'' [Fd s, Num 6, Num 31, Text ''tls'', Num 4] (\<lambda>_.
     Return 0))"

definition main_stub9 :: sys_prog where
  "main_stub9 =
     race_two thread_repair_connect_stub9 thread_tls_md5_stub9 (Return 0)"

subsection \<open>\<open>CBMC/Layer2/10-smc2.c\<close>\<close>

definition stub10 :: "string \<Rightarrow> result" where
  "stub10 f = ((0, \<lambda>_. 0))"

definition globals_stub10 :: "string \<Rightarrow> int" where
  "globals_stub10 = (\<lambda>_. 0)(''sock_fd'' := 3)"

definition thread_opt_stub10 :: sys_prog where
  "thread_opt_stub10 =
     Read ''sock_fd'' (\<lambda>s.
     Call ''setsockopt'' [Fd s, Num 6, Num 0x22, Ref (Num 1), Num 4] (\<lambda>_.
     Return 0))"

definition thread_send_stub10 :: sys_prog where
  "thread_send_stub10 =
     Read ''sock_fd'' (\<lambda>s.
     Call ''sendmmsg'' [Fd s, Ref (Array [Struct []]), Num 1, Num 0] (\<lambda>_.
     Return 0))"

definition main_stub10 :: sys_prog where
  "main_stub10 =
     race_two thread_opt_stub10 thread_send_stub10 (Return 0)"

subsection \<open>\<open>CBMC/Layer2/11-gsm.c\<close>\<close>

definition stub11 :: "string \<Rightarrow> result" where
  "stub11 f = (if f = ''open'' then (3, \<lambda>_. 0)
     else (0, \<lambda>_. 0))"

definition globals_stub11 :: "string \<Rightarrow> int" where
  "globals_stub11 = (\<lambda>_. 0)"

definition thread_ldisc_stub11 :: sys_prog where
  "thread_ldisc_stub11 =
     Read ''fd'' (\<lambda>s.
     Call ''ioctl'' [Fd s, Num 0x5423, Ref (Num 21)] (\<lambda>_.
     Return 0))"

definition thread_term_stub11 :: sys_prog where
  "thread_term_stub11 =
     Read ''fd'' (\<lambda>s.
     Call ''ioctl'' [Fd s, Num 0x5404, Ref (Zeros 40)] (\<lambda>_.
     Return 0))"

definition main_stub11 :: sys_prog where
  "main_stub11 =
     Call ''open'' [Text ''/dev/ptmx'', Num 2] (\<lambda>(r, _).
     Write ''fd'' r (
     race_two thread_ldisc_stub11 thread_term_stub11 (Return 0)))"

subsection \<open>\<open>CBMC/Layer2/12-xsk.c\<close>\<close>

definition stub12 :: "string \<Rightarrow> result" where
  "stub12 f = (if f = ''socket'' then (3, \<lambda>_. 0)
     else (0, \<lambda>_. 0))"

definition globals_stub12 :: "string \<Rightarrow> int" where
  "globals_stub12 = (\<lambda>_. 0)"

definition thread_mmap_stub12 :: sys_prog where
  "thread_mmap_stub12 =
     Read ''xdp_fd'' (\<lambda>s.
     Call ''setsockopt'' [Fd s, Num 283, Num 5, Ref (Num 0x4000), Num 4] (\<lambda>_.
     Read ''xdp_fd'' (\<lambda>t.
     Call ''mmap'' [Null, Num 0x4000, Num 3, Num 1, Fd t, Num 0x100000000] (\<lambda>_.
     Return 0))))"

definition thread_close_stub12 :: sys_prog where
  "thread_close_stub12 =
     Read ''xdp_fd'' (\<lambda>s.
     Call ''close'' [Fd s] (\<lambda>_.
     Return 0))"

definition main_stub12 :: sys_prog where
  "main_stub12 =
     Call ''socket'' [Num 44, Num 3, Num 0] (\<lambda>(r, _).
     Write ''xdp_fd'' r (
     race_two thread_mmap_stub12 thread_close_stub12 (Return 0)))"

subsection \<open>\<open>CBMC/Layer2/13-xdp.c\<close>\<close>

definition stub13 :: "string \<Rightarrow> result" where
  "stub13 f = ((0, \<lambda>_. 0))"

definition globals_stub13 :: "string \<Rightarrow> int" where
  "globals_stub13 = (\<lambda>_. 0)(''tun_fd'' := 3, ''xdp_fd'' := 4)"

definition thread_bpf_stub13 :: sys_prog where
  "thread_bpf_stub13 =
     Call ''syscall'' [Num 321, Num 5, Ref (Zeros 60), Num 120] (\<lambda>_.
     Call ''syscall'' [Num 321, Num 17, Ref (Zeros 60), Num 120] (\<lambda>_.
     Return 0))"

definition thread_poll_stub13 :: sys_prog where
  "thread_poll_stub13 =
     Read ''xdp_fd'' (\<lambda>s.
     Call ''setsockopt'' [Fd s, Num 283, Num 3, Ref (Num 2), Num 4] (\<lambda>_.
     Read ''tun_fd'' (\<lambda>t.
     Read ''xdp_fd'' (\<lambda>u.
     Call ''poll'' [Ref (Array [Struct [(''fd'', Fd t), (''events'', Num 1), (''revents'', Num 0)], Struct
         [(''fd'', Fd u), (''events'', Num 1), (''revents'', Num 0)]]), Num 2, Num 1] (\<lambda>_.
     Return 0)))))"

definition main_stub13 :: sys_prog where
  "main_stub13 =
     race_two thread_bpf_stub13 thread_poll_stub13 (Return 0)"

subsection \<open>\<open>CBMC/Layer2/14-vmci.c\<close>\<close>

definition stub14 :: "string \<Rightarrow> result" where
  "stub14 f = ((0, \<lambda>_. 0))"

definition globals_stub14 :: "string \<Rightarrow> int" where
  "globals_stub14 = (\<lambda>_. 0)(''epfd'' := 3, ''vmci_fd'' := 4)"

definition thread_vmci_stub14 :: sys_prog where
  "thread_vmci_stub14 =
     Read ''vmci_fd'' (\<lambda>s.
     Call ''ioctl'' [Fd s, Num 0x7a7, Num 0x10000] (\<lambda>_.
     Read ''vmci_fd'' (\<lambda>t.
     Call ''ioctl'' [Fd t, Num 0x7a0, Num 0] (\<lambda>_.
     Return 0))))"

definition thread_epoll_stub14 :: sys_prog where
  "thread_epoll_stub14 =
     Read ''vmci_fd'' (\<lambda>v.
     Read ''epfd'' (\<lambda>e.
     Read ''vmci_fd'' (\<lambda>s.
     Call ''epoll_ctl'' [Fd e, Num 1, Fd s, Ref (Struct [(''events'', Num 1), (''fd'', Fd v)])] (\<lambda>_.
     Return 0))))"

definition main_stub14 :: sys_prog where
  "main_stub14 =
     race_two thread_vmci_stub14 thread_epoll_stub14 (Return 0)"

subsection \<open>\<open>CBMC/Layer2/15-tls.c\<close>\<close>

definition stub15 :: "string \<Rightarrow> result" where
  "stub15 f = (if f = ''socket'' then (4, \<lambda>_. 0)
     else (0, \<lambda>_. 0))"

definition globals_stub15 :: "string \<Rightarrow> int" where
  "globals_stub15 = (\<lambda>_. 0)(''tcp_sock'' := 3)"

definition thread_io_stub15 :: sys_prog where
  "thread_io_stub15 =
     Call ''syscall'' [Num 206, Num 2, Const ''&ctx''] (\<lambda>_.
     Call ''socket'' [Num 16, Num 3, Num 21] (\<lambda>(c1, _).
     Read ''ctx'' (\<lambda>x.
     Call ''syscall'' [Num 208, Num x, Num 1, Array [Ref (Zeros 64)]] (\<lambda>_.
     Call ''writev'' [Fd c1, Ref (Struct [(''base'', Text ''data''), (''len'', Num 4)]), Num 1] (\<lambda>_.
     Return 0)))))"

definition thread_tls_stub15 :: sys_prog where
  "thread_tls_stub15 =
     Read ''tcp_sock'' (\<lambda>s.
     Call ''setsockopt'' [Fd s, Num 6, Num 31, Text ''tls'', Num 4] (\<lambda>_.
     Return 0))"

definition main_stub15 :: sys_prog where
  "main_stub15 =
     race_two thread_io_stub15 thread_tls_stub15 (Return 0)"

subsection \<open>\<open>CBMC/Layer2/16-nbd.c\<close>\<close>

definition stub16 :: "string \<Rightarrow> result" where
  "stub16 f = ((0, \<lambda>_. 0))"

definition globals_stub16 :: "string \<Rightarrow> int" where
  "globals_stub16 = (\<lambda>_. 0)(''nl_sock'' := 3, ''nbd_fd'' := 4)"

primrec nbd_sends_stub16 :: "nat \<Rightarrow> sys_prog" where
  "nbd_sends_stub16 0 = Return 0"
| "nbd_sends_stub16 (Suc n) = Read ''nl_sock'' (\<lambda>s. Call ''sendmsg'' [Fd s, Ref (Zeros 80), Num 0] (\<lambda>_. nbd_sends_stub16 n))"

definition thread_netlink_stub16 :: sys_prog where
  "thread_netlink_stub16 =
     nbd_sends_stub16 2"

definition thread_ioctl_stub16 :: sys_prog where
  "thread_ioctl_stub16 =
     Read ''nbd_fd'' (\<lambda>s.
     Call ''ioctl'' [Fd s, Num 0xab00, Num 0] (\<lambda>_.
     Read ''nbd_fd'' (\<lambda>t.
     Call ''ioctl'' [Fd t, Num 0xab04, Num 0] (\<lambda>_.
     Return 0))))"

definition main_stub16 :: sys_prog where
  "main_stub16 =
     race_two thread_netlink_stub16 thread_ioctl_stub16 (Return 0)"

subsection \<open>\<open>CBMC/Layer2/17-unix.c\<close>\<close>

definition stub17 :: "string \<Rightarrow> result" where
  "stub17 f = (if f = ''socket'' then (3, \<lambda>_. 0)
     else (0, \<lambda>_. 0))"

definition globals_stub17 :: "string \<Rightarrow> int" where
  "globals_stub17 = (\<lambda>_. 0)"

definition thread_setup_stub17 :: sys_prog where
  "thread_setup_stub17 =
     Read ''u_sock'' (\<lambda>s.
     Call ''bind'' [Fd s, Ref (Zeros 110), Num 16] (\<lambda>_.
     Read ''u_sock'' (\<lambda>t.
     Call ''listen'' [Fd t, Num 0] (\<lambda>_.
     Return 0))))"

definition thread_weird_ioctl_stub17 :: sys_prog where
  "thread_weird_ioctl_stub17 =
     Read ''u_sock'' (\<lambda>s.
     Call ''ioctl'' [Fd s, Num 0x89e0, Num 0] (\<lambda>_.
     Return 0))"

definition main_stub17 :: sys_prog where
  "main_stub17 =
     Call ''socket'' [Num 1, Num 5, Num 0] (\<lambda>(r, _).
     Write ''u_sock'' r (
     race_two thread_setup_stub17 thread_weird_ioctl_stub17 (Return 0)))"

subsection \<open>\<open>CBMC/Layer2/18-unix-s.c\<close>\<close>

definition stub18 :: "string \<Rightarrow> result" where
  "stub18 f = (if f = ''socket'' then (3, \<lambda>_. 0)
     else (0, \<lambda>_. 0))"

definition globals_stub18 :: "string \<Rightarrow> int" where
  "globals_stub18 = (\<lambda>_. 0)"

definition thread_0_stub18 :: sys_prog where
  "thread_0_stub18 =
     Read ''u_sock'' (\<lambda>s.
     Call ''bind'' [Fd s, Ref (Zeros 110), Num 13] (\<lambda>_.
     Return 0))"

definition thread_1_stub18 :: sys_prog where
  "thread_1_stub18 =
     Read ''u_sock'' (\<lambda>s.
     Call ''listen'' [Fd s, Num 0] (\<lambda>_.
     Read ''u_sock'' (\<lambda>t.
     Call ''ioctl'' [Fd t, Num 0x89e0, Num 0] (\<lambda>_.
     Return 0))))"

definition main_stub18 :: sys_prog where
  "main_stub18 =
     Call ''socket'' [Num 1, Num 5, Num 0] (\<lambda>(r, _).
     Write ''u_sock'' r (
     race_two thread_0_stub18 thread_1_stub18 (Return 0)))"

subsection \<open>\<open>CBMC/Layer2/19-tcve-2016-8655.c\<close>\<close>

definition stub19 :: "string \<Rightarrow> result" where
  "stub19 f = ((0, \<lambda>_. 0))"

definition globals_stub19 :: "string \<Rightarrow> int" where
  "globals_stub19 = (\<lambda>_. 0)(''fd'' := 3)"

definition thread_0_stub19 :: sys_prog where
  "thread_0_stub19 =
     Read ''fd'' (\<lambda>s.
     Call ''setsockopt'' [Fd s, Num 263, Num 10, Ref (Num 1), Num 4] (\<lambda>_.
     Read ''fd'' (\<lambda>t.
     Call ''setsockopt'' [Fd t, Num 263, Num 5, Ref (Zeros 40), Num 40] (\<lambda>_.
     Return 0))))"

definition thread_1_stub19 :: sys_prog where
  "thread_1_stub19 =
     Read ''fd'' (\<lambda>s.
     Call ''setsockopt'' [Fd s, Num 263, Num 10, Ref (Num 0), Num 4] (\<lambda>_.
     Return 0))"

definition main_stub19 :: sys_prog where
  "main_stub19 =
     race_two thread_0_stub19 thread_1_stub19 (Return 0)"

subsection \<open>\<open>CBMC/Layer2/20-tcve-2017-2636.c\<close>\<close>

definition stub20 :: "string \<Rightarrow> result" where
  "stub20 f = (if f = ''open'' then (3, \<lambda>_. 0)
     else (0, \<lambda>_. 0))"

definition globals_stub20 :: "string \<Rightarrow> int" where
  "globals_stub20 = (\<lambda>_. 0)"

definition thread_0_stub20 :: sys_prog where
  "thread_0_stub20 =
     Read ''fd'' (\<lambda>s.
     Call ''ioctl'' [Fd s, Num 0x5423, Ref (Num 13)] (\<lambda>_.
     Read ''fd'' (\<lambda>t.
     Call ''ioctl'' [Fd t, Num 0x540A, Num 0] (\<lambda>_.
     Read ''fd'' (\<lambda>u.
     Call ''write'' [Fd u, Text ''01010101'', Num 4] (\<lambda>_.
     Read ''fd'' (\<lambda>v.
     Call ''ioctl'' [Fd v, Num 0x540A, Num 1] (\<lambda>_.
     Return 0))))))))"

definition thread_1_stub20 :: sys_prog where
  "thread_1_stub20 =
     Read ''fd'' (\<lambda>s.
     Call ''ioctl'' [Fd s, Num 0x540B, Num 2] (\<lambda>_.
     Read ''fd'' (\<lambda>t.
     Call ''close'' [Fd t] (\<lambda>_.
     Return 0))))"

definition main_stub20 :: sys_prog where
  "main_stub20 =
     Call ''open'' [Text ''/dev/ptmx'', Num 2] (\<lambda>(r, _).
     Write ''fd'' r (
     race_two thread_0_stub20 thread_1_stub20 (Return 0)))"

subsection \<open>\<open>CBMC/Layer2/21-tcve-2018-12232.c\<close>\<close>

definition stub21 :: "string \<Rightarrow> result" where
  "stub21 f = (if f = ''socketpair'' then (0, \<lambda>i. if i = 0 then 3 else 4)
     else if f = ''getuid'' then (1000, \<lambda>_. 0)
     else if f = ''getegid'' then (1000, \<lambda>_. 0)
     else (0, \<lambda>_. 0))"

definition globals_stub21 :: "string \<Rightarrow> int" where
  "globals_stub21 = (\<lambda>_. 0)"

definition thread_0_stub21 :: sys_prog where
  "thread_0_stub21 =
     Read ''sv[0]'' (\<lambda>s.
     Read ''uid'' (\<lambda>u.
     Read ''gid'' (\<lambda>g.
     Call ''fchownat'' [Fd s, Text [], Num u, Num g, Num 0x1000] (\<lambda>_.
     Return 0))))"

definition thread_1_stub21 :: sys_prog where
  "thread_1_stub21 =
     Read ''sv[1]'' (\<lambda>s.
     Read ''sv[0]'' (\<lambda>t.
     Call ''dup3'' [Fd s, Fd t, Num 524288] (\<lambda>_.
     Return 0)))"

definition main_stub21 :: sys_prog where
  "main_stub21 =
     Call ''socketpair'' [Num 1, Num 1, Num 0, Const ''sv''] (\<lambda>(_, out).
     Write ''sv[0]'' (out 0) (
     Write ''sv[1]'' (out 1) (
     Call ''getuid'' [] (\<lambda>(r, _).
     Write ''uid'' r (
     Call ''getegid'' [] (\<lambda>(r, _).
     Write ''gid'' r (
     race_two thread_0_stub21 thread_1_stub21 (Read ''sv[0]'' (\<lambda>s.
     Call ''close'' [Fd s] (\<lambda>_.
     Read ''sv[1]'' (\<lambda>t.
     Call ''close'' [Fd t] (\<lambda>_.
     Return 0))))))))))))"

subsection \<open>\<open>CBMC/Layer2/22-tcve-2019-6974.c\<close>\<close>

definition stub22 :: "string \<Rightarrow> result" where
  "stub22 f = (if f = ''dup'' then (5, \<lambda>_. 0)
     else if f = ''open'' then (3, \<lambda>_. 0)
     else (0, \<lambda>_. 0))"

definition globals_stub22 :: "string \<Rightarrow> int" where
  "globals_stub22 = (\<lambda>_. 0)"

definition thread_0_stub22 :: sys_prog where
  "thread_0_stub22 =
     Call ''dup'' [Fd 0] (\<lambda>(r, _).
     Write ''target_fd'' r (
     Read ''target_fd'' (\<lambda>s.
     Call ''close'' [Fd s] (\<lambda>_.
     Read ''vm_fd'' (\<lambda>v.
     Call ''ioctl'' [Fd v, Num 0x4008aea0, Ref (Array [Num 4, Num 0, Num 0, Num 0, Num 0, Num 0, Num 0, Num 0,
         Num 0, Num 0])] (\<lambda>_.
     Return 0))))))"

definition thread_1_stub22 :: sys_prog where
  "thread_1_stub22 =
     Read ''target_fd'' (\<lambda>s.
     Call ''close'' [Fd s] (\<lambda>_.
     Return 0))"

definition main_stub22 :: sys_prog where
  "main_stub22 =
     Call ''open'' [Text ''/dev/kvm'', Num 2] (\<lambda>(r, _).
     Write ''kvm_fd'' r (
     Read ''kvm_fd'' (\<lambda>k.
     Call ''ioctl'' [Fd k, Num 0xae01, Num 0] (\<lambda>(r, _).
     Write ''vm_fd'' r (
     race_two thread_0_stub22 thread_1_stub22 (Return 0))))))"

subsection \<open>\<open>CBMC/Layer2/23-watchqueue.c\<close>\<close>

definition stub23 :: "string \<Rightarrow> result" where
  "stub23 f = (if f = ''pipe2'' then (0, \<lambda>i. if i = 0 then 3 else 4)
     else (0, \<lambda>_. 0))"

definition globals_stub23 :: "string \<Rightarrow> int" where
  "globals_stub23 = (\<lambda>_. 0)"

definition thread_setup_stub23 :: sys_prog where
  "thread_setup_stub23 =
     Read ''pipe_fds[0]'' (\<lambda>p.
     Call ''ioctl'' [Fd p, Num 0x40045760, Num 16] (\<lambda>_.
     Return 0))"

definition thread_watch_stub23 :: sys_prog where
  "thread_watch_stub23 =
     Read ''key_id'' (\<lambda>k.
     Read ''pipe_fds[0]'' (\<lambda>p.
     Call ''syscall'' [Num 250, Num 17, Num k, Fd p, Num 0] (\<lambda>_.
     Return 0)))"

definition main_stub23 :: sys_prog where
  "main_stub23 =
     Call ''syscall'' [Num 248, Text ''user'', Text ''syz'', Text ''data'', Num 4, Num (- 2)] (\<lambda>(r, _).
     Write ''key_id'' r (
     Call ''pipe2'' [Const ''pipe_fds'', Num 0] (\<lambda>(_, out).
     Write ''pipe_fds[0]'' (out 0) (
     Write ''pipe_fds[1]'' (out 1) (
     race_two thread_setup_stub23 thread_watch_stub23 (Return 0))))))"

subsection \<open>\<open>CBMC/Layer2/24-xsk.c\<close>\<close>

definition stub24 :: "string \<Rightarrow> result" where
  "stub24 f = (if f = ''socket'' then (3, \<lambda>_. 0)
     else (0, \<lambda>_. 0))"

definition globals_stub24 :: "string \<Rightarrow> int" where
  "globals_stub24 = (\<lambda>_. 0)"

definition thread_mmap_stub24 :: sys_prog where
  "thread_mmap_stub24 =
     Read ''sock_fd'' (\<lambda>s.
     Call ''setsockopt'' [Fd s, Num 283, Num 5, Ref (Num 0x20000), Num 4] (\<lambda>_.
     Read ''sock_fd'' (\<lambda>t.
     Call ''mmap'' [Null, Num 0x1000, Num 3, Num 1, Fd t, Num 0x100000000] (\<lambda>_.
     Return 0))))"

definition thread_close_stub24 :: sys_prog where
  "thread_close_stub24 =
     Read ''sock_fd'' (\<lambda>s.
     Call ''close'' [Fd s] (\<lambda>_.
     Return 0))"

definition main_stub24 :: sys_prog where
  "main_stub24 =
     Call ''socket'' [Num 44, Num 3, Num 0] (\<lambda>(r, _).
     Write ''sock_fd'' r (
     race_two thread_mmap_stub24 thread_close_stub24 (Return 0)))"

subsection \<open>\<open>CBMC/Layer3/L3-1.c\<close>\<close>

definition stubL1 :: "string \<Rightarrow> result" where
  "stubL1 f = (if f = ''socket'' then (3, \<lambda>_. 0)
     else (0, \<lambda>_. 0))"

definition globals_stubL1 :: "string \<Rightarrow> int" where
  "globals_stubL1 = (\<lambda>_. 0)"

definition thread_ulp_stubL1 :: sys_prog where
  "thread_ulp_stubL1 =
     Read ''sock_fd'' (\<lambda>s.
     Call ''setsockopt'' [Fd s, Num 6, Num 31, Text ''smc'', Num 4] (\<lambda>_.
     Return 0))"

definition thread_send_stubL1 :: sys_prog where
  "thread_send_stubL1 =
     Read ''sock_fd'' (\<lambda>s.
     Call ''sendmmsg'' [Fd s, Ref (Zeros 40), Num 1, Num 0] (\<lambda>_.
     Return 0))"

definition main_stubL1 :: sys_prog where
  "main_stubL1 =
     Call ''socket'' [Num 2, Num 1, Num 0] (\<lambda>(r, _).
     Write ''sock_fd'' r (
     race_two thread_ulp_stubL1 thread_send_stubL1 (Return 0)))"

subsection \<open>\<open>CBMC/Layer3/L3-2.c\<close>\<close>

definition stubL2 :: "string \<Rightarrow> result" where
  "stubL2 f = ((0, \<lambda>_. 0))"

definition globals_stubL2 :: "string \<Rightarrow> int" where
  "globals_stubL2 = (\<lambda>_. 0)(''epoll_fd'' := 4)"

definition thread_tls_config_stubL2 :: sys_prog where
  "thread_tls_config_stubL2 =
     Read ''sock_fd'' (\<lambda>s.
     Call ''setsockopt'' [Fd s, Num 6, Num 31, Text ''tls'', Num 4] (\<lambda>_.
     Read ''sock_fd'' (\<lambda>t.
     Call ''setsockopt'' [Fd t, Num 282, Num 1, Ref (Zeros 60), Num 56] (\<lambda>_.
     Return 0))))"

definition thread_io_stubL2 :: sys_prog where
  "thread_io_stubL2 =
     Read ''sock_fd'' (\<lambda>s.
     Call ''write'' [Fd s, Text ''test_data'', Num 9] (\<lambda>_.
     Read ''epoll_fd'' (\<lambda>e.
     Read ''sock_fd'' (\<lambda>t.
     Call ''epoll_ctl'' [Fd e, Num 1, Fd t, Ref (Zeros 8)] (\<lambda>_.
     Return 0)))))"

definition main_stubL2 :: sys_prog where
  "main_stubL2 =
     Write ''sock_fd'' 3 (
     race_two thread_tls_config_stubL2 thread_io_stubL2 (Return 0))"

section \<open>Their shape\<close>

lemma main_stub1_plain: "racing plain main_stub1"
  by (simp add: thread_bind_stub1_def thread_send_stub1_def main_stub1_def racing_race_two split: prod.split)

lemma main_stub1_harmless: "racing harmless main_stub1"
  by (simp add: thread_bind_stub1_def thread_send_stub1_def main_stub1_def racing_race_two closed_by_def split: prod.split)

lemma main_stub2_plain: "racing plain main_stub2"
  by (simp add: thread_config_stub2_def thread_transmit_stub2_def main_stub2_def racing_race_two split: prod.split)

lemma main_stub2_harmless: "racing harmless main_stub2"
  by (simp add: thread_config_stub2_def thread_transmit_stub2_def main_stub2_def racing_race_two closed_by_def split: prod.split)

lemma main_stub3_plain: "racing plain main_stub3"
  by (simp add: thread_vlan_stub3_def thread_hw_write_stub3_def main_stub3_def racing_race_two split: prod.split)

lemma main_stub3_harmless: "racing harmless main_stub3"
  by (simp add: thread_vlan_stub3_def thread_hw_write_stub3_def main_stub3_def racing_race_two closed_by_def split: prod.split)

lemma main_stub4_plain: "racing plain main_stub4"
  by (simp add: thread_setup_ring_stub4_def thread_poll_stub4_def main_stub4_def racing_race_two split: prod.split)

lemma main_stub4_harmless: "racing harmless main_stub4"
  by (simp add: thread_setup_ring_stub4_def thread_poll_stub4_def main_stub4_def racing_race_two closed_by_def split: prod.split)

lemma main_stub5_plain: "racing plain main_stub5"
  by (simp add: thread_race_close_stub5_def thread_race_fcntl_stub5_def main_stub5_def racing_race_two split: prod.split)

lemma main_stub6_plain: "racing plain main_stub6"
  by (simp add: thread_bpf_stub6_def thread_sock_stub6_def main_stub6_def racing_race_two split: prod.split)

lemma main_stub6_harmless: "racing harmless main_stub6"
  by (simp add: thread_bpf_stub6_def thread_sock_stub6_def main_stub6_def racing_race_two closed_by_def split: prod.split)

lemma main_stub7_plain: "racing plain main_stub7"
  by (simp add: thread_bpf_stub7_def thread_tx_ring_stub7_def main_stub7_def racing_race_two split: prod.split)

lemma main_stub7_harmless: "racing harmless main_stub7"
  by (simp add: thread_bpf_stub7_def thread_tx_ring_stub7_def main_stub7_def racing_race_two closed_by_def split: prod.split)

lemma main_stub8_plain: "racing plain main_stub8"
  by (simp add: thread_ioctl_stub8_def thread_read_stub8_def main_stub8_def racing_race_two split: prod.split)

lemma main_stub8_harmless: "racing harmless main_stub8"
  by (simp add: thread_ioctl_stub8_def thread_read_stub8_def main_stub8_def racing_race_two closed_by_def split: prod.split)

lemma main_stub9_plain: "racing plain main_stub9"
  by (simp add: thread_repair_connect_stub9_def thread_tls_md5_stub9_def main_stub9_def racing_race_two split: prod.split)

lemma main_stub9_harmless: "racing harmless main_stub9"
  by (simp add: thread_repair_connect_stub9_def thread_tls_md5_stub9_def main_stub9_def racing_race_two closed_by_def split: prod.split)

lemma main_stub10_plain: "racing plain main_stub10"
  by (simp add: thread_opt_stub10_def thread_send_stub10_def main_stub10_def racing_race_two split: prod.split)

lemma main_stub10_harmless: "racing harmless main_stub10"
  by (simp add: thread_opt_stub10_def thread_send_stub10_def main_stub10_def racing_race_two closed_by_def split: prod.split)

lemma main_stub11_plain: "racing plain main_stub11"
  by (simp add: thread_ldisc_stub11_def thread_term_stub11_def main_stub11_def racing_race_two split: prod.split)

lemma main_stub11_harmless: "racing harmless main_stub11"
  by (simp add: thread_ldisc_stub11_def thread_term_stub11_def main_stub11_def racing_race_two closed_by_def split: prod.split)

lemma main_stub12_plain: "racing plain main_stub12"
  by (simp add: thread_mmap_stub12_def thread_close_stub12_def main_stub12_def racing_race_two split: prod.split)

lemma main_stub13_plain: "racing plain main_stub13"
  by (simp add: thread_bpf_stub13_def thread_poll_stub13_def main_stub13_def racing_race_two split: prod.split)

lemma main_stub13_harmless: "racing harmless main_stub13"
  by (simp add: thread_bpf_stub13_def thread_poll_stub13_def main_stub13_def racing_race_two closed_by_def split: prod.split)

lemma main_stub14_plain: "racing plain main_stub14"
  by (simp add: thread_vmci_stub14_def thread_epoll_stub14_def main_stub14_def racing_race_two split: prod.split)

lemma main_stub14_harmless: "racing harmless main_stub14"
  by (simp add: thread_vmci_stub14_def thread_epoll_stub14_def main_stub14_def racing_race_two closed_by_def split: prod.split)

lemma main_stub15_plain: "racing plain main_stub15"
  by (simp add: thread_io_stub15_def thread_tls_stub15_def main_stub15_def racing_race_two split: prod.split)

lemma main_stub15_harmless: "racing harmless main_stub15"
  by (simp add: thread_io_stub15_def thread_tls_stub15_def main_stub15_def racing_race_two closed_by_def split: prod.split)

lemma nbd_sends_stub16_harmless: "harmless (nbd_sends_stub16 n)" "plain (nbd_sends_stub16 n)"
  by (induction n) (simp_all add: closed_by_def)

lemma main_stub16_plain: "racing plain main_stub16"
  by (simp add: thread_netlink_stub16_def thread_ioctl_stub16_def main_stub16_def racing_race_two nbd_sends_stub16_harmless split: prod.split)

lemma main_stub16_harmless: "racing harmless main_stub16"
  by (simp add: thread_netlink_stub16_def thread_ioctl_stub16_def main_stub16_def racing_race_two closed_by_def nbd_sends_stub16_harmless split: prod.split)

lemma main_stub17_plain: "racing plain main_stub17"
  by (simp add: thread_setup_stub17_def thread_weird_ioctl_stub17_def main_stub17_def racing_race_two split: prod.split)

lemma main_stub17_harmless: "racing harmless main_stub17"
  by (simp add: thread_setup_stub17_def thread_weird_ioctl_stub17_def main_stub17_def racing_race_two closed_by_def split: prod.split)

lemma main_stub18_plain: "racing plain main_stub18"
  by (simp add: thread_0_stub18_def thread_1_stub18_def main_stub18_def racing_race_two split: prod.split)

lemma main_stub18_harmless: "racing harmless main_stub18"
  by (simp add: thread_0_stub18_def thread_1_stub18_def main_stub18_def racing_race_two closed_by_def split: prod.split)

lemma main_stub19_plain: "racing plain main_stub19"
  by (simp add: thread_0_stub19_def thread_1_stub19_def main_stub19_def racing_race_two split: prod.split)

lemma main_stub19_harmless: "racing harmless main_stub19"
  by (simp add: thread_0_stub19_def thread_1_stub19_def main_stub19_def racing_race_two closed_by_def split: prod.split)

lemma main_stub20_plain: "racing plain main_stub20"
  by (simp add: thread_0_stub20_def thread_1_stub20_def main_stub20_def racing_race_two split: prod.split)

lemma main_stub21_plain: "racing plain main_stub21"
  by (simp add: thread_0_stub21_def thread_1_stub21_def main_stub21_def racing_race_two split: prod.split)

lemma main_stub22_plain: "racing plain main_stub22"
  by (simp add: thread_0_stub22_def thread_1_stub22_def main_stub22_def racing_race_two split: prod.split)

lemma main_stub23_plain: "racing plain main_stub23"
  by (simp add: thread_setup_stub23_def thread_watch_stub23_def main_stub23_def racing_race_two split: prod.split)

lemma main_stub23_harmless: "racing harmless main_stub23"
  by (simp add: thread_setup_stub23_def thread_watch_stub23_def main_stub23_def racing_race_two closed_by_def split: prod.split)

lemma main_stub24_plain: "racing plain main_stub24"
  by (simp add: thread_mmap_stub24_def thread_close_stub24_def main_stub24_def racing_race_two split: prod.split)

lemma main_stubL1_plain: "racing plain main_stubL1"
  by (simp add: thread_ulp_stubL1_def thread_send_stubL1_def main_stubL1_def racing_race_two split: prod.split)

lemma main_stubL1_harmless: "racing harmless main_stubL1"
  by (simp add: thread_ulp_stubL1_def thread_send_stubL1_def main_stubL1_def racing_race_two closed_by_def split: prod.split)

lemma main_stubL2_plain: "racing plain main_stubL2"
  by (simp add: thread_tls_config_stubL2_def thread_io_stubL2_def main_stubL2_def racing_race_two split: prod.split)

lemma main_stubL2_harmless: "racing harmless main_stubL2"
  by (simp add: thread_tls_config_stubL2_def thread_io_stubL2_def main_stubL2_def racing_race_two closed_by_def split: prod.split)

section \<open>Races\<close>

lemma main_stub5_races: "can_race (stub_kernel stub5) globals_stub5 main_stub5"
  by (rule stub_race [of _ "[0, 0, 1, 2]"]) (simp add: stub5_def globals_stub5_def thread_race_close_stub5_def thread_race_fcntl_stub5_def main_stub5_def races_after_simps)

lemma main_stub12_races: "can_race (stub_kernel stub12) globals_stub12 main_stub12"
  by (rule stub_race [of _ "[0, 0, 0, 0, 1, 2]"]) (simp add: stub12_def globals_stub12_def thread_mmap_stub12_def thread_close_stub12_def main_stub12_def races_after_simps)

lemma main_stub24_races: "can_race (stub_kernel stub24) globals_stub24 main_stub24"
  by (rule stub_race [of _ "[0, 0, 0, 0, 1, 2]"]) (simp add: stub24_def globals_stub24_def thread_mmap_stub24_def thread_close_stub24_def main_stub24_def races_after_simps)

lemma main_stub20_races: "can_race (stub_kernel stub20) globals_stub20 main_stub20"
  by (rule stub_race [of _ "[0, 0, 0, 0, 1, 2, 2, 2]"]) (simp add: stub20_def globals_stub20_def thread_0_stub20_def thread_1_stub20_def main_stub20_def races_after_simps)

lemma main_stub21_races: "can_race (stub_kernel stub21) globals_stub21 main_stub21"
  by (rule stub_race [of _ "[0, 0, 0, 0, 0, 0, 0, 0, 0, 1, 1, 1, 2, 2]"]) (simp add: stub21_def globals_stub21_def thread_0_stub21_def thread_1_stub21_def main_stub21_def races_after_simps)

lemma main_stub22_races: "can_race (stub_kernel stub22) globals_stub22 main_stub22"
  by (rule stub_race [of _ "[0, 0, 0, 0, 0, 0, 0, 1, 1, 1, 2]"]) (simp add: stub22_def globals_stub22_def thread_0_stub22_def thread_1_stub22_def main_stub22_def races_after_simps)

section \<open>The suite\<close>

definition quiet_stubs :: "((string \<Rightarrow> result) \<times> (string \<Rightarrow> int) \<times> sys_prog) list" where
  "quiet_stubs = [
    (stub1, globals_stub1, main_stub1), (stub2, globals_stub2, main_stub2),
    (stub3, globals_stub3, main_stub3), (stub4, globals_stub4, main_stub4),
    (stub6, globals_stub6, main_stub6), (stub7, globals_stub7, main_stub7),
    (stub8, globals_stub8, main_stub8), (stub9, globals_stub9, main_stub9),
    (stub10, globals_stub10, main_stub10), (stub11, globals_stub11, main_stub11),
    (stub13, globals_stub13, main_stub13), (stub14, globals_stub14, main_stub14),
    (stub15, globals_stub15, main_stub15), (stub16, globals_stub16, main_stub16),
    (stub17, globals_stub17, main_stub17), (stub18, globals_stub18, main_stub18),
    (stub19, globals_stub19, main_stub19), (stub23, globals_stub23, main_stub23),
    (stubL1, globals_stubL1, main_stubL1), (stubL2, globals_stubL2, main_stubL2)]"

definition closing_stubs :: "((string \<Rightarrow> result) \<times> (string \<Rightarrow> int) \<times> sys_prog) list" where
  "closing_stubs = [
    (stub5, globals_stub5, main_stub5), (stub12, globals_stub12, main_stub12),
    (stub20, globals_stub20, main_stub20), (stub21, globals_stub21, main_stub21),
    (stub22, globals_stub22, main_stub22), (stub24, globals_stub24, main_stub24)]"

lemmas stubs_plain =
    main_stub1_plain main_stub2_plain main_stub3_plain main_stub4_plain main_stub5_plain
    main_stub6_plain main_stub7_plain main_stub8_plain main_stub9_plain main_stub10_plain
    main_stub11_plain main_stub12_plain main_stub13_plain main_stub14_plain main_stub15_plain
    main_stub16_plain main_stub17_plain main_stub18_plain main_stub19_plain main_stub20_plain
    main_stub21_plain main_stub22_plain main_stub23_plain main_stub24_plain main_stubL1_plain
    main_stubL2_plain

lemmas stubs_harmless =
    main_stub1_harmless main_stub2_harmless main_stub3_harmless main_stub4_harmless
    main_stub6_harmless main_stub7_harmless main_stub8_harmless main_stub9_harmless
    main_stub10_harmless main_stub11_harmless main_stub13_harmless main_stub14_harmless
    main_stub15_harmless main_stub16_harmless main_stub17_harmless main_stub18_harmless
    main_stub19_harmless main_stub23_harmless main_stubL1_harmless main_stubL2_harmless

lemmas stubs_race =
    main_stub5_races main_stub12_races main_stub20_races main_stub21_races main_stub22_races
    main_stub24_races

text \<open>
  C39. The 26 CBMC versions always come to their end, and six of them race on a descriptor: those whose
  threads still call \<open>close\<close> or \<open>dup3\<close>.
\<close>

theorem stub_samples:
  "list_all (\<lambda>(k, g, p). always_ends (stub_kernel k) g p) (quiet_stubs @ closing_stubs) \<and>
   list_all (\<lambda>(k, g, p). \<not> can_race (stub_kernel k) g p) quiet_stubs \<and>
   list_all (\<lambda>(k, g, p). can_race (stub_kernel k) g p) closing_stubs"
  by (simp add: quiet_stubs_def closing_stubs_def racing_ends harmless_no_race stubs_plain stubs_harmless stubs_race)

end
