(* ===== verification/Tool_Reports.thy ===== *)
theory Tool_Reports
  imports Genmc_Publication Genmc_Store_Buffering Genmc_Spin Genmc_Locks Genmc_Logic Genmc_Silent
    Cbmc_Publication Cbmc_Misc Cbmc_Pointers Cbmc_Locks
begin

text \<open>
  The reports of the model checkers that the repository keeps, row by row, and how they compare with
  the verdicts proved here. A row of a report is the name of the file, the sample and the two
  results the tool gave.
\<close>

section \<open>The reports\<close>

text \<open>
  \<open>Safe\<close> says that no assertion failed and \<open>Bug_Detected\<close> that one did; \<open>Data_Race\<close> is the other
  failure GENMC reports; \<open>Timeout\<close> and \<open>Exception\<close> are no results.
\<close>

datatype verdict = Safe | Bug_Detected | Data_Race | Timeout | Exception

text \<open>
  What the tools ask of a sample, whatever the type of its objects: the models on which it
  satisfies its assertions and those on which it can race.
\<close>

type_synonym sample = "(memory_model \<Rightarrow> bool) \<times> (memory_model \<Rightarrow> bool)"

definition sample :: "('l \<Rightarrow> 'v) \<Rightarrow> ('l, 'v) prog \<Rightarrow> sample" where
  "sample m p = (\<lambda>M. safe M m p, \<lambda>M. race_reachable M m p)"

type_synonym report = "(string \<times> sample \<times> verdict \<times> verdict) list"

text \<open>A result is confirmed on a model; what is no result is not confirmed.\<close>

fun confirms :: "memory_model \<Rightarrow> sample \<Rightarrow> verdict \<Rightarrow> bool" where
  "confirms M p Safe \<longleftrightarrow> fst p M"
| "confirms M p Bug_Detected \<longleftrightarrow> \<not> fst p M"
| "confirms M p Data_Race \<longleftrightarrow> snd p M"
| "confirms M p Timeout \<longleftrightarrow> False"
| "confirms M p Exception \<longleftrightarrow> False"

text \<open>The files whose first, or second, result is not confirmed on a model.\<close>

definition unconfirmed_first :: "memory_model \<Rightarrow> report \<Rightarrow> string list" where
  "unconfirmed_first M rows = map fst (filter (\<lambda>(file, p, a, b). \<not> confirms M p a) rows)"

definition unconfirmed_second :: "memory_model \<Rightarrow> report \<Rightarrow> string list" where
  "unconfirmed_second M rows = map fst (filter (\<lambda>(file, p, a, b). \<not> confirms M p b) rows)"

text \<open>\<open>nidhugg_summary_report.csv\<close>: the results under SC and under PSO.\<close>

definition nidhugg_report :: "report" where
  "nidhugg_report = [
     (''0-datarace_genmc.ll'', sample globals_datarace main_datarace, Safe, Bug_Detected),
     (''13-CVE-2020-11739-Xen_genmc.ll'', sample globals_xen11739 main_xen11739, Timeout, Timeout),
     (''15-CVE-2020-25603-Xen_genmc.ll'', sample globals_xen25603 main_xen25603, Safe, Bug_Detected),
     (''17-ceph_genmc.ll'', sample globals_ceph main_ceph, Safe, Bug_Detected),
     (''18-MariaDBEasy_genmc.ll'', sample globals_mariadbeasy main_mariadbeasy, Bug_Detected, Bug_Detected),
     (''19-DragonWell8Easy_genmc.ll'', sample globals_dragonwell main_dragonwell, Safe, Bug_Detected),
     (''1-Linuxeasy_genmc.ll'', sample globals_linuxeasy main_linuxeasy, Timeout, Timeout),
     (''20-JDK_genmc.ll'', sample globals_jdk main_jdk, Safe, Bug_Detected),
     (''21-libfabric_genmc.ll'', sample globals_libfabric main_libfabric, Safe, Bug_Detected),
     (''22-openmpi_genmc.ll'', sample globals_openmpi main_openmpi, Safe, Bug_Detected),
     (''23-includeos_genmc.ll'', sample globals_includeos main_includeos, Safe, Bug_Detected),
     (''24-mysql_genmc.ll'', sample globals_mysql24 main_mysql24, Timeout, Timeout),
     (''25-JDK-8179954_genmc.ll'', sample globals_jdk8179954 main_jdk8179954, Safe, Bug_Detected),
     (''26-ompi_genmc.ll'', sample globals_ompi26 main_ompi26, Safe, Bug_Detected),
     (''2-DPDK_genmc.ll'', sample globals_dpdk2 main_dpdk2, Safe, Safe),
     (''3-sel4_genmc.ll'', sample globals_sel4 main_sel4, Safe, Safe),
     (''4-MySQL_genmc.ll'', sample globals_mysql4 main_mysql4, Safe, Bug_Detected),
     (''5-StackOverFlowEasy_genmc.ll'', sample globals_point main_point, Safe, Safe),
     (''6-ompi_genmc.ll'', sample globals_ompi6 main_ompi6, Safe, Bug_Detected),
     (''7-OpenBLAS_genmc.ll'', sample globals_blas main_blas, Safe, Safe),
     (''barrier_genmc.ll'', sample globals_barrier main_barrier, Safe, Bug_Detected),
     (''crossbeam_genmc.ll'', sample globals_crossbeam main_crossbeam, Timeout, Timeout),
     (''MariaDB-MDEV-6615_genmc.ll'', sample globals_mdev6615 main_mdev6615, Timeout, Bug_Detected),
     (''mcs_genmc.ll'', sample globals_mcs main_mcs, Bug_Detected, Bug_Detected),
     (''mysql-99556_genmc.ll'', sample globals_mysql99556 main_mysql99556, Timeout, Timeout),
     (''mysql_rwlock_deadlock_genmc.ll'', sample globals_rwlock main_rwlock, Safe, Bug_Detected),
     (''mysql-ut-realx_genmc.ll'', sample globals_utrealx main_utrealx, Timeout, Timeout),
     (''mysql_volatile_bug_genmc.ll'', sample globals_volatile main_volatile, Safe, Bug_Detected),
     (''pso_test_genmc.ll'', sample globals_pso main_pso, Safe, Bug_Detected),
     (''sofa_pbrpc_hang_genmc.ll'', sample globals_sofa main_sofa, Safe, Bug_Detected),
     (''tso_test_genmc.ll'', sample globals_tso main_tso, Safe, Bug_Detected),
     (''unsafe_publish_genmc.ll'', sample globals_publish main_publish, Safe, Safe),
     (''10-smc2_genmc.ll'', sample globals_smc2 main_smc2, Safe, Bug_Detected),
     (''11-gsm_genmc.ll'', sample globals_gsm main_gsm, Bug_Detected, Bug_Detected),
     (''1-rds_genmc.ll'', sample globals_rds main_rds, Safe, Bug_Detected),
     (''1-vlan_genmc.ll'', sample globals_vlan main_vlan, Safe, Bug_Detected),
     (''1-vlan-s_genmc.ll'', sample globals_vlan_s main_vlan_s, Bug_Detected, Bug_Detected),
     (''2-watchqueue_genmc.ll'', sample globals_watchqueue2 main_watchqueue2, Safe, Bug_Detected),
     (''3-vmci_genmc.ll'', sample globals_vmci main_vmci, Bug_Detected, Bug_Detected),
     (''3-xsk_genmc.ll'', sample globals_xsk3 main_xsk3, Bug_Detected, Bug_Detected),
     (''4-xdp_genmc.ll'', sample globals_xdp main_xdp, Bug_Detected, Bug_Detected),
     (''4-xsk2_genmc.ll'', sample globals_xsk2 main_xsk2, Bug_Detected, Bug_Detected),
     (''5-fs_genmc.ll'', sample globals_fs main_fs, Bug_Detected, Bug_Detected),
     (''5-tls_genmc.ll'', sample globals_tls5 main_tls5, Bug_Detected, Bug_Detected),
     (''6-bpf_genmc.ll'', sample globals_bpf main_bpf, Bug_Detected, Bug_Detected),
     (''7-nbd_genmc.ll'', sample globals_nbd main_nbd, Bug_Detected, Bug_Detected),
     (''7-xdp2_genmc.ll'', sample globals_xdp2 main_xdp2, Bug_Detected, Bug_Detected),
     (''9-tls2_genmc.ll'', sample globals_tls2 main_tls2, Bug_Detected, Bug_Detected),
     (''9-unix_genmc.ll'', sample globals_unix main_unix, Bug_Detected, Bug_Detected),
     (''9-unix-s_genmc.ll'', sample globals_unix_s main_unix_s, Bug_Detected, Bug_Detected),
     (''tcve-2016-8655_genmc.ll'', sample globals_tcve2016 main_tcve2016, Bug_Detected, Bug_Detected),
     (''tcve-2017-2636_genmc.ll'', sample globals_tcve2017 main_tcve2017, Bug_Detected, Bug_Detected),
     (''tcve-2018-12232_genmc.ll'', sample globals_tcve2018 main_tcve2018, Bug_Detected, Bug_Detected),
     (''tcve-2019-6974_genmc.ll'', sample globals_tcve2019 main_tcve2019, Bug_Detected, Bug_Detected),
     (''watchqueue_genmc.ll'', sample globals_watchqueue main_watchqueue, Bug_Detected, Bug_Detected),
     (''xsk_genmc.ll'', sample globals_xsk main_xsk, Bug_Detected, Bug_Detected),
     (''8-smc_genmc.ll'', sample globals_smc main_smc, Safe, Bug_Detected),
     (''8-smc-high_genmc.ll'', sample globals_smc_high main_smc_high, Safe, Safe),
     (''8-tls_genmc.ll'', sample globals_tls main_tls, Safe, Bug_Detected),
     (''8-tls-high_genmc.ll'', sample globals_tls_high main_tls_high, Safe, Safe)]"

text \<open>
  \<open>genmc_evaluation_report.csv\<close> and its two sequels: the results under the relaxed model of the
  tool, which is weaker than PSO, and under SC.
\<close>

definition genmc_report_layer1 :: "report" where
  "genmc_report_layer1 = [
     (''0-datarace_genmc.c'', sample globals_datarace main_datarace, Bug_Detected, Safe),
     (''13-CVE-2020-11739-Xen_genmc.c'', sample globals_xen11739 main_xen11739, Safe, Safe),
     (''15-CVE-2020-25603-Xen_genmc.c'', sample globals_xen25603 main_xen25603, Bug_Detected, Safe),
     (''17-ceph_genmc.c'', sample globals_ceph main_ceph, Bug_Detected, Safe),
     (''18-MariaDBEasy_genmc.c'', sample globals_mariadbeasy main_mariadbeasy, Bug_Detected, Bug_Detected),
     (''19-DragonWell8Easy_genmc.c'', sample globals_dragonwell main_dragonwell, Bug_Detected, Safe),
     (''1-Linuxeasy_genmc.c'', sample globals_linuxeasy main_linuxeasy, Safe, Safe),
     (''20-JDK_genmc.c'', sample globals_jdk main_jdk, Bug_Detected, Safe),
     (''21-libfabric_genmc.c'', sample globals_libfabric main_libfabric, Bug_Detected, Safe),
     (''22-openmpi_genmc.c'', sample globals_openmpi main_openmpi, Bug_Detected, Safe),
     (''23-includeos_genmc.c'', sample globals_includeos main_includeos, Bug_Detected, Safe),
     (''24-mysql_genmc.c'', sample globals_mysql24 main_mysql24, Bug_Detected, Safe),
     (''25-JDK-8179954_genmc.c'', sample globals_jdk8179954 main_jdk8179954, Bug_Detected, Safe),
     (''26-ompi_genmc.c'', sample globals_ompi26 main_ompi26, Bug_Detected, Safe),
     (''2-DPDK_genmc.c'', sample globals_dpdk2 main_dpdk2, Safe, Safe),
     (''3-sel4_genmc.c'', sample globals_sel4 main_sel4, Safe, Safe),
     (''4-MySQL_genmc.c'', sample globals_mysql4 main_mysql4, Bug_Detected, Safe),
     (''5-StackOverFlowEasy_genmc.c'', sample globals_point main_point, Data_Race, Safe),
     (''6-ompi_genmc.c'', sample globals_ompi6 main_ompi6, Bug_Detected, Safe),
     (''7-OpenBLAS_genmc.c'', sample globals_blas main_blas, Safe, Safe),
     (''barrier_genmc.c'', sample globals_barrier main_barrier, Bug_Detected, Safe),
     (''crossbeam_genmc.c'', sample globals_crossbeam main_crossbeam, Bug_Detected, Safe),
     (''MariaDB-MDEV-6615_genmc.c'', sample globals_mdev6615 main_mdev6615, Bug_Detected, Safe),
     (''mcs_genmc.c'', sample globals_mcs main_mcs, Bug_Detected, Bug_Detected),
     (''mysql-99556_genmc.c'', sample globals_mysql99556 main_mysql99556, Bug_Detected, Safe),
     (''mysql_rwlock_deadlock_genmc.c'', sample globals_rwlock main_rwlock, Bug_Detected, Safe),
     (''mysql-ut-realx_genmc.c'', sample globals_utrealx main_utrealx, Bug_Detected, Safe),
     (''mysql_volatile_bug_genmc.c'', sample globals_volatile main_volatile, Bug_Detected, Safe),
     (''pso_test_genmc.c'', sample globals_pso main_pso, Bug_Detected, Safe),
     (''sofa_pbrpc_hang_genmc.c'', sample globals_sofa main_sofa, Bug_Detected, Safe),
     (''tso_test_genmc.c'', sample globals_tso main_tso, Bug_Detected, Safe),
     (''unsafe_publish_genmc.c'', sample globals_publish main_publish, Data_Race, Safe)]"

definition genmc_report_layer2 :: "report" where
  "genmc_report_layer2 = [
     (''10-smc2_genmc.c'', sample globals_smc2 main_smc2, Bug_Detected, Safe),
     (''11-gsm_genmc.c'', sample globals_gsm main_gsm, Bug_Detected, Bug_Detected),
     (''1-rds_genmc.c'', sample globals_rds main_rds, Bug_Detected, Safe),
     (''1-vlan_genmc.c'', sample globals_vlan main_vlan, Bug_Detected, Safe),
     (''1-vlan-s_genmc.c'', sample globals_vlan_s main_vlan_s, Bug_Detected, Bug_Detected),
     (''2-watchqueue_genmc.c'', sample globals_watchqueue2 main_watchqueue2, Bug_Detected, Safe),
     (''3-vmci_genmc.c'', sample globals_vmci main_vmci, Bug_Detected, Bug_Detected),
     (''3-xsk_genmc.c'', sample globals_xsk3 main_xsk3, Bug_Detected, Bug_Detected),
     (''4-xdp_genmc.c'', sample globals_xdp main_xdp, Bug_Detected, Bug_Detected),
     (''4-xsk2_genmc.c'', sample globals_xsk2 main_xsk2, Bug_Detected, Bug_Detected),
     (''5-fs_genmc.c'', sample globals_fs main_fs, Bug_Detected, Bug_Detected),
     (''5-tls_genmc.c'', sample globals_tls5 main_tls5, Bug_Detected, Bug_Detected),
     (''6-bpf_genmc.c'', sample globals_bpf main_bpf, Bug_Detected, Bug_Detected),
     (''7-nbd_genmc.c'', sample globals_nbd main_nbd, Bug_Detected, Bug_Detected),
     (''7-xdp2_genmc.c'', sample globals_xdp2 main_xdp2, Bug_Detected, Bug_Detected),
     (''9-tls2_genmc.c'', sample globals_tls2 main_tls2, Bug_Detected, Bug_Detected),
     (''9-unix_genmc.c'', sample globals_unix main_unix, Bug_Detected, Bug_Detected),
     (''9-unix-s_genmc.c'', sample globals_unix_s main_unix_s, Bug_Detected, Bug_Detected),
     (''tcve-2016-8655_genmc.c'', sample globals_tcve2016 main_tcve2016, Bug_Detected, Bug_Detected),
     (''tcve-2017-2636_genmc.c'', sample globals_tcve2017 main_tcve2017, Bug_Detected, Bug_Detected),
     (''tcve-2018-12232_genmc.c'', sample globals_tcve2018 main_tcve2018, Bug_Detected, Bug_Detected),
     (''tcve-2019-6974_genmc.c'', sample globals_tcve2019 main_tcve2019, Bug_Detected, Bug_Detected),
     (''watchqueue_genmc.c'', sample globals_watchqueue main_watchqueue, Bug_Detected, Bug_Detected),
     (''xsk_genmc.c'', sample globals_xsk main_xsk, Bug_Detected, Bug_Detected)]"

definition genmc_report_layer3 :: "report" where
  "genmc_report_layer3 = [
     (''8-smc_genmc.c'', sample globals_smc main_smc, Bug_Detected, Safe),
     (''8-smc-high_genmc.c'', sample globals_smc_high main_smc_high, Safe, Safe),
     (''8-tls_genmc.c'', sample globals_tls main_tls, Bug_Detected, Safe),
     (''8-tls-high_genmc.c'', sample globals_tls_high main_tls_high, Safe, Safe)]"

text \<open>\<open>cbmc_summary_report.csv\<close> of Layer 1: the results under TSO and under PSO.\<close>

definition cbmc_report :: "report" where
  "cbmc_report = [
     (''1-Linuxeasy.c'', sample globals_cb1 main_cb1, Exception, Exception),
     (''2-DPDK.c'', sample globals_cb2 main_cb2, Exception, Exception),
     (''3-sel4-dynamic.c'', sample globals_cb3 main_cb3, Bug_Detected, Bug_Detected),
     (''4-MySQL.c'', sample globals_cb4 main_cb4, Bug_Detected, Bug_Detected),
     (''5-StackOverFlowEasy.c'', sample globals_cb5 main_cb5, Exception, Exception),
     (''6-ompi.c'', sample globals_cb6 main_cb6, Safe, Bug_Detected),
     (''7-OpenBLAS.c'', sample globals_cb7 main_cb7, Safe, Safe),
     (''8-CVE-2020-11739-Xen.c'', sample globals_cb8 main_cb8, Safe, Bug_Detected),
     (''9-CVE-2020-25603-Xen.c'', sample globals_cb9 main_cb9, Safe, Bug_Detected),
     (''10-ceph.c'', sample globals_cb10 main_cb10, Safe, Safe),
     (''11-MariaDBEasy.c'', sample globals_cb11 main_cb11, Safe, Bug_Detected),
     (''12-DragonWell8Easy.c'', sample globals_cb12 main_cb12, Exception, Exception),
     (''13-JDK.c'', sample globals_cb13 main_cb13, Bug_Detected, Bug_Detected),
     (''14-libfabric.c'', sample globals_cb14 main_cb14, Safe, Safe),
     (''15-openmpi.c'', sample globals_cb15 main_cb15, Safe, Bug_Detected),
     (''16-includeos.c'', sample globals_cb16 main_cb16, Exception, Exception),
     (''17-mysql.c'', sample globals_cb17 main_cb17, Safe, Bug_Detected),
     (''18-JDK-8179954.c'', sample globals_cb18 main_cb18, Bug_Detected, Bug_Detected),
     (''19-ompi.c'', sample globals_cb19 main_cb19, Safe, Bug_Detected),
     (''20-barrier.c'', sample globals_cb20 main_cb20, Safe, Bug_Detected),
     (''21-crossbeam.c'', sample globals_cb21 main_cb21, Bug_Detected, Bug_Detected),
     (''22-MariaDB.c'', sample globals_cb22 main_cb22, Safe, Safe),
     (''23-mcs.c'', sample globals_cb23 main_cb23, Safe, Bug_Detected),
     (''24-mysql_rwlock_deadlock.c'', sample globals_cb24 main_cb24, Safe, Bug_Detected),
     (''25-mysql_volatile_bug.c'', sample globals_cb25 main_cb25, Safe, Bug_Detected),
     (''26-mysql-99556.c'', sample globals_cb26 main_cb26, Safe, Bug_Detected),
     (''27-mysql-ut-realx.c'', sample globals_cb27 main_cb27, Bug_Detected, Bug_Detected),
     (''28-pso_test.c'', sample globals_cb28 main_cb28, Safe, Bug_Detected),
     (''29-sofa_pbrpc_hang.c'', sample globals_cb29 main_cb29, Bug_Detected, Bug_Detected),
     (''30-tso_test.c'', sample globals_cb30 main_cb30, Bug_Detected, Bug_Detected),
     (''31-unsafe_publish.c'', sample globals_cb31 main_cb31, Exception, Exception),
     (''32-datarace.c'', sample globals_cb32 main_cb32, Safe, Bug_Detected)]"

section \<open>The verdicts proved\<close>

lemma publication_list: "list_all (\<lambda>(m, p). \<forall>M. safe M m p \<longleftrightarrow> M \<le> TSO) publication_samples"
  by (simp add: publication_samples_def publication_equations publication_verdicts)

lemma exit_code_safe: "safe M globals_smc_high main_smc_high" "safe M globals_tls_high main_tls_high"
  by (rule pso_verdict, rule completes_safe, rule main_smc_high_completes main_tls_high_completes)+

lemma fenced_safe: "list_all (\<lambda>(m, p). \<forall>M. safe M m p) cbmc_fenced_samples"
  using cbmc_fenced_correct by (auto simp: list_all_iff)

lemmas listed = list.pred_inject prod.case simp_thms

lemmas genmc_facts =
  publication_list [unfolded publication_samples_def listed] buffering_bug [unfolded buffering_samples_def listed]
  start_flag_bug [unfolded listed] crossbeam_safe mysql24_bug xen11739_vacuous linuxeasy_safe
  logic_bugs [unfolded logic_samples_def listed] exit_code_safe silent_safe silent_races

lemmas cbmc_facts =
  cbmc_plain_bug [unfolded cbmc_plain_samples_def listed] fenced_safe [unfolded cbmc_fenced_samples_def listed]
  cbmc_buffering_bug [unfolded listed] cbmc_reorder_bug [unfolded listed] cbmc_logic_bugs [unfolded listed]
  queue_lock_mutex unsafe_publication [unfolded listed]

section \<open>Comparison\<close>

lemmas report_simps = unconfirmed_first_def unconfirmed_second_def sample_def

text \<open>
  C24. All 120 rows of the reports of Nidhugg and GENMC. Of the 60 of Nidhugg every result is confirmed,
  under SC and under PSO, but for those that are none: seven samples timed out under SC, and six
  of them under PSO too. Every result of GENMC under SC is confirmed. Under its relaxed model, the
  data races it reports for the two publications of a structure included, GENMC agrees with PSO
  on all samples but one: the sequence lock of crossbeam, which fails only when loads are
  reordered.
\<close>

theorem tool_reports:
  "unconfirmed_first SC nidhugg_report = [''13-CVE-2020-11739-Xen_genmc.ll'', ''1-Linuxeasy_genmc.ll'',
     ''24-mysql_genmc.ll'', ''crossbeam_genmc.ll'', ''MariaDB-MDEV-6615_genmc.ll'', ''mysql-99556_genmc.ll'',
     ''mysql-ut-realx_genmc.ll''] \<and>
   map fst (filter (\<lambda>(file, p, sc, pso). sc = Timeout) nidhugg_report) = unconfirmed_first SC nidhugg_report \<and>
   unconfirmed_second PSO nidhugg_report = [''13-CVE-2020-11739-Xen_genmc.ll'', ''1-Linuxeasy_genmc.ll'',
     ''24-mysql_genmc.ll'', ''crossbeam_genmc.ll'', ''mysql-99556_genmc.ll'', ''mysql-ut-realx_genmc.ll''] \<and>
   map fst (filter (\<lambda>(file, p, sc, pso). pso = Timeout) nidhugg_report) = unconfirmed_second PSO nidhugg_report \<and>
   unconfirmed_second SC (genmc_report_layer1 @ genmc_report_layer2 @ genmc_report_layer3) = [] \<and>
   unconfirmed_first PSO (genmc_report_layer1 @ genmc_report_layer2 @ genmc_report_layer3) = [''crossbeam_genmc.c''] \<and>
   length nidhugg_report = 60 \<and>
   length (genmc_report_layer1 @ genmc_report_layer2 @ genmc_report_layer3) = 60"
proof -
  have n: "unconfirmed_first SC nidhugg_report = [''13-CVE-2020-11739-Xen_genmc.ll'', ''1-Linuxeasy_genmc.ll'',
     ''24-mysql_genmc.ll'', ''crossbeam_genmc.ll'', ''MariaDB-MDEV-6615_genmc.ll'', ''mysql-99556_genmc.ll'',
     ''mysql-ut-realx_genmc.ll'']"
    "unconfirmed_second PSO nidhugg_report = [''13-CVE-2020-11739-Xen_genmc.ll'', ''1-Linuxeasy_genmc.ll'',
     ''24-mysql_genmc.ll'', ''crossbeam_genmc.ll'', ''mysql-99556_genmc.ll'', ''mysql-ut-realx_genmc.ll'']"
    by (simp_all add: nidhugg_report_def report_simps genmc_facts)
  have t: "map fst (filter (\<lambda>(file, p, sc, pso). sc = Timeout) nidhugg_report) = unconfirmed_first SC nidhugg_report"
    "map fst (filter (\<lambda>(file, p, sc, pso). pso = Timeout) nidhugg_report) = unconfirmed_second PSO nidhugg_report"
    unfolding n by (simp_all add: nidhugg_report_def)
  have g: "unconfirmed_second SC (genmc_report_layer1 @ genmc_report_layer2 @ genmc_report_layer3) = []"
    "unconfirmed_first PSO (genmc_report_layer1 @ genmc_report_layer2 @ genmc_report_layer3) = [''crossbeam_genmc.c'']"
    by (simp_all add: genmc_report_layer1_def genmc_report_layer2_def genmc_report_layer3_def report_simps genmc_facts)
  have l: "length nidhugg_report = 60" "length (genmc_report_layer1 @ genmc_report_layer2 @ genmc_report_layer3) = 60"
    by (simp_all add: nidhugg_report_def genmc_report_layer1_def genmc_report_layer2_def genmc_report_layer3_def)
  show ?thesis unfolding t g l n by simp
qed

text \<open>
  C29. All 32 rows of the report of CBMC for Layer 1. The results are confirmed under TSO and PSO, with
  one exception: the CLH lock, which the report calls broken under TSO too, is correct there. Six
  rows have no result. Three samples that the report concludes to be logic bugs, since they fail
  under TSO, are correct under sequential consistency.
\<close>

theorem cbmc_report_verdicts:
  "unconfirmed_first TSO cbmc_report = [''1-Linuxeasy.c'', ''2-DPDK.c'', ''3-sel4-dynamic.c'', ''5-StackOverFlowEasy.c'',
     ''12-DragonWell8Easy.c'', ''16-includeos.c'', ''31-unsafe_publish.c''] \<and>
   unconfirmed_second PSO cbmc_report = [''1-Linuxeasy.c'', ''2-DPDK.c'', ''5-StackOverFlowEasy.c'',
     ''12-DragonWell8Easy.c'', ''16-includeos.c'', ''31-unsafe_publish.c''] \<and>
   map fst (filter (\<lambda>(file, p, tso, pso). tso = Exception \<and> pso = Exception) cbmc_report) =
     unconfirmed_second PSO cbmc_report \<and>
   length cbmc_report = 32 \<and>
   confirms PSO (sample globals_cb3 main_cb3) Bug_Detected \<and> \<not> confirms TSO (sample globals_cb3 main_cb3) Bug_Detected \<and>
   list_all (\<lambda>(m, p). safe SC m p \<and> \<not> safe TSO m p)
     [(globals_cb18, main_cb18), (globals_cb29, main_cb29), (globals_cb30, main_cb30)]"
proof -
  have u: "unconfirmed_first TSO cbmc_report = [''1-Linuxeasy.c'', ''2-DPDK.c'', ''3-sel4-dynamic.c'',
     ''5-StackOverFlowEasy.c'', ''12-DragonWell8Easy.c'', ''16-includeos.c'', ''31-unsafe_publish.c'']"
    "unconfirmed_second PSO cbmc_report = [''1-Linuxeasy.c'', ''2-DPDK.c'', ''5-StackOverFlowEasy.c'',
     ''12-DragonWell8Easy.c'', ''16-includeos.c'', ''31-unsafe_publish.c'']"
    by (simp_all add: cbmc_report_def report_simps cbmc_facts)
  have e: "map fst (filter (\<lambda>(file, p, tso, pso). tso = Exception \<and> pso = Exception) cbmc_report) =
     unconfirmed_second PSO cbmc_report"
    unfolding u by (simp add: cbmc_report_def)
  have l: "length cbmc_report = 32" by (simp add: cbmc_report_def)
  show ?thesis unfolding e u l by (simp add: sample_def cbmc_facts)
qed

section \<open>The two versions of a program\<close>

text \<open>The version for GENMC and the one for CBMC of the same original program.\<close>

definition same_verdict :: "(('l \<Rightarrow> 'v) \<times> ('l, 'v) prog) \<times> (('a \<Rightarrow> 'b) \<times> ('a, 'b) prog) \<Rightarrow> bool" where
  "same_verdict pq \<longleftrightarrow> (case pq of ((m, p), (m', q)) \<Rightarrow> \<forall>M. safe M m p \<longleftrightarrow> safe M m' q)"

text \<open>
  C23. For sixteen programs the version for GENMC and the version for CBMC have the same verdict
  on every memory model; for fourteen others they differ, so that what one tool finds in a program
  does not carry over to the other.
\<close>

theorem tools_agree:
  "list_all same_verdict
     [((globals_xen25603, main_xen25603), (globals_cb9, main_cb9)), ((globals_openmpi, main_openmpi), (globals_cb15, main_cb15)),
      ((globals_pso, main_pso), (globals_cb28, main_cb28)), ((globals_barrier, main_barrier), (globals_cb20, main_cb20)),
      ((globals_datarace, main_datarace), (globals_cb32, main_cb32)), ((globals_rwlock, main_rwlock), (globals_cb24, main_cb24)),
      ((globals_volatile, main_volatile), (globals_cb25, main_cb25)), ((globals_ompi6, main_ompi6), (globals_cb6, main_cb6)),
      ((globals_ompi26, main_ompi26), (globals_cb19, main_cb19)), ((globals_mysql24, main_mysql24), (globals_cb17, main_cb17)),
      ((globals_mysql99556, main_mysql99556), (globals_cb26, main_cb26)),
      ((globals_jdk8179954, main_jdk8179954), (globals_cb18, main_cb18)), ((globals_sofa, main_sofa), (globals_cb29, main_cb29)),
      ((globals_tso, main_tso), (globals_cb30, main_cb30))] \<and>
   same_verdict ((globals_dragonwell, main_dragonwell), (globals_cb12, main_cb12)) \<and>
   same_verdict ((globals_blas, main_blas), (globals_cb7, main_cb7)) \<and>
   list_all (\<lambda>pq. \<not> same_verdict pq)
     [((globals_mysql4, main_mysql4), (globals_cb4, main_cb4)), ((globals_jdk, main_jdk), (globals_cb13, main_cb13)),
      ((globals_ceph, main_ceph), (globals_cb10, main_cb10)), ((globals_libfabric, main_libfabric), (globals_cb14, main_cb14)),
      ((globals_includeos, main_includeos), (globals_cb16, main_cb16)), ((globals_mdev6615, main_mdev6615), (globals_cb22, main_cb22)),
      ((globals_mariadbeasy, main_mariadbeasy), (globals_cb11, main_cb11)), ((globals_crossbeam, main_crossbeam), (globals_cb21, main_cb21)),
      ((globals_utrealx, main_utrealx), (globals_cb27, main_cb27)), ((globals_mcs, main_mcs), (globals_cb23, main_cb23)),
      ((globals_xen11739, main_xen11739), (globals_cb8, main_cb8))] \<and>
   \<not> same_verdict ((globals_linuxeasy, main_linuxeasy), (globals_cb1, main_cb1)) \<and>
   \<not> same_verdict ((globals_point, main_point), (globals_cb5, main_cb5)) \<and>
   \<not> same_verdict ((globals_publish, main_publish), (globals_cb31, main_cb31))"
proof -
  have some: "\<exists>M. M \<le> TSO" "\<exists>M. \<not> M \<le> TSO" by (rule exI [of _ SC], simp) (rule exI [of _ PSO], simp)
  show ?thesis by (simp add: same_verdict_def genmc_facts cbmc_facts some)
qed

end
