(* ===== verification/Spec2Isabelle.thy ===== *)
theory Spec2Isabelle
  imports Genmc_Publication Genmc_Store_Buffering Genmc_Spin Genmc_Locks Genmc_Logic Hardening
    Genmc_Silent Cbmc_Publication Cbmc_Misc Cbmc_Pointers Cbmc_Locks
    Mcs_Lock Dpdk_Lock Clh_Lock Rw_Lock Buffer_Pool Event_Channels Lf_List Innodb_Mutex Ring_Buffer Opal_Lifo
    Rwlock_Test Binlog_Test Ut_Delay Sofa_Test Point_Test Semaphore_Tests Spinlock_Test Handoff_Programs Short_Programs
    Cpp_Programs Kernel_Samples Kernel_Stubs Tool_Reports
begin

text \<open>
  A verification library for the benchmark of ordering-related concurrency bugs.

  The repository holds some sixty small C programs, each the core of a concurrency bug of a real
  system (Linux, DPDK, seL4, MySQL, MariaDB, Xen, OpenBLAS, Open MPI and others), in up to three
  versions: the original program (\<open>Layer1\<close>, \<open>Layer2\<close>, \<open>Layer3\<close>), one written for the stateless model
  checkers (\<open>GENMC&Nidhugg/Layer*/*_genmc.c\<close>) and one for the bounded model checker
  (\<open>CBMC/Layer*/*.c\<close>). The programs do not call each other. What they share is the way they run:
  threads over shared objects, under a memory model. The library is built in the same way: a few
  theories give programs a meaning and prove what holds of every program, and a theory per group
  of programs translates them and draws the conclusions.

  \<^bold>\<open>Foundations.\<close>
  \<open>Prelude\<close> has the generic lemmas, \<open>Transition_Systems\<close> the safety predicate \<open>always\<close>, the
  exploration of a finite state space inside the logic and the locale \<open>simulation\<close>.
  \<open>C11_Programs\<close> is the language of the thread functions: the sequence of accesses to shared
  objects with their C11 memory orders, local variables being HOL variables. \<open>Store_Buffer\<close> and
  \<open>Machine\<close> give it three operational memory models: SC, TSO (one store queue per thread) and
  PSO (stores to different objects may leave it in any order). \<open>Memory_Models\<close> proves that each is
  weaker than the one before, so a program that is safe on one is safe on the stronger ones.
  \<open>safe M m p\<close>: no execution of \<open>p\<close> from the objects \<open>m\<close> fails an assertion; \<open>completes M n m p\<close>:
  moreover every execution stops, after fewer than \<open>n\<close> steps, with all threads returned and all
  stores in memory; \<open>\<not> safe\<close> is always shown by a schedule. \<open>Litmus\<close> proves the verdicts of
  message passing and store buffering once, in locales that the samples interpret; \<open>Spinning\<close>
  does so for start flags and spinlocks, whose loops have no bound; \<open>Merging\<close> is a second
  exploration that merges equal states, for the larger samples; \<open>Pointers\<close> has objects that are
  fields of structures. The bounds \<open>n\<close> of \<open>completes\<close> exceed the number of steps of the longest
  execution of the sample (its accesses, its commits and \<open>main\<close>'s own steps), and the theorem
  proves it, since an execution that reached the bound would refute it.

  \<^bold>\<open>Samples for the model checkers.\<close> \<open>Genmc_Publication\<close>, \<open>Genmc_Store_Buffering\<close>, \<open>Genmc_Spin\<close>,
  \<open>Genmc_Locks\<close>, \<open>Genmc_Logic\<close>, \<open>Genmc_Silent\<close> hold all samples of \<open>GENMC&Nidhugg\<close> by the kind of
  their verdict, those of \<open>Genmc_Silent\<close> also with an added assertion that states their bug;
  \<open>Cbmc_Publication\<close>, \<open>Cbmc_Misc\<close>, \<open>Cbmc_Pointers\<close>, \<open>Cbmc_Locks\<close> those of
  \<open>CBMC/Layer1\<close>. The functions of a sample keep their names, with a suffix for the sample.
  \<open>Hardening\<close> shows that release stores repair the publication samples.

  \<^bold>\<open>Original programs of Layer 1,\<close> under sequential consistency, one access per step:
  \<open>Mcs_Lock\<close> (\<open>1-Linuxeasy.c\<close>, any number of threads), \<open>Dpdk_Lock\<close> (\<open>2-DPDK.c\<close>), \<open>Clh_Lock\<close>
  (\<open>3-sel4-dynamic.c\<close>, with its heap). All three interpret the locale \<open>queue_lock\<close> of \<open>Fifo_Lock\<close>,
  which derives mutual exclusion and order from a simulation into an abstract first-come-first-
  served lock; the DPDK lock reaches it through the Linux lock. The CLH lock frees nodes that are
  still in use: its theorems hold up to and including the first memory error, and \<open>clh_memory_errors\<close>
  shows that there is one. \<open>Rw_Lock\<close> (\<open>4-MySQL.c\<close>) refines the packed lock word, a signed 32-bit
  integer whose overflow is an error value, to an owner with a depth; its calls run one at a time.
  \<open>Buffer_Pool\<close> (\<open>7-OpenBLAS.c\<close>), \<open>Event_Channels\<close> (\<open>9-CVE-2020-25603-Xen.c\<close>, any number of
  threads), \<open>Lf_List\<close> (\<open>11-MariaDBEasy.c\<close>, among threads that change memory between its accesses),
  \<open>Opal_Lifo\<close> (\<open>15-openmpi.c\<close>, for a node and for a null pointer from \<open>malloc\<close>), \<open>Ring_Buffer\<close>
  (\<open>16-includeos.c\<close>) and \<open>Innodb_Mutex\<close> (\<open>17-mysql.c\<close>) are the data structures. The test programs, which loop until they see a reordering: \<open>Handshake\<close> is the
  protocol of rounds that \<open>Rwlock_Test\<close> (\<open>24-mysql_rwlock_deadlock.c\<close>) and \<open>Binlog_Test\<close>
  (\<open>25-mysql_volatile_bug.c\<close>) refine, through the locale \<open>test_harness\<close>; \<open>Ut_Delay\<close>
  (\<open>27-mysql-ut-realx.c\<close>), \<open>Sofa_Test\<close> (\<open>29-sofa_pbrpc_hang.c\<close>) and \<open>Point_Test\<close>
  (\<open>31-unsafe_publish.c\<close>, \<open>5-StackOverFlowEasy.c\<close>) follow, then \<open>Semaphore_Tests\<close> (\<open>28-pso_test.c\<close>,
  \<open>30-tso_test.c\<close>), whose locale \<open>semaphore_round\<close> says what a pair of threads keeps in a round, and
  \<open>Spinlock_Test\<close> (\<open>22-MariaDB.c\<close>). Under sequential consistency such a test should report nothing
  and end; the theorems say which do. The remaining ones are short: \<open>Handoff_Programs\<close> (\<open>6-ompi.c\<close>,
  \<open>13-JDK.c\<close>, \<open>23-mcs.c\<close>), \<open>Short_Programs\<close> (\<open>8-CVE-2020-11739-Xen.c\<close>, \<open>10-ceph.c\<close>, \<open>14-libfabric.c\<close>,
  \<open>18-JDK-8179954.c\<close>, \<open>21-crossbeam.c\<close>, \<open>26-mysql-99556.c\<close>) and \<open>Cpp_Programs\<close> with the four C++ files;
  two of those, \<open>20-barrier.cpp\<close> and \<open>32-datarace.cpp\<close>, are written in \<open>C11_Programs\<close> and judged on the
  three memory models.

  \<^bold>\<open>Reports of the tools.\<close> \<open>Tool_Reports\<close> holds the tables of results that the repository records for
  Nidhugg, GENMC and CBMC (Layer 1), every row with the sample it is about, and compares them with the
  verdicts proved here, and the versions of a program for one tool with those for the other. A
  timeout or an exception of a tool confirms nothing; a data race that GENMC reports is confirmed by
  a reachable race, \<open>Genmc_Silent\<close>.

  \<^bold>\<open>Programs of Layers 2 and 3.\<close> They race Linux system calls. \<open>System_Calls\<close> is their language,
  with the kernel as a parameter: a relation between a call and the results it may have.
  \<open>Kernel_Samples\<close> has the originals, for a kernel about which nothing is assumed; a call may also
  never return, so nothing is said of their termination, and the theorems, which hold of every reachable
  state, say which of them race on a file descriptor and which pass on the result of a failed
  call. The kernel of the second question, \<open>pair_kernel\<close>, keeps one rule: \<open>pipe2\<close> and \<open>socketpair\<close>
  write two descriptors when they succeed and nothing when they fail. \<open>Kernel_Stubs\<close> has the CBMC
  versions, whose kernel is the constant functions that they define, which do return: these programs
  end, by descent in the multiset of their threads.

  \<^bold>\<open>What the lemmas of a program show.\<close> An invariant and that every step keeps it; the functional
  behaviour or the refinement that rests on it; bounds on indices, words and steps; and, where the
  program is wrong, a run that shows it. The theorems of this theory collect verdicts over several
  groups.

  \<^bold>\<open>Not modelled.\<close> Printing and sleeping (they order nothing); \<open>lf_pinbox_real_free\<close> of
  \<open>11-MariaDBEasy.c\<close>, which does not compile; the LLVM files, which are compiler output; the
  scripts, which run the tools; \<open>IRhunter\<close>, which is a loop around binaries. The memory models are
  those of store buffers: reordered loads, which ARM has, are not among them, so \<open>safe PSO\<close> does
  not say safe on ARM; the originals of Layer 1 are modelled under sequential consistency only, but for
  two C++ files, since their versions for the tools are the ones written for weak memory.
\<close>

section \<open>Verdicts across the two tools\<close>

text \<open>
  C25. The samples written for GENMC that spin: the three that wait for a start flag and the MySQL
  mutex satisfy their assertion exactly on the memory models that keep stores in order, however
  long they spin; the assertions of the crossbeam and the Xen rwlock sample hold on every model.
\<close>

theorem spin_verdicts:
  "list_all (\<lambda>(m, p). \<forall>M. safe M m p \<longleftrightarrow> M \<le> TSO)
     [(globals_mdev6615, main_mdev6615), (globals_mysql99556, main_mysql99556), (globals_utrealx, main_utrealx),
      (globals_mysql24, main_mysql24)] \<and>
   list_all (\<lambda>(m, p). \<forall>M. safe M m p) [(globals_crossbeam, main_crossbeam), (globals_xen11739, main_xen11739)]"
  using start_flag_bug mysql24_bug crossbeam_safe xen11739_vacuous by simp

text \<open>
  The six samples in which each of two threads stores and then loads what the other stores, for
  GENMC and for CBMC, are correct exactly under sequential consistency.
\<close>

theorem store_buffering_verdicts:
  "list_all (\<lambda>(m, p). \<forall>M. safe M m p \<longleftrightarrow> M = SC)
     (buffering_samples @ [(globals_cb18, main_cb18), (globals_cb29, main_cb29), (globals_cb30, main_cb30)])"
  using buffering_bug cbmc_buffering_bug by simp

text \<open>
  C37. The CBMC samples of Layer 1 that publish data by a flag or a pointer without a barrier, and
  those whose lock or list depends on the order of two stores, are correct exactly on the memory
  models that keep stores in order. The versions with a full barrier between the two stores are
  repaired: they run to completion within 20 steps and are correct on every model.
\<close>

theorem cbmc_ordering_verdicts:
  "list_all (\<lambda>(m, p). \<forall>M. safe M m p \<longleftrightarrow> M \<le> TSO)
     (cbmc_plain_samples @
      [(globals_cb6, main_cb6), (globals_cb19, main_cb19), (globals_cb26, main_cb26), (globals_cb28, main_cb28)]) \<and>
   list_all (\<lambda>(m, p). \<forall>M. safe M m p \<longleftrightarrow> M \<le> TSO)
     [(globals_cb5, main_cb5), (globals_cb31, main_cb31), (globals_cb12, main_cb12)] \<and>
   list_all (\<lambda>(m, p). completes PSO 20 m p \<and> (\<forall>M. safe M m p)) cbmc_fenced_samples"
  using cbmc_plain_bug unsafe_publication cbmc_reorder_bug cbmc_fenced_correct by simp

text \<open>
  C38. The samples whose bug needs no reordering, 22 for GENMC and four for CBMC, can fail their
  assertion on every memory model, sequential consistency included.
\<close>

theorem logic_bug_verdicts:
  "list_all (\<lambda>(m, p). \<forall>M. \<not> safe M m p)
     (logic_samples @
      [(globals_cb4, main_cb4), (globals_cb13, main_cb13), (globals_cb21, main_cb21), (globals_cb27, main_cb27)])"
  using logic_bugs cbmc_logic_bugs by simp

section \<open>Test programs that are not sound\<close>

text \<open>
  C33. The rw-lock test and the binlog test are no tests of memory ordering: under sequential
  consistency both can report the bug, in their third round, and both can hang with each thread
  waiting for the other. The test of \<open>UT_RELAX_CPU\<close> can hang too: a writer that runs ahead finishes
  all its rounds while the reader makes one, and the reader waits forever for data that is not
  published any more.
\<close>

theorem tests_unsound:
  "(\<exists>c. rwt_step\<^sup>*\<^sup>* rwt_init c \<and> reader_pc c = Rwlock_Test.Exited \<and> rwlock_test.iterations c = 2) \<and>
   (\<exists>c. rwt_step\<^sup>*\<^sup>* rwt_init c \<and> always rwt_step c (\<lambda>d. writer_pc d = Wait_reset \<and> rwlock_test.start_flag d = 1 \<and>
      rwlock_test.writer_done d = 0 \<and> lock_recursive d = 0 \<and> rwlock_test.iterations d = 1)) \<and>
   (\<exists>c. binlog_step\<^sup>*\<^sup>* binlog_init c \<and> use_pc c = Quit \<and> binlog.iterations c = 2) \<and>
   (\<exists>c. binlog_step\<^sup>*\<^sup>* binlog_init c \<and> always binlog_step c (\<lambda>d. open_pc d = Await_reset \<and> binlog.start_flag d = 1 \<and>
      binlog.writer_done d = 0 \<and> log_state d = LOG_CLOSED \<and> binlog.iterations d = 1)) \<and>
   (\<exists>c. ut_step\<^sup>*\<^sup>* ut_init c \<and> always ut_step c (\<lambda>d. main_at d = Ut_Delay.M_join_reader 1 \<and>
      ut.writer_at d = Ut_Delay.W_returned \<and> ut.reader_at d \<in> {Ut_Delay.R_relax, Ut_Delay.R_poll} \<and> data_ready d = 0 \<and> reader_i d = 1))"
  using rwlock_test_unsound binlog_test_unsound ut_hangs by blast

section \<open>Original programs under sequential consistency\<close>

text \<open>
  C20. The tests that are sound: under sequential consistency the tests of sofa-pbrpc, of store
  ordering and of store buffering never break out of their loop, in any of their rounds, and in the
  spinlock test of MariaDB the assertion of the reader never fails and the two threads are never
  inside the lock at once. What these programs report on a machine is therefore a reordering.
\<close>

theorem tests_quiet:
  "always sofa_step sofa_init (\<lambda>c. sofa_main c \<noteq> Sofa_Test.Exited) \<and>
   always pso_step sem_init (\<lambda>s. sem_main s \<noteq> M_break) \<and> always tso_step sem_init (\<lambda>s. sem_main s \<noteq> M_break) \<and>
   always spin_step spin_init (\<lambda>s. spin_reader s \<noteq> R_failed \<and>
     \<not> (writer_inside (spin_writer s) \<and> reader_inside (spin_reader s)))"
  using sofa_no_report pso_test_quiet tso_test_quiet spin_test_quiet by simp

text \<open>
  C34. Three programs in which a thread waits for another, without any reordering. Open MPI: the
  declaration never returns an error, but if the callback runs first it waits forever. The JDK
  monitor: whatever the allocated node holds, a thread waits in vain never, but it can leave, and the
  other thread too, with its node still in the list. The hand-over of the DPDK lock: a successor
  that is slow makes the predecessor report a hang, and the predecessor goes on only when it has seen
  the link.
\<close>

theorem handoffs:
  "always ompi_step ompi_init (\<lambda>s. declare_pc s \<noteq> D_returned OPAL_ERROR) \<and>
   (\<exists>s. ompi_step\<^sup>*\<^sup>* ompi_init s \<and> always ompi_step s (\<lambda>t. declare_pc t = D_wait \<and> callback_pc t = B_returned)) \<and>
   always monitor_step (main_jdk13 st nx) (\<lambda>s. \<not> waits_in_vain s) \<and>
   (\<exists>s. monitor_step\<^sup>*\<^sup>* (main_jdk13 st nx) s \<and> enter_pc s = E_returned \<and>
      exit_pc s = Handoff_Programs.X_returned \<and> entryList s) \<and>
   (\<exists>s. handoff_step\<^sup>*\<^sup>* main_handover s \<and> predecessor_pc s = P_hanged) \<and>
   always handoff_step main_handover (\<lambda>s. \<not> joins_early s)"
  using ompi_declare_result monitor_enter_ends handover_alarm by blast

text \<open>
  C36. The short programs, without any reordering. Xen: \<open>write_lock\<close> on its own leaves the lock taken
  whoever held it. Ceph: threads with different numbers never take each other's lock for their own,
  and the assertion holds. Store buffering: the program never prints 0, 0, and can print the three other
  results. Crossbeam: the reader validates the old value only. MySQL: counter and mode are in step, yet
  the reader can cache a mode that is newer than the counter, or end without having cached any.
\<close>

theorem short_programs:
  assumes "t1 \<noteq> t2"
  shows "(write_lock_xen ^^ 2) \<lparr>cnts = c, lock_at = X_load, unlock_done = u\<rparr> =
      \<lparr>cnts = QW_LOCKED, lock_at = Short_Programs.X_returned, unlock_done = u\<rparr> \<and>
    always (ceph_step t1 t2) ceph_init (\<lambda>s. post_pc s \<noteq> P_failed \<and> owner_pc s \<noteq> O_returned True) \<and>
    {v. \<exists>s. jdk_step\<^sup>*\<^sup>* jdk_init s \<and> printed s = Some v} \<supseteq> {(0, 1), (1, 0), (1, 1)} \<and>
    (\<nexists>s. jdk_step\<^sup>*\<^sup>* jdk_init s \<and> printed s = Some (0, 0)) \<and>
    always seq_step seq_init (\<lambda>s. seq_reader s \<noteq> Q_accepts 1) \<and>
    always gtid_step gtid_init (\<lambda>s. version_ok (version_pc s) s) \<and>
    (\<exists>s. gtid_step\<^sup>*\<^sup>* gtid_init s \<and> cached_counter s = 1 \<and> cached_gtid_mode s = 0) \<and>
    (\<exists>s. gtid_step\<^sup>*\<^sup>* gtid_init s \<and> version_pc s = V_returned \<and> cache_pc s = K_returned \<and> cached_counter s = - 1)"
  using xen_lock_always_taken ceph_owner [OF assms] jdk_outcomes seqlock_accepts_old gtid_cache by (intro conjI) blast+

theorem short_programs_witness:
  "always (ceph_step 1 2) ceph_init (\<lambda>s. post_pc s \<noteq> P_failed \<and> owner_pc s \<noteq> O_returned True) \<and>
   (write_lock_xen ^^ 2) \<lparr>cnts = 255, lock_at = X_load, unlock_done = False\<rparr> =
     \<lparr>cnts = QW_LOCKED, lock_at = Short_Programs.X_returned, unlock_done = False\<rparr>"
  using short_programs [of 1 2 255 False] by simp

end
